(* ===== verification/Prelude.thy ===== *)
theory Prelude
  imports Main "HOL-Library.Word" "HOL-Library.Multiset" "HOL-Library.List_Lexorder" "HOL-Library.Char_ord"
begin

text \<open>
  The vocabulary shared by every component of the development: Go's fixed-width integers, maps
  read with a zero value, reachable states of a step relation, and the contract that an
  inductive invariant of a step relation satisfies.

  Go strings are byte sequences, and so is HOL's \<^typ>\<open>string\<close>: one \<^typ>\<open>char\<close> is one byte, and
  \<^term>\<open>length\<close> is Go's \<open>len\<close>. The order on strings is the byte-wise lexicographic one, which
  is Go's \<open><\<close> on strings.
\<close>

named_theorems go_defs \<open>definitions of the Go library functions the program calls\<close>
named_theorems model_defs \<open>definitions of the program's own small operations\<close>

subsection \<open>Go's 64-bit integers\<close>

text \<open>
  Go's \<open>int\<close> has 64 bits on the platforms cpms is built for. The model reads it as an
  \<^typ>\<open>int\<close>; the one place where the program lets an \<open>int\<close> grow without bound (the
  transaction counter) writes the wrap-around out with \<open>wrap64\<close>.
\<close>

definition int64_min :: int where
  "int64_min = - (2 ^ 63)"

definition int64_max :: int where
  "int64_max = 2 ^ 63 - 1"

definition in_int64 :: "int \<Rightarrow> bool" where
  "in_int64 i \<longleftrightarrow> int64_min \<le> i \<and> i \<le> int64_max"

definition wrap64 :: "int \<Rightarrow> int" where
  "wrap64 i = (i + 2 ^ 63) mod 2 ^ 64 - 2 ^ 63"

lemma wrap64_id [simp]: "in_int64 i \<Longrightarrow> wrap64 i = i"
  by (simp add: wrap64_def in_int64_def int64_min_def int64_max_def)

lemma wrap64_in_int64 [simp]: "in_int64 (wrap64 i)"
proof -
  have "0 \<le> (i + 2 ^ 63) mod 2 ^ 64" and "(i + 2 ^ 63) mod 2 ^ 64 < 2 ^ 64"
    by simp_all
  then show ?thesis
    by (simp add: wrap64_def in_int64_def int64_min_def int64_max_def)
qed

subsection \<open>Maps read with a zero value\<close>

text \<open>Reading a missing key of a Go map gives the zero value of the element type.\<close>

definition mget :: "('k \<rightharpoonup> 'v) \<Rightarrow> 'k \<Rightarrow> 'v \<Rightarrow> 'v" where
  "mget m k d = (case m k of None \<Rightarrow> d | Some v \<Rightarrow> v)"

lemma mget_None [simp]: "m k = None \<Longrightarrow> mget m k d = d"
  by (simp add: mget_def)

lemma mget_Some [simp]: "m k = Some v \<Longrightarrow> mget m k d = v"
  by (simp add: mget_def)

lemma mget_upd: "mget (m(k \<mapsto> v)) k' d = (if k' = k then v else mget m k' d)"
  by (simp add: mget_def)

text \<open>
  A \<open>for range\<close> loop over a Go map visits the keys in an order the language leaves open. A
  model of such a loop takes the order as an argument, a list that enumerates the keys.
\<close>

definition enumerates :: "'k list \<Rightarrow> ('k \<rightharpoonup> 'v) \<Rightarrow> bool" where
  "enumerates ks m \<longleftrightarrow> distinct ks \<and> set ks = dom m"

lemma enumerates_mset: "enumerates ks m \<Longrightarrow> enumerates ks' m \<Longrightarrow> mset ks = mset ks'"
  by (metis enumerates_def set_eq_iff_mset_eq_distinct)

subsection \<open>Reachable states and invariants\<close>

inductive reachable :: "('s \<Rightarrow> bool) \<Rightarrow> ('s \<Rightarrow> 's \<Rightarrow> bool) \<Rightarrow> 's \<Rightarrow> bool" for I R where
  reach_init: "I s \<Longrightarrow> reachable I R s"
| reach_step: "reachable I R s \<Longrightarrow> R s t \<Longrightarrow> reachable I R t"

lemma rtranclp_reachable: "R\<^sup>*\<^sup>* s t \<Longrightarrow> reachable I R s \<Longrightarrow> reachable I R t"
  by (induction rule: rtranclp_induct) (auto intro: reach_step)

text \<open>
  The contract of an inductive invariant: it holds initially and every step keeps it. The
  components interpret it on their own step relation and their own invariant.
\<close>

locale invariant_system =
  fixes init :: "'s \<Rightarrow> bool"
    and step :: "'s \<Rightarrow> 's \<Rightarrow> bool"
    and inv :: "'s \<Rightarrow> bool"
  assumes inv_init: "init s \<Longrightarrow> inv s"
    and inv_step: "inv s \<Longrightarrow> step s t \<Longrightarrow> inv t"
begin

lemma reachable_inv: "reachable init step s \<Longrightarrow> inv s"
  by (induction rule: reachable.induct) (blast intro: inv_init inv_step)+

lemma run_inv: "inv s \<Longrightarrow> step\<^sup>*\<^sup>* s t \<Longrightarrow> inv t"
  by (rotate_tac, induction rule: rtranclp_induct) (blast intro: inv_step)+

end

subsection \<open>Lists\<close>

lemma find_Some_D: "List.find P xs = Some x \<Longrightarrow> x \<in> set xs \<and> P x"
  by (auto simp: find_Some_iff)

lemma sort_key_unique:
  assumes "mset xs = mset ys" and "distinct (map f xs)"
  shows "sort_key f xs = sort_key f ys"
proof -
  let ?a = "sort_key f xs" and ?b = "sort_key f ys"
  have m: "mset ?a = mset ?b" using assms(1) by simp
  have da: "distinct (map f ?a)" using assms(2) by (metis mset_map mset_sort mset_eq_imp_distinct_iff)
  have db: "distinct (map f ?b)" using da m by (metis mset_map mset_eq_imp_distinct_iff)
  have "set (map f ?a) = set (map f ?b)" using m by (metis mset_map set_mset_mset)
  then have "map f ?a = map f ?b"
    using da db by (intro sorted_distinct_set_unique) simp_all
  moreover have "inj_on f (set ?a \<union> set ?b)"
    using da m by (metis distinct_map mset_eq_setD sup.idem)
  ultimately show ?thesis by (rule map_inj_on)
qed

end
