(* ===== verification/Go_Text.thy ===== *)
theory Go_Text
  imports Prelude
begin

text \<open>
  The parts of Go's \<open>strconv\<close>, \<open>strings\<close> and \<open>fmt\<close> packages the program calls: decimal
  rendering and parsing of integers, splitting, joining and trimming, quoting (the verb
  \<open>%q\<close>) and case folding. Their laws (parsing inverts rendering, joining inverts splitting,
  folding is an equivalence) are what the components rely on.
\<close>

subsection \<open>Decimal integers (\<open>strconv\<close>)\<close>

definition digit_char :: "nat \<Rightarrow> char" where
  "digit_char d = char_of (48 + d)"

definition is_digit :: "char \<Rightarrow> bool" where
  "is_digit c \<longleftrightarrow> 48 \<le> (of_char c :: nat) \<and> (of_char c :: nat) \<le> 57"

definition char_digit :: "char \<Rightarrow> nat" where
  "char_digit c = of_char c - 48"

fun dec :: "nat \<Rightarrow> string" where
  "dec n = (if n < 10 then [digit_char n] else dec (n div 10) @ [digit_char (n mod 10)])"

declare dec.simps [simp del]

definition itoa :: "int \<Rightarrow> string" where
  "itoa i = (if i < 0 then CHR ''-'' # dec (nat (- i)) else dec (nat i))"

definition digits_value :: "string \<Rightarrow> nat" where
  "digits_value s = foldl (\<lambda>n c. 10 * n + char_digit c) 0 s"

definition parse_dec :: "string \<Rightarrow> nat option" where
  "parse_dec s = (if s \<noteq> [] \<and> list_all is_digit s then Some (digits_value s) else None)"

text \<open>
  \<open>strconv.Atoi\<close>: an optional sign, at least one digit and nothing else, and a value that fits
  64 bits; \<^term>\<open>None\<close> is its error.
\<close>

definition atoi :: "string \<Rightarrow> int option" where
  "atoi s =
     (let (neg, ds) = (case s of
            [] \<Rightarrow> (False, [])
          | c # cs \<Rightarrow> if c = CHR ''-'' then (True, cs)
                      else if c = CHR ''+'' then (False, cs) else (False, s))
      in case parse_dec ds of
           None \<Rightarrow> None
         | Some n \<Rightarrow> (let i = (if neg then - int n else int n)
                      in if in_int64 i then Some i else None))"

lemma is_digit_digit_char [simp]: "d < 10 \<Longrightarrow> is_digit (digit_char d)"
  by (simp add: is_digit_def digit_char_def)

lemma char_digit_digit_char [simp]: "d < 10 \<Longrightarrow> char_digit (digit_char d) = d"
  by (simp add: char_digit_def digit_char_def)

lemma is_digit_not_sign [simp]: "is_digit c \<Longrightarrow> c \<noteq> CHR ''-''" "is_digit c \<Longrightarrow> c \<noteq> CHR ''+''"
  by (auto simp: is_digit_def)

lemma digits_value_snoc: "digits_value (s @ [c]) = 10 * digits_value s + char_digit c"
  by (simp add: digits_value_def)

lemma dec_nonempty [simp]: "dec n \<noteq> []"
  by (subst dec.simps) simp

lemma dec_digits: "list_all is_digit (dec n)"
proof (induction n rule: dec.induct)
  case (1 n)
  then show ?case by (subst dec.simps) simp
qed

lemma digits_value_dec: "digits_value (dec n) = n"
proof (induction n rule: dec.induct)
  case (1 n)
  show ?case
  proof (cases "n < 10")
    case True
    then show ?thesis by (subst dec.simps) (simp add: digits_value_def)
  next
    case False
    with 1 show ?thesis by (subst dec.simps) (simp add: digits_value_snoc)
  qed
qed

lemma parse_dec_dec [simp]: "parse_dec (dec n) = Some n"
  by (simp add: parse_dec_def dec_digits digits_value_dec)

lemma dec_inject [simp]: "dec m = dec n \<longleftrightarrow> m = n"
  by (metis digits_value_dec)

lemma dec_hd_not_sign: "dec n = c # cs \<Longrightarrow> c \<noteq> CHR ''-'' \<and> c \<noteq> CHR ''+''"
  using dec_digits [of n] by (auto simp: is_digit_def)

lemma dec_not_Cons_minus [simp]: "dec n \<noteq> CHR ''-'' # cs" "CHR ''-'' # cs \<noteq> dec n"
  using dec_hd_not_sign by metis+

text \<open>Parsing inverts rendering on the 64-bit integers, so rendering is injective there.\<close>

lemma atoi_itoa [simp]:
  assumes "in_int64 i"
  shows "atoi (itoa i) = Some i"
proof (cases "i < 0")
  case True
  with assms show ?thesis by (simp add: atoi_def itoa_def)
next
  case False
  obtain c cs where d: "dec (nat i) = c # cs"
    by (cases "dec (nat i)") simp_all
  then have "parse_dec (c # cs) = Some (nat i)" by (metis parse_dec_dec)
  with assms False d dec_hd_not_sign [OF d] show ?thesis
    by (simp add: atoi_def itoa_def)
qed

lemma itoa_inject [simp]: "itoa i = itoa j \<longleftrightarrow> i = j"
  by (auto simp: itoa_def)

lemma atoi_in_int64: "atoi s = Some i \<Longrightarrow> in_int64 i"
  by (auto simp: atoi_def Let_def split: list.splits if_splits option.splits)

subsection \<open>Splitting, joining and trimming (\<open>strings\<close>)\<close>

fun go_join :: "string \<Rightarrow> string list \<Rightarrow> string" where
  "go_join sep [] = []"
| "go_join sep [x] = x"
| "go_join sep (x # y # xs) = x @ sep @ go_join sep (y # xs)"

text \<open>\<open>strings.Split\<close> with a one-byte separator: always at least one part.\<close>

fun split_on :: "char \<Rightarrow> string \<Rightarrow> string list" where
  "split_on c [] = [[]]"
| "split_on c (x # xs) =
     (if x = c then [] # split_on c xs
      else case split_on c xs of [] \<Rightarrow> [[x]] | y # ys \<Rightarrow> (x # y) # ys)"

lemma split_on_nonempty [simp]: "split_on c s \<noteq> []"
  by (cases s) (auto split: list.splits)

lemma join_split: "go_join [c] (split_on c s) = s"
proof (induction s)
  case (Cons x xs)
  obtain y ys where s: "split_on c xs = y # ys"
    by (cases "split_on c xs") auto
  with Cons show ?case by (cases ys) auto
qed simp

lemma split_on_no_sep: "c \<notin> set s \<Longrightarrow> split_on c s = [s]"
  by (induction s) auto

lemma split_on_parts: "p \<in> set (split_on c s) \<Longrightarrow> c \<notin> set p"
proof (induction s arbitrary: p)
  case (Cons x xs)
  then show ?case by (auto split: if_splits list.splits)
qed simp

text \<open>
  \<open>strings.TrimSpace\<close> removes leading and trailing characters with Unicode's White Space
  property. \<open>white_space\<close> lists their UTF-8 encodings.
\<close>

definition white_space :: "string list" where
  "white_space =
     [[CHR 0x09], [CHR 0x0A], [CHR 0x0B], [CHR 0x0C], [CHR 0x0D], [CHR 0x20],
      [CHR 0xC2, CHR 0x85], [CHR 0xC2, CHR 0xA0], [CHR 0xE1, CHR 0x9A, CHR 0x80],
      [CHR 0xE2, CHR 0x80, CHR 0x80], [CHR 0xE2, CHR 0x80, CHR 0x81],
      [CHR 0xE2, CHR 0x80, CHR 0x82], [CHR 0xE2, CHR 0x80, CHR 0x83],
      [CHR 0xE2, CHR 0x80, CHR 0x84], [CHR 0xE2, CHR 0x80, CHR 0x85],
      [CHR 0xE2, CHR 0x80, CHR 0x86], [CHR 0xE2, CHR 0x80, CHR 0x87],
      [CHR 0xE2, CHR 0x80, CHR 0x88], [CHR 0xE2, CHR 0x80, CHR 0x89],
      [CHR 0xE2, CHR 0x80, CHR 0x8A], [CHR 0xE2, CHR 0x80, CHR 0xA8],
      [CHR 0xE2, CHR 0x80, CHR 0xA9], [CHR 0xE2, CHR 0x80, CHR 0xAF],
      [CHR 0xE2, CHR 0x81, CHR 0x9F], [CHR 0xE3, CHR 0x80, CHR 0x80]]"

fun strip_prefix :: "string \<Rightarrow> string \<Rightarrow> string option" where
  "strip_prefix [] s = Some s"
| "strip_prefix (p # ps) [] = None"
| "strip_prefix (p # ps) (x # xs) = (if p = x then strip_prefix ps xs else None)"

fun strip_any :: "string list \<Rightarrow> string \<Rightarrow> string option" where
  "strip_any [] s = None"
| "strip_any (p # ps) s = (case strip_prefix p s of Some r \<Rightarrow> Some r | None \<Rightarrow> strip_any ps s)"

lemma strip_prefix_Some: "strip_prefix p s = Some r \<longleftrightarrow> s = p @ r"
  by (induction p s rule: strip_prefix.induct) auto

lemma strip_any_length:
  "strip_any ps s = Some r \<Longrightarrow> [] \<notin> set ps \<Longrightarrow> length r < length s"
  by (induction ps s rule: strip_any.induct)
    (auto simp: strip_prefix_Some neq_Nil_conv split: option.splits)

fun trim_start :: "nat \<Rightarrow> string list \<Rightarrow> string \<Rightarrow> string" where
  "trim_start 0 ps s = s"
| "trim_start (Suc n) ps s = (case strip_any ps s of None \<Rightarrow> s | Some r \<Rightarrow> trim_start n ps r)"

definition trim_left :: "string list \<Rightarrow> string \<Rightarrow> string" where
  "trim_left ps s = trim_start (length s) ps s"

definition trim_space :: "string \<Rightarrow> string" where
  "trim_space s = rev (trim_left (map rev white_space) (rev (trim_left white_space s)))"

text \<open>\<open>length s\<close> rounds are enough: what is left starts with no trimmed prefix.\<close>

lemma trim_start_done:
  "length s \<le> n \<Longrightarrow> [] \<notin> set ps \<Longrightarrow> strip_any ps (trim_start n ps s) = None"
proof (induction n arbitrary: s)
  case 0
  then have "\<And>p. p \<in> set ps \<Longrightarrow> strip_prefix p [] = None"
    by (metis strip_prefix.simps(2) neq_Nil_conv)
  then have "strip_any ps [] = None" by (induction ps) auto
  with 0 show ?case by simp
next
  case (Suc n)
  show ?case
  proof (cases "strip_any ps s")
    case (Some r)
    with Suc.prems strip_any_length [OF Some] have "length r \<le> n" by simp
    with Suc Some show ?thesis by simp
  qed simp
qed

lemma trim_left_done: "[] \<notin> set ps \<Longrightarrow> strip_any ps (trim_left ps s) = None"
  by (simp add: trim_left_def trim_start_done)

lemma trim_start_id: "strip_any ps s = None \<Longrightarrow> trim_start n ps s = s"
  by (cases n) simp_all

lemma trim_left_id: "strip_any ps s = None \<Longrightarrow> trim_left ps s = s"
  by (simp add: trim_left_def trim_start_id)

fun drop_while_end :: "char \<Rightarrow> string \<Rightarrow> string" where
  "drop_while_end c s = rev (dropWhile (\<lambda>x. x = c) (rev s))"

subsection \<open>Quoting (\<open>%q\<close>)\<close>

text \<open>
  \<open>strconv.Quote\<close>. Bytes from \<open>0x80\<close> on are kept: the texts the program quotes are valid UTF-8
  (JSON and YAML strings), whose printable characters Go keeps as they are.
\<close>

definition hex_digit :: "nat \<Rightarrow> char" where
  "hex_digit d = (if d < 10 then char_of (48 + d) else char_of (87 + d))"

definition quote_char :: "char \<Rightarrow> string" where
  "quote_char c =
     (let n = (of_char c :: nat) in
      if c = CHR 0x22 then [CHR 0x5C, CHR 0x22]
      else if c = CHR 0x5C then [CHR 0x5C, CHR 0x5C]
      else if n = 7 then [CHR 0x5C, CHR ''a'']
      else if n = 8 then [CHR 0x5C, CHR ''b'']
      else if n = 9 then [CHR 0x5C, CHR ''t'']
      else if n = 10 then [CHR 0x5C, CHR ''n'']
      else if n = 11 then [CHR 0x5C, CHR ''v'']
      else if n = 12 then [CHR 0x5C, CHR ''f'']
      else if n = 13 then [CHR 0x5C, CHR ''r'']
      else if n < 32 \<or> n = 127 then [CHR 0x5C, CHR ''x'', hex_digit (n div 16), hex_digit (n mod 16)]
      else [c])"

definition go_quote :: "string \<Rightarrow> string" where
  "go_quote s = [CHR 0x22] @ concat (map quote_char s) @ [CHR 0x22]"

subsection \<open>Case folding\<close>

text \<open>
  Unicode simple folding, restricted to what matters when one side is ASCII: besides the ASCII
  letters only the Kelvin sign (U+212A) and the long s (U+017F) fold to an ASCII letter. Both
  \<open>strings.EqualFold\<close> against a configured tag and the key matching of \<open>encoding/json\<close>
  compare with an ASCII text.
\<close>

definition fold_char :: "char \<Rightarrow> char" where
  "fold_char c =
     (let n = (of_char c :: nat) in if 65 \<le> n \<and> n \<le> 90 then char_of (n + 32) else c)"

fun fold_string :: "string \<Rightarrow> string" where
  "fold_string (a # b # c # s) =
     (if [a, b, c] = [CHR 0xE2, CHR 0x84, CHR 0xAA] then CHR ''k'' # fold_string s
      else if [a, b] = [CHR 0xC5, CHR 0xBF] then CHR ''s'' # fold_string (c # s)
      else fold_char a # fold_string (b # c # s))"
| "fold_string [a, b] =
     (if [a, b] = [CHR 0xC5, CHR 0xBF] then ''s'' else [fold_char a, fold_char b])"
| "fold_string [a] = [fold_char a]"
| "fold_string [] = []"

definition equal_fold :: "string \<Rightarrow> string \<Rightarrow> bool" where
  "equal_fold s t \<longleftrightarrow> fold_string s = fold_string t"

lemma equal_fold_refl [simp]: "equal_fold s s"
  by (simp add: equal_fold_def)

lemma equal_fold_sym: "equal_fold s t \<longleftrightarrow> equal_fold t s"
  by (auto simp: equal_fold_def)

lemma equal_fold_trans: "equal_fold s t \<Longrightarrow> equal_fold t u \<Longrightarrow> equal_fold s u"
  by (simp add: equal_fold_def)

end
