(* ===== verification/Go_Json.thy ===== *)
theory Go_Json
  imports Go_Text
begin

text \<open>
  What the program uses of \<open>encoding/json\<close>, at the level of documents: a message is the JSON
  value its bytes denote. \<open>wire\<close> is what arrives on a socket or is read from a file: either a
  document or bytes that are no JSON, with the decoder's complaint.

  The decoder's rules the program depends on are written out: \<open>null\<close> leaves the target at its
  zero value, a number that is no 64-bit integer is refused by an \<open>int\<close> target, unknown object
  keys are ignored, a key matches a field exactly or, failing that, up to case, and the first
  mismatch of a payload is the one reported.
\<close>

subsection \<open>Documents\<close>

text \<open>\<open>JInt\<close> is a number written without fraction and exponent, \<open>JNum\<close> any other one, by its
  literal.\<close>

datatype json =
    JNull
  | JBool bool
  | JInt int
  | JNum string
  | JStr string
  | JArr "json list"
  | JObj "(string \<times> json) list"

type_synonym wire = "string + json"

text \<open>
  A Go value of type \<open>any\<close> handed to \<open>json.Marshal\<close>: \<open>nil\<close>, a value with a JSON form, or one
  that cannot be encoded, with the encoder's error text.
\<close>

datatype go_any = AnyNil | AnyJson json | AnyBad string

subsection \<open>Type errors\<close>

definition value_name :: "json \<Rightarrow> string" where
  "value_name j =
     (case j of JNull \<Rightarrow> ''null'' | JBool _ \<Rightarrow> ''bool'' | JInt _ \<Rightarrow> ''number'' | JNum _ \<Rightarrow> ''number''
      | JStr _ \<Rightarrow> ''string'' | JArr _ \<Rightarrow> ''array'' | JObj _ \<Rightarrow> ''object'')"

text \<open>\<open>UnmarshalTypeError.Error\<close>; the context is empty or the struct field being filled.\<close>

definition type_error :: "string \<Rightarrow> string \<Rightarrow> string \<Rightarrow> string" where
  "type_error ctx val ty =
     ''json: cannot unmarshal '' @ val @
     (if ctx = [] then '' into Go value of type '' else '' into Go struct field '' @ ctx @ '' of type '')
     @ ty"

subsection \<open>Scalars and slices\<close>

definition dec_string :: "string \<Rightarrow> json \<Rightarrow> string + string option" where
  "dec_string ctx j =
     (case j of JNull \<Rightarrow> Inr None | JStr s \<Rightarrow> Inr (Some s)
      | _ \<Rightarrow> Inl (type_error ctx (value_name j) ''string''))"

definition dec_int :: "string \<Rightarrow> json \<Rightarrow> string + int option" where
  "dec_int ctx j =
     (case j of JNull \<Rightarrow> Inr None
      | JInt i \<Rightarrow> if in_int64 i then Inr (Some i)
                  else Inl (type_error ctx (''number '' @ itoa i) ''int'')
      | JNum s \<Rightarrow> Inl (type_error ctx (''number '' @ s) ''int'')
      | _ \<Rightarrow> Inl (type_error ctx (value_name j) ''int''))"

definition dec_bool :: "string \<Rightarrow> json \<Rightarrow> string + bool option" where
  "dec_bool ctx j =
     (case j of JNull \<Rightarrow> Inr None | JBool b \<Rightarrow> Inr (Some b)
      | _ \<Rightarrow> Inl (type_error ctx (value_name j) ''bool''))"

text \<open>A slice: \<open>null\<close> is the nil slice, every element is decoded, the first error is kept.\<close>

fun dec_elems :: "(json \<Rightarrow> string + 'a) \<Rightarrow> json list \<Rightarrow> string + 'a list" where
  "dec_elems f [] = Inr []"
| "dec_elems f (j # js) =
     (case f j of Inl e \<Rightarrow> Inl e
      | Inr x \<Rightarrow> (case dec_elems f js of Inl e \<Rightarrow> Inl e | Inr xs \<Rightarrow> Inr (x # xs)))"

definition dec_slice :: "string \<Rightarrow> string \<Rightarrow> (json \<Rightarrow> string + 'a) \<Rightarrow> json \<Rightarrow> string + 'a list" where
  "dec_slice ctx ty f j =
     (case j of JNull \<Rightarrow> Inr [] | JArr js \<Rightarrow> dec_elems f js
      | _ \<Rightarrow> Inl (type_error ctx (value_name j) ty))"

lemma dec_elems_Inr_length: "dec_elems f js = Inr xs \<Longrightarrow> length xs = length js"
  by (induction js arbitrary: xs) (auto split: sum.splits)

lemma dec_elems_map:
  "(\<And>x. x \<in> set xs \<Longrightarrow> f (g x) = Inr x) \<Longrightarrow> dec_elems f (map g xs) = Inr xs"
  by (induction xs) simp_all

subsection \<open>Structs\<close>

text \<open>
  A field of a struct target: its JSON name and how a member's value updates the struct. Each
  member of the object is matched to a field, and decoding goes on after a mismatch, keeping
  the first error.
\<close>

type_synonym 'r field = "string \<times> ('r \<Rightarrow> json \<Rightarrow> string + 'r)"

definition resolve_field :: "'r field list \<Rightarrow> string \<Rightarrow> 'r field option" where
  "resolve_field fs k =
     (case List.find (\<lambda>f. fst f = k) fs of
        Some f \<Rightarrow> Some f
      | None \<Rightarrow> List.find (\<lambda>f. equal_fold k (fst f)) fs)"

fun dec_members ::
  "'r field list \<Rightarrow> (string \<times> json) list \<Rightarrow> 'r \<Rightarrow> string option \<Rightarrow> 'r \<times> string option" where
  "dec_members fs [] r e = (r, e)"
| "dec_members fs ((k, v) # ms) r e =
     (case resolve_field fs k of
        None \<Rightarrow> dec_members fs ms r e
      | Some (_, upd) \<Rightarrow>
          (case upd r v of
             Inl x \<Rightarrow> dec_members fs ms r (if e = None then Some x else e)
           | Inr r' \<Rightarrow> dec_members fs ms r' e))"

definition dec_struct ::
  "string \<Rightarrow> string \<Rightarrow> 'r field list \<Rightarrow> 'r \<Rightarrow> json \<Rightarrow> string + 'r" where
  "dec_struct ctx ty fs r j =
     (case j of
        JNull \<Rightarrow> Inr r
      | JObj ms \<Rightarrow> (case dec_members fs ms r None of (r', None) \<Rightarrow> Inr r' | (_, Some e) \<Rightarrow> Inl e)
      | _ \<Rightarrow> Inl (type_error ctx (value_name j) ty))"

text \<open>The setters of string, \<open>int\<close>, \<open>bool\<close> and \<open>*int\<close> fields.\<close>

definition str_field :: "string \<Rightarrow> string \<Rightarrow> (string \<Rightarrow> 'r \<Rightarrow> 'r) \<Rightarrow> 'r field" where
  "str_field st n upd =
     (n, \<lambda>r v. case dec_string (st @ ''.'' @ n) v of
            Inl e \<Rightarrow> Inl e | Inr None \<Rightarrow> Inr r | Inr (Some s) \<Rightarrow> Inr (upd s r))"

definition int_field :: "string \<Rightarrow> string \<Rightarrow> (int \<Rightarrow> 'r \<Rightarrow> 'r) \<Rightarrow> 'r field" where
  "int_field st n upd =
     (n, \<lambda>r v. case dec_int (st @ ''.'' @ n) v of
            Inl e \<Rightarrow> Inl e | Inr None \<Rightarrow> Inr r | Inr (Some i) \<Rightarrow> Inr (upd i r))"

definition bool_field :: "string \<Rightarrow> string \<Rightarrow> (bool \<Rightarrow> 'r \<Rightarrow> 'r) \<Rightarrow> 'r field" where
  "bool_field st n upd =
     (n, \<lambda>r v. case dec_bool (st @ ''.'' @ n) v of
            Inl e \<Rightarrow> Inl e | Inr None \<Rightarrow> Inr r | Inr (Some b) \<Rightarrow> Inr (upd b r))"

definition int_ptr_field :: "string \<Rightarrow> string \<Rightarrow> (int option \<Rightarrow> 'r \<Rightarrow> 'r) \<Rightarrow> 'r field" where
  "int_ptr_field st n upd =
     (n, \<lambda>r v. case dec_int (st @ ''.'' @ n) v of Inl e \<Rightarrow> Inl e | Inr i \<Rightarrow> Inr (upd i r))"

text \<open>
  Nested targets: a struct, a pointer to a struct, slices. The type error inside a nested struct
  names the innermost struct type and the path of fields from the outermost one, which
  \<open>nested\<close> builds from the enclosing context.
\<close>

definition nested :: "string \<Rightarrow> string \<Rightarrow> string \<Rightarrow> string" where
  "nested st S n = S @ dropWhile (\<lambda>c. c \<noteq> CHR ''.'') st @ ''.'' @ n"

definition struct_field ::
  "string \<Rightarrow> string \<Rightarrow> string \<Rightarrow> 'v field list \<Rightarrow> ('r \<Rightarrow> 'v) \<Rightarrow> ('v \<Rightarrow> 'r \<Rightarrow> 'r) \<Rightarrow> 'r field" where
  "struct_field st n ty fs get upd =
     (n, \<lambda>r v. case dec_struct (st @ ''.'' @ n) ty fs (get r) v of Inl e \<Rightarrow> Inl e | Inr x \<Rightarrow> Inr (upd x r))"

definition ptr_field ::
  "string \<Rightarrow> string \<Rightarrow> string \<Rightarrow> 'v field list \<Rightarrow> 'v \<Rightarrow> ('r \<Rightarrow> 'v option) \<Rightarrow> ('v option \<Rightarrow> 'r \<Rightarrow> 'r) \<Rightarrow> 'r field" where
  "ptr_field st n ty fs z get upd =
     (n, \<lambda>r v. if v = JNull then Inr (upd None r)
            else case dec_struct (st @ ''.'' @ n) ty fs (case get r of None \<Rightarrow> z | Some x \<Rightarrow> x) v of
                   Inl e \<Rightarrow> Inl e | Inr x \<Rightarrow> Inr (upd (Some x) r))"

definition strings_field :: "string \<Rightarrow> string \<Rightarrow> (string list \<Rightarrow> 'r \<Rightarrow> 'r) \<Rightarrow> 'r field" where
  "strings_field st n upd =
     (n, \<lambda>r v. case dec_slice (st @ ''.'' @ n) ''[]string''
                      (\<lambda>j. case dec_string (st @ ''.'' @ n) j of
                             Inl e \<Rightarrow> Inl e | Inr None \<Rightarrow> Inr [] | Inr (Some s) \<Rightarrow> Inr s) v of
                 Inl e \<Rightarrow> Inl e | Inr x \<Rightarrow> Inr (upd x r))"

definition structs_field ::
  "string \<Rightarrow> string \<Rightarrow> string \<Rightarrow> 'v field list \<Rightarrow> 'v \<Rightarrow> ('v list \<Rightarrow> 'r \<Rightarrow> 'r) \<Rightarrow> 'r field" where
  "structs_field st n ty fs z upd =
     (n, \<lambda>r v. case dec_slice (st @ ''.'' @ n) (''[]'' @ ty) (dec_struct (st @ ''.'' @ n) ty fs z) v of
                 Inl e \<Rightarrow> Inl e | Inr x \<Rightarrow> Inr (upd x r))"

lemmas field_defs = str_field_def int_field_def bool_field_def int_ptr_field_def
  strings_field_def struct_field_def ptr_field_def structs_field_def

lemmas dec_scalar_defs = dec_string_def dec_int_def dec_bool_def

text \<open>Members the struct does not know are ignored, wherever they stand.\<close>

lemma dec_members_unknown:
  assumes "resolve_field fs k = None"
  shows "dec_members fs (ms @ (k, v) # ms') r e = dec_members fs (ms @ ms') r e"
  using assms by (induction fs ms r e rule: dec_members.induct) (auto split: option.splits sum.splits)

lemma resolve_field_exact:
  assumes "f \<in> set fs" "distinct (map fst fs)"
  shows "resolve_field fs (fst f) = Some f"
proof -
  have "List.find (\<lambda>g. fst g = fst f) fs = Some f"
    using assms by (induction fs) (auto simp: image_iff)
  then show ?thesis by (simp add: resolve_field_def)
qed

subsection \<open>Encoding\<close>

text \<open>Members with \<open>omitempty\<close> are left out when they hold the zero value.\<close>

definition enc_str :: "string \<Rightarrow> string \<Rightarrow> (string \<times> json) list" where
  "enc_str n s = [(n, JStr s)]"

definition enc_str_omit :: "string \<Rightarrow> string \<Rightarrow> (string \<times> json) list" where
  "enc_str_omit n s = (if s = [] then [] else [(n, JStr s)])"

definition enc_int :: "string \<Rightarrow> int \<Rightarrow> (string \<times> json) list" where
  "enc_int n i = [(n, JInt i)]"

definition enc_int_omit :: "string \<Rightarrow> int \<Rightarrow> (string \<times> json) list" where
  "enc_int_omit n i = (if i = 0 then [] else [(n, JInt i)])"

definition enc_int_ptr_omit :: "string \<Rightarrow> int option \<Rightarrow> (string \<times> json) list" where
  "enc_int_ptr_omit n i = (case i of None \<Rightarrow> [] | Some k \<Rightarrow> [(n, JInt k)])"

definition enc_bool :: "string \<Rightarrow> bool \<Rightarrow> (string \<times> json) list" where
  "enc_bool n b = [(n, JBool b)]"

definition enc_strings_omit :: "string \<Rightarrow> string list \<Rightarrow> (string \<times> json) list" where
  "enc_strings_omit n xs = (if xs = [] then [] else [(n, JArr (map JStr xs))])"

definition enc_structs :: "string \<Rightarrow> ('v \<Rightarrow> json) \<Rightarrow> 'v list \<Rightarrow> (string \<times> json) list" where
  "enc_structs n f xs = [(n, JArr (map f xs))]"

definition enc_structs_omit :: "string \<Rightarrow> ('v \<Rightarrow> json) \<Rightarrow> 'v list \<Rightarrow> (string \<times> json) list" where
  "enc_structs_omit n f xs = (if xs = [] then [] else [(n, JArr (map f xs))])"

definition enc_struct :: "string \<Rightarrow> ('v \<Rightarrow> json) \<Rightarrow> 'v \<Rightarrow> (string \<times> json) list" where
  "enc_struct n f x = [(n, f x)]"

definition enc_ptr_omit :: "string \<Rightarrow> ('v \<Rightarrow> json) \<Rightarrow> 'v option \<Rightarrow> (string \<times> json) list" where
  "enc_ptr_omit n f x = (case x of None \<Rightarrow> [] | Some y \<Rightarrow> [(n, f y)])"

lemmas enc_defs = enc_str_def enc_str_omit_def enc_int_def enc_int_ptr_omit_def

subsection \<open>Decoding what was encoded\<close>

text \<open>
  One lemma per kind of member: decoding the encoded member sets the field, whatever the
  decoder does with the rest of the object. An omitted member needs the target to hold the zero
  value already.
\<close>

named_theorems dec_roundtrip \<open>decoding an encoded member\<close>

lemma dec_members_append [dec_roundtrip]:
  "dec_members fs (ms @ ms') r e = (case dec_members fs ms r e of (r', e') \<Rightarrow> dec_members fs ms' r' e')"
  by (induction fs ms r e rule: dec_members.induct) (simp_all split: option.split sum.split)

lemma dec_struct_JObj:
  "dec_members fs ms r None = (r', None) \<Longrightarrow> dec_struct ctx ty fs r (JObj ms) = Inr r'"
  by (simp add: dec_struct_def)

lemma dec_enc_str [dec_roundtrip]:
  "resolve_field fs n = Some (str_field st n upd) \<Longrightarrow> dec_members fs (enc_str n s) r e = (upd s r, e)"
  by (simp add: enc_str_def str_field_def dec_string_def)

lemma dec_enc_str_omit [dec_roundtrip]:
  "resolve_field fs n = Some (str_field st n upd) \<Longrightarrow> upd [] r = r \<Longrightarrow>
   dec_members fs (enc_str_omit n s) r e = (upd s r, e)"
  by (simp add: enc_str_omit_def str_field_def dec_string_def)

lemma dec_enc_int [dec_roundtrip]:
  "resolve_field fs n = Some (int_field st n upd) \<Longrightarrow> in_int64 i \<Longrightarrow>
   dec_members fs (enc_int n i) r e = (upd i r, e)"
  by (simp add: enc_int_def int_field_def dec_int_def)

lemma dec_enc_int_omit [dec_roundtrip]:
  "resolve_field fs n = Some (int_field st n upd) \<Longrightarrow> upd 0 r = r \<Longrightarrow> in_int64 i \<Longrightarrow>
   dec_members fs (enc_int_omit n i) r e = (upd i r, e)"
  by (simp add: enc_int_omit_def int_field_def dec_int_def)

lemma dec_enc_bool [dec_roundtrip]:
  "resolve_field fs n = Some (bool_field st n upd) \<Longrightarrow> dec_members fs (enc_bool n b) r e = (upd b r, e)"
  by (simp add: enc_bool_def bool_field_def dec_bool_def)

lemma dec_enc_int_ptr [dec_roundtrip]:
  "resolve_field fs n = Some (int_ptr_field st n upd) \<Longrightarrow> upd None r = r \<Longrightarrow> pred_option in_int64 i \<Longrightarrow>
   dec_members fs (enc_int_ptr_omit n i) r e = (upd i r, e)"
  by (cases i) (simp_all add: enc_int_ptr_omit_def int_ptr_field_def dec_int_def)

lemma dec_enc_strings [dec_roundtrip]:
  "resolve_field fs n = Some (strings_field st n upd) \<Longrightarrow> upd [] r = r \<Longrightarrow>
   dec_members fs (enc_strings_omit n xs) r e = (upd xs r, e)"
  by (simp add: enc_strings_omit_def strings_field_def dec_slice_def dec_string_def dec_elems_map)

lemma dec_enc_structs [dec_roundtrip]:
  "resolve_field fs n = Some (structs_field st n ty fs' z upd) \<Longrightarrow>
   (\<And>x. x \<in> set xs \<Longrightarrow> dec_struct (st @ ''.'' @ n) ty fs' z (f x) = Inr x) \<Longrightarrow>
   dec_members fs (enc_structs n f xs) r e = (upd xs r, e)"
  by (simp add: enc_structs_def structs_field_def dec_slice_def dec_elems_map)

lemma dec_enc_structs_omit [dec_roundtrip]:
  "resolve_field fs n = Some (structs_field st n ty fs' z upd) \<Longrightarrow> upd [] r = r \<Longrightarrow>
   (\<And>x. x \<in> set xs \<Longrightarrow> dec_struct (st @ ''.'' @ n) ty fs' z (f x) = Inr x) \<Longrightarrow>
   dec_members fs (enc_structs_omit n f xs) r e = (upd xs r, e)"
  by (simp add: enc_structs_omit_def structs_field_def dec_slice_def dec_elems_map)

lemma dec_enc_struct [dec_roundtrip]:
  "resolve_field fs n = Some (struct_field st n ty fs' get upd) \<Longrightarrow>
   dec_struct (st @ ''.'' @ n) ty fs' (get r) (f x) = Inr x \<Longrightarrow>
   dec_members fs (enc_struct n f x) r e = (upd x r, e)"
  by (simp add: enc_struct_def struct_field_def)

lemma dec_enc_ptr:
  "resolve_field fs n = Some (ptr_field st n ty fs' z get upd) \<Longrightarrow> get r = None \<Longrightarrow> upd None r = r \<Longrightarrow>
   (\<And>y. x = Some y \<Longrightarrow> f y \<noteq> JNull \<and> dec_struct (st @ ''.'' @ n) ty fs' z (f y) = Inr y) \<Longrightarrow>
   dec_members fs (enc_ptr_omit n f x) r e = (upd x r, e)"
  by (cases x) (simp_all add: enc_ptr_omit_def ptr_field_def)

text \<open>The name of a field.\<close>

lemma field_names [simp]:
  "fst (str_field st n u1) = n" "fst (int_field st n u2) = n" "fst (bool_field st n u3) = n"
  "fst (int_ptr_field st n u4) = n" "fst (strings_field st n u5) = n"
  "fst (struct_field st n ty fs get u6) = n" "fst (ptr_field st n ty fs z get' u7) = n"
  "fst (structs_field st n ty fs z u8) = n"
  by (simp_all add: str_field_def int_field_def bool_field_def int_ptr_field_def strings_field_def
      struct_field_def ptr_field_def structs_field_def)

end
