(* ===== verification/Go_Time.thy ===== *)
theory Go_Time
  imports Go_Text
begin

text \<open>
  The parts of Go's \<open>time\<close> package the program uses: \<open>time.Time\<close> with its zero value, \<open>UTC\<close>,
  and the RFC 3339 layouts, printed by \<open>Format\<close> and \<open>MarshalJSON\<close> and read by \<open>time.Parse\<close>.
  The main results: the calendar computed from a day number leads back to that day number, and
  parsing a printed UTC time gives the time back.
\<close>

subsection \<open>Instants\<close>

text \<open>
  A \<open>time.Time\<close> is an instant (nanoseconds since 0001-01-01T00:00:00 UTC, the zero time), a
  location, of which only the offset from UTC in seconds matters here, and the optional
  monotonic clock reading that \<open>time.Now\<close> attaches.
\<close>

datatype go_time = Time (nanos: int) (zone_offset: int) (mono: "int option")

definition zero_time :: go_time where
  "zero_time = Time 0 0 None"

definition is_zero :: "go_time \<Rightarrow> bool" where
  "is_zero t \<longleftrightarrow> nanos t = 0"

text \<open>\<open>t.UTC()\<close>: the same instant, in UTC, without the monotonic reading.\<close>

definition utc :: "go_time \<Rightarrow> go_time" where
  "utc t = Time (nanos t) 0 None"

lemma utc_idem [simp]: "utc (utc t) = utc t"
  by (simp add: utc_def)

lemma nanos_utc [simp]: "nanos (utc t) = nanos t"
  by (simp add: utc_def)

subsection \<open>The calendar\<close>

definition leap :: "int \<Rightarrow> bool" where
  "leap y \<longleftrightarrow> y mod 4 = 0 \<and> (y mod 100 \<noteq> 0 \<or> y mod 400 = 0)"

definition month_lengths :: "int \<Rightarrow> int list" where
  "month_lengths y = [31, if leap y then 29 else 28, 31, 30, 31, 30, 31, 31, 30, 31, 30, 31]"

text \<open>Days from 0001-01-01 to the first day of a year.\<close>

definition days_before_year :: "int \<Rightarrow> int" where
  "days_before_year y =
     (let p = y - 1 in 365 * p + p div 4 - p div 100 + p div 400)"

text \<open>The year that holds a day number, and the day within that year, by 400-, 100-, 4- and
  1-year cycles.\<close>

definition year_split :: "int \<Rightarrow> int \<times> int" where
  "year_split n =
     (let a = n div 146097; r = n mod 146097;
          b = min 3 (r div 36524); r = r - 36524 * b;
          c = r div 1461; r = r mod 1461;
          d = min 3 (r div 365)
      in (400 * a + 100 * b + 4 * c + d + 1, r - 365 * d))"

fun month_split :: "int list \<Rightarrow> int \<Rightarrow> int \<Rightarrow> int \<times> int" where
  "month_split [] m d = (m, d)"
| "month_split (l # ls) m d = (if d < l \<or> ls = [] then (m, d) else month_split ls (m + 1) (d - l))"

definition days_before_month :: "int \<Rightarrow> int \<Rightarrow> int" where
  "days_before_month y m = sum_list (take (nat (m - 1)) (month_lengths y))"

text \<open>The cycle counts of a day number, with their bounds.\<close>

lemma year_split_cycles:
  obtains a b c d r where
    "year_split n = (400 * a + 100 * b + 4 * c + d + 1, r - 365 * d)"
    and "n = 146097 * a + 36524 * b + 1461 * c + r"
    and "0 \<le> b" "b \<le> 3" "0 \<le> c" "c \<le> 24" "0 \<le> d" "d \<le> 3" "0 \<le> r" "r < 1461"
    and "d = min 3 (r div 365)" and "b < 3 \<longrightarrow> 1461 * c + r < 36524"
proof -
  define a r0 where "a = n div 146097" and "r0 = n mod 146097"
  define b where "b = min 3 (r0 div 36524)"
  define r1 where "r1 = r0 - 36524 * b"
  define c where "c = r1 div 1461"
  define r where "r = r1 mod 1461"
  define d where "d = min 3 (r div 365)"
  have n: "n = 146097 * a + r0" and r0: "0 \<le> r0" "r0 < 146097"
    by (simp_all add: a_def r0_def)
  have b: "0 \<le> b" "b \<le> 3" using r0 by (simp_all add: b_def)
  have r1: "0 \<le> r1" "r1 \<le> 36524" "b < 3 \<longrightarrow> r1 < 36524"
    using r0 unfolding r1_def b_def by linarith+
  have c: "0 \<le> c" "c \<le> 24" using r1 by (simp_all add: c_def)
  have r: "0 \<le> r" "r < 1461" "r1 = 1461 * c + r" by (simp_all add: c_def r_def)
  have d: "0 \<le> d" "d \<le> 3" using r by (simp_all add: d_def)
  have "year_split n = (400 * a + 100 * b + 4 * c + d + 1, r - 365 * d)"
    unfolding year_split_def Let_def d_def r_def c_def r1_def b_def r0_def a_def ..
  moreover have "n = 146097 * a + 36524 * b + 1461 * c + r"
    using n r(3) r1_def by linarith
  ultimately show thesis
    using that b c d r r1(3) d_def by metis
qed

lemma year_split_back:
  assumes "year_split n = (y, d)"
  shows "days_before_year y + d = n"
proof (rule year_split_cycles [of n])
  fix a b c e r :: int
  let ?p = "400 * a + 100 * b + 4 * c + e"
  assume ys: "year_split n = (?p + 1, r - 365 * e)"
    and n: "n = 146097 * a + 36524 * b + 1461 * c + r"
    and bnd: "0 \<le> b" "b \<le> 3" "0 \<le> c" "c \<le> 24" "0 \<le> e" "e \<le> 3"
  have "?p div 4 = 100 * a + 25 * b + c" "?p div 100 = 4 * a + b" "?p div 400 = a"
    using bnd by linarith+
  moreover have "y = ?p + 1" "d = r - 365 * e" using ys assms by auto
  ultimately show ?thesis using n by (simp add: days_before_year_def Let_def)
qed

lemma year_split_day:
  assumes "year_split n = (y, d)"
  shows "0 \<le> d \<and> d < (if leap y then 366 else 365)"
proof (rule year_split_cycles [of n])
  fix a b c e r :: int
  let ?y = "400 * a + 100 * b + 4 * c + e + 1"
  assume ys: "year_split n = (?y, r - 365 * e)"
    and bnd: "0 \<le> b" "b \<le> 3" "0 \<le> c" "c \<le> 24" "0 \<le> e" "e \<le> 3" "0 \<le> r" "r < 1461"
    and e: "e = min 3 (r div 365)" and b: "b < 3 \<longrightarrow> 1461 * c + r < 36524"
  have y: "y = ?y" and d: "d = r - 365 * e" using ys assms by auto
  have d366: "0 \<le> d \<and> d < 366" and full: "d = 365 \<longrightarrow> e = 3 \<and> r = 1460"
    using e bnd unfolding d by linarith+
  have "leap y" if "d = 365"
  proof -
    from that full have er: "e = 3" "r = 1460" by simp_all
    then have "y mod 4 = 0" unfolding y by presburger
    moreover have "y mod 100 \<noteq> 0 \<or> y mod 400 = 0"
    proof (cases "c = 24")
      case True
      with b er bnd have "b = 3" by linarith
      with True er show ?thesis unfolding y by presburger
    next
      case False
      with bnd have "c \<le> 23" by simp
      with er bnd have "y = 100 * (4 * a + b) + (4 * c + 4)" "0 < 4 * c + 4" "4 * c + 4 < 100"
        unfolding y by simp_all
      then have "y mod 100 = 4 * c + 4"
        by (simp only: mod_mult_self4 mod_pos_pos_trivial)
      with \<open>0 < 4 * c + 4\<close> show ?thesis by linarith
    qed
    ultimately show ?thesis by (simp add: leap_def)
  qed
  with d366 show ?thesis by (cases "d = 365") auto
qed

lemma month_split_bounds:
  assumes "ls \<noteq> []" "0 \<le> d" "d < sum_list ls" "\<forall>l \<in> set ls. 0 < l" "month_split ls m d = (m', d')"
  shows "m \<le> m' \<and> m' < m + int (length ls) \<and> 0 \<le> d' \<and> d' < ls ! nat (m' - m)
    \<and> sum_list (take (nat (m' - m)) ls) + d' = d"
  using assms
proof (induction ls m d rule: month_split.induct)
  case (2 l ls m d)
  show ?case
  proof (cases "d < l \<or> ls = []")
    case True
    with 2 show ?thesis by auto
  next
    case False
    with 2 have IH: "m + 1 \<le> m' \<and> m' < m + 1 + int (length ls) \<and> 0 \<le> d'
      \<and> d' < ls ! nat (m' - (m + 1)) \<and> sum_list (take (nat (m' - (m + 1))) ls) + d' = d - l"
      by auto
    then have "nat (m' - m) = Suc (nat (m' - (m + 1)))" by linarith
    with IH show ?thesis by simp
  qed
qed simp

lemma sum_month_lengths: "sum_list (month_lengths y) = (if leap y then 366 else 365)"
  by (simp add: month_lengths_def)

lemma month_lengths_wf:
  "month_lengths y \<noteq> []" "\<forall>l \<in> set (month_lengths y). 0 < l" "length (month_lengths y) = 12"
  by (simp_all add: month_lengths_def)

lemma month_length_le: "1 \<le> m \<Longrightarrow> m \<le> 12 \<Longrightarrow> month_lengths y ! nat (m - 1) \<le> 31"
proof -
  assume "1 \<le> m" "m \<le> 12"
  then have "month_lengths y ! nat (m - 1) \<in> set (month_lengths y)"
    by (simp add: month_lengths_wf(3))
  then show ?thesis by (auto simp: month_lengths_def split: if_splits)
qed

subsection \<open>Civil date and time of an instant\<close>

definition second_ns :: int where
  "second_ns = 1000000000"

text \<open>The calendar fields Go prints: year, month, day, hour, minute, second, nanosecond.\<close>

definition civil :: "go_time \<Rightarrow> int \<times> int \<times> int \<times> int \<times> int \<times> int \<times> int" where
  "civil t =
     (let n = nanos t + zone_offset t * second_ns;
          s = n div second_ns;
          (y, yd) = year_split (s div 86400);
          (m, d) = month_split (month_lengths y) 1 yd;
          r = s mod 86400
      in (y, m, d + 1, r div 3600, r mod 3600 div 60, r mod 60, n mod second_ns))"

text \<open>\<open>time.Date\<close> for fields in range, in UTC: the instant in nanoseconds.\<close>

definition date_nanos :: "int \<Rightarrow> int \<Rightarrow> int \<Rightarrow> int \<Rightarrow> int \<Rightarrow> int \<Rightarrow> int \<Rightarrow> int" where
  "date_nanos y m d hh mm ss ns =
     (((days_before_year y + days_before_month y m + (d - 1)) * 86400
        + hh * 3600 + mm * 60 + ss) * second_ns + ns)"

lemma hms_split: "(r::int) = r div 3600 * 3600 + r mod 3600 div 60 * 60 + r mod 60"
proof -
  have "r mod 3600 mod 60 = r mod 60"
    by (rule mod_mod_cancel) simp
  moreover have "r mod 3600 = r mod 3600 div 60 * 60 + r mod 3600 mod 60" by simp
  moreover have "r = r div 3600 * 3600 + r mod 3600" by simp
  ultimately show ?thesis by linarith
qed

lemma civil_utc:
  assumes "civil t = (y, m, d, hh, mm, ss, ns)" "zone_offset t = 0"
  shows "date_nanos y m d hh mm ss ns = nanos t"
    and "1 \<le> m" "m \<le> 12" "1 \<le> d" "d \<le> month_lengths y ! nat (m - 1)"
    and "0 \<le> hh" "hh < 24" "0 \<le> mm" "mm < 60" "0 \<le> ss" "ss < 60" "0 \<le> ns" "ns < second_ns"
proof -
  let ?s = "nanos t div second_ns"
  obtain yd d0 where ys: "year_split (?s div 86400) = (y, yd)"
    and ms: "month_split (month_lengths y) 1 yd = (m, d0)"
    and f: "d = d0 + 1" "hh = ?s mod 86400 div 3600" "mm = ?s mod 86400 mod 3600 div 60"
      "ss = ?s mod 86400 mod 60" "ns = nanos t mod second_ns"
    using assms by (auto simp: civil_def Let_def split: prod.splits)
  have "0 \<le> yd" "yd < sum_list (month_lengths y)"
    using year_split_day [OF ys] by (simp_all add: sum_month_lengths split: if_splits)
  then have mb: "1 \<le> m" "m < 13" "0 \<le> d0" "d0 < month_lengths y ! nat (m - 1)"
      "days_before_month y m + d0 = yd"
    using month_split_bounds [OF month_lengths_wf(1) _ _ month_lengths_wf(2) ms]
    by (auto simp: days_before_month_def month_lengths_wf(3))
  have "?s div 86400 = days_before_year y + days_before_month y m + (d - 1)"
    using year_split_back [OF ys] mb(5) f(1) by simp
  moreover have "?s mod 86400 = hh * 3600 + mm * 60 + ss"
    unfolding f by (rule hms_split)
  ultimately have "date_nanos y m d hh mm ss ns =
      (?s div 86400 * 86400 + ?s mod 86400) * second_ns + nanos t mod second_ns"
    by (simp add: date_nanos_def f(5))
  then show "date_nanos y m d hh mm ss ns = nanos t"
    by simp
  have r: "0 \<le> ?s mod 86400" "?s mod 86400 < 86400" by simp_all
  show "1 \<le> m" "m \<le> 12" "1 \<le> d" "d \<le> month_lengths y ! nat (m - 1)"
    using mb f(1) by simp_all
  show "0 \<le> hh" "hh < 24" "0 \<le> mm" "mm < 60" "0 \<le> ss" "ss < 60"
    unfolding f using r by linarith+
  show "0 \<le> ns" "ns < second_ns" by (simp_all add: f(5) second_ns_def)
qed

subsection \<open>RFC 3339\<close>

definition pad :: "nat \<Rightarrow> nat \<Rightarrow> string" where
  "pad w n = replicate (w - length (dec n)) (CHR ''0'') @ dec n"

definition pad_int :: "nat \<Rightarrow> int \<Rightarrow> string" where
  "pad_int w i = (if i < 0 then CHR ''-'' # pad w (nat (- i)) else pad w (nat i))"

definition frac_digits :: "int \<Rightarrow> string" where
  "frac_digits ns =
     (if ns = 0 then []
      else CHR ''.'' # rev (dropWhile (\<lambda>c. c = CHR ''0'') (rev (pad 9 (nat ns)))))"

definition format_zone :: "int \<Rightarrow> string" where
  "format_zone off =
     (if off = 0 then ''Z''
      else let z = \<bar>off\<bar> div 60
           in (if off < 0 then CHR ''-'' else CHR ''+'') #
                pad_int 2 (z div 60) @ '':'' @ pad_int 2 (z mod 60))"

text \<open>
  \<open>t.Format\<close> with the layout \<open>time.RFC3339\<close> (no fraction) or \<open>time.RFC3339Nano\<close> (the fraction
  without trailing zeros, as \<open>MarshalJSON\<close> writes it).
\<close>

definition format_rfc3339 :: "bool \<Rightarrow> go_time \<Rightarrow> string" where
  "format_rfc3339 nano t =
     (let (y, m, d, hh, mm, ss, ns) = civil t
      in pad_int 4 y @ ''-'' @ pad_int 2 m @ ''-'' @ pad_int 2 d @ ''T'' @
         pad_int 2 hh @ '':'' @ pad_int 2 mm @ '':'' @ pad_int 2 ss @
         (if nano then frac_digits ns else []) @ format_zone (zone_offset t))"

fun get_two :: "string \<Rightarrow> (int \<times> string) option" where
  "get_two (a # b # s) =
     (if is_digit a \<and> is_digit b then Some (int (10 * char_digit a + char_digit b), s) else None)"
| "get_two s = None"

text \<open>The hour may have one digit.\<close>

fun get_hour :: "string \<Rightarrow> (int \<times> string) option" where
  "get_hour (a # b # s) =
     (if \<not> is_digit a then None
      else if is_digit b then Some (int (10 * char_digit a + char_digit b), s)
      else Some (int (char_digit a), b # s))"
| "get_hour [a] = (if is_digit a then Some (int (char_digit a), []) else None)"
| "get_hour [] = None"

fun get_year :: "string \<Rightarrow> (int \<times> string) option" where
  "get_year (a # b # c # d # s) =
     (if list_all is_digit [a, b, c, d] then Some (int (digits_value [a, b, c, d]), s) else None)"
| "get_year s = None"

fun get_lit :: "char \<Rightarrow> string \<Rightarrow> string option" where
  "get_lit c [] = None"
| "get_lit c (x # s) = (if x = c then Some s else None)"

text \<open>A fraction may follow the seconds, after a period or a comma; digits past the ninth are
  ignored.\<close>

definition get_frac :: "string \<Rightarrow> int \<times> string" where
  "get_frac s =
     (case s of
        c # x # r \<Rightarrow>
          if (c = CHR ''.'' \<or> c = CHR '','') \<and> is_digit x then
            (let ds = takeWhile is_digit (x # r); nine = take 9 ds
             in (int (digits_value nine) * 10 ^ (9 - length nine), drop (length ds) (x # r)))
          else (0, s)
      | _ \<Rightarrow> (0, s))"

fun get_zone :: "string \<Rightarrow> (int \<times> string) option" where
  "get_zone [] = None"
| "get_zone (c # s) =
     (if c = CHR ''Z'' then Some (0, s)
      else if c \<noteq> CHR ''+'' \<and> c \<noteq> CHR ''-'' then None
      else Option.bind (get_two s) (\<lambda>(hh, s).
           Option.bind (get_lit CHR '':'' s) (\<lambda>s.
           Option.bind (get_two s) (\<lambda>(mm, s).
             if 24 < hh \<or> 60 < mm then None
             else Some ((if c = CHR ''-'' then -1 else 1) * (hh * 60 + mm) * 60, s)))))"

text \<open>\<open>time.Parse(time.RFC3339, s)\<close>; \<^term>\<open>None\<close> is its error.\<close>

definition parse_rfc3339 :: "string \<Rightarrow> go_time option" where
  "parse_rfc3339 s =
     Option.bind (get_year s) (\<lambda>(y, s).
     Option.bind (get_lit CHR ''-'' s) (\<lambda>s.
     Option.bind (get_two s) (\<lambda>(m, s).
     Option.bind (get_lit CHR ''-'' s) (\<lambda>s.
     Option.bind (get_two s) (\<lambda>(d, s).
     Option.bind (get_lit CHR ''T'' s) (\<lambda>s.
     Option.bind (get_hour s) (\<lambda>(hh, s).
     Option.bind (get_lit CHR '':'' s) (\<lambda>s.
     Option.bind (get_two s) (\<lambda>(mm, s).
     Option.bind (get_lit CHR '':'' s) (\<lambda>s.
     Option.bind (get_two s) (\<lambda>(ss, s).
     (let (ns, s) = get_frac s in
     Option.bind (get_zone s) (\<lambda>(off, s).
       if s \<noteq> [] \<or> m < 1 \<or> 12 < m \<or> 24 \<le> hh \<or> 60 \<le> mm \<or> 60 \<le> ss
          \<or> d < 1 \<or> month_lengths y ! nat (m - 1) < d then None
       else Some (Time (date_nanos y m d hh mm ss ns - off * second_ns) off None))))))))))))))"

subsection \<open>Parsing inverts printing\<close>

lemma dec_small: "n < 10 \<Longrightarrow> dec n = [digit_char n]"
  by (subst dec.simps) simp

lemma dec_big: "10 \<le> n \<Longrightarrow> dec n = dec (n div 10) @ [digit_char (n mod 10)]"
  by (subst dec.simps) simp

lemma digit_char_0 [simp]: "digit_char 0 = CHR ''0''"
  by code_simp

lemma pad_Suc: "0 < w \<Longrightarrow> pad (Suc w) n = pad w (n div 10) @ [digit_char (n mod 10)]"
proof (cases "n < 10")
  case True
  assume "0 < w"
  with True show ?thesis
    by (cases w) (simp_all add: pad_def dec_small replicate_append_same)
next
  case False
  then show ?thesis by (simp add: pad_def dec_big [of n])
qed

lemma pad_1: "n < 10 \<Longrightarrow> pad 1 n = [digit_char n]"
  by (simp add: pad_def dec_small)

lemma length_pad: "0 < w \<Longrightarrow> n < 10 ^ w \<Longrightarrow> length (pad w n) = w"
proof (induction w arbitrary: n)
  case (Suc w)
  show ?case
  proof (cases "w = 0")
    case True
    with Suc.prems show ?thesis using pad_1 [of n] by simp
  next
    case False
    with Suc have "length (pad w (n div 10)) = w" by simp
    with False show ?thesis by (simp add: pad_Suc)
  qed
qed simp

lemma pad_digits: "list_all is_digit (pad w n)"
  using dec_digits [of n] by (auto simp: pad_def is_digit_def list_all_iff)

lemma digits_value_zeros: "digits_value (replicate k CHR ''0'' @ s) = digits_value s"
proof -
  have "foldl (\<lambda>n c. 10 * n + char_digit c) 0 (replicate k CHR ''0'') = 0"
    by (induction k) (simp_all add: char_digit_def)
  then show ?thesis by (simp add: digits_value_def)
qed

lemma digits_value_pad [simp]: "digits_value (pad w n) = n"
  by (simp add: pad_def digits_value_zeros digits_value_dec)

lemma get_two_pad:
  assumes "0 \<le> i" "i < 100"
  shows "get_two (pad_int 2 i @ s) = Some (i, s)" "get_hour (pad_int 2 i @ s) = Some (i, s)"
proof -
  obtain n where i: "i = int n" and n: "n < 100" using assms by (cases i) auto
  then have "n div 10 < 10" by simp
  then have "pad 2 n = [digit_char (n div 10), digit_char (n mod 10)]"
    using pad_Suc [of 1 n] pad_1 [of "n div 10"] by (simp add: numeral_2_eq_2)
  with i \<open>n div 10 < 10\<close>
  show "get_two (pad_int 2 i @ s) = Some (i, s)" "get_hour (pad_int 2 i @ s) = Some (i, s)"
    by (simp_all add: pad_int_def)
qed

lemma get_year_pad:
  assumes "0 \<le> y" "y < 10000"
  shows "get_year (pad_int 4 y @ s) = Some (y, s)"
proof -
  have "length (pad 4 (nat y)) = 4" using assms by (intro length_pad) simp_all
  then obtain a b c d where p: "pad 4 (nat y) = [a, b, c, d]"
    by (auto simp: numeral_eq_Suc length_Suc_conv)
  have "list_all is_digit [a, b, c, d]" "digits_value [a, b, c, d] = nat y"
    using pad_digits [of 4 "nat y"] digits_value_pad [of 4 "nat y"] unfolding p by simp_all
  with assms p show ?thesis by (simp add: pad_int_def)
qed

lemma strip_zeros:
  fixes s :: string
  defines "t \<equiv> rev (dropWhile (\<lambda>c. c = CHR ''0'') (rev s))"
  shows "s = t @ replicate (length s - length t) CHR ''0''"
proof -
  have "rev s = takeWhile (\<lambda>c. c = CHR ''0'') (rev s) @ dropWhile (\<lambda>c. c = CHR ''0'') (rev s)"
    by simp
  then have "s = t @ rev (takeWhile (\<lambda>c. c = CHR ''0'') (rev s))"
    unfolding t_def by (metis rev_append rev_rev_ident)
  moreover have "rev (takeWhile (\<lambda>c. c = CHR ''0'') (rev s)) =
      replicate (length (takeWhile (\<lambda>c. c = CHR ''0'') (rev s))) CHR ''0''"
    by (rule replicate_eqI) (auto dest: set_takeWhileD)
  ultimately show ?thesis by (metis add_diff_cancel_left' length_append length_replicate)
qed

lemma digits_value_shift: "digits_value (t @ replicate k CHR ''0'') = digits_value t * 10 ^ k"
proof (induction k)
  case (Suc k)
  have "digits_value (t @ replicate (Suc k) CHR ''0'') =
      digits_value ((t @ replicate k CHR ''0'') @ [CHR ''0''])"
    by (simp add: replicate_append_same)
  with Suc show ?case
    by (simp only: digits_value_snoc) (simp add: char_digit_def)
qed simp

lemma get_frac_frac_digits:
  assumes "0 \<le> ns" "ns < second_ns"
  shows "get_frac (frac_digits ns @ CHR ''Z'' # s) = (ns, CHR ''Z'' # s)"
proof (cases "ns = 0")
  case True
  then show ?thesis by (cases s) (simp_all add: frac_digits_def get_frac_def is_digit_def)
next
  case False
  define p where "p = pad 9 (nat ns)"
  define t where "t = rev (dropWhile (\<lambda>c. c = CHR ''0'') (rev p))"
  have p: "length p = 9" "digits_value p = nat ns" "list_all is_digit p"
    using assms by (simp_all add: p_def length_pad second_ns_def pad_digits)
  have pt: "p = t @ replicate (9 - length t) CHR ''0''"
    using strip_zeros [of p] p(1) by (simp add: t_def)
  then have len: "length t \<le> 9" using p(1) by (metis le_add1 length_append)
  have val: "digits_value t * 10 ^ (9 - length t) = nat ns"
    using p(2) pt digits_value_shift by metis
  with False assms have "t \<noteq> []" by (auto simp: digits_value_def)
  then obtain x r where t: "t = x # r" by (cases t) auto
  have dt: "list_all is_digit t" using p(3) pt by (metis list_all_append)
  then have tw: "takeWhile is_digit (t @ CHR ''Z'' # s) = t"
    by (simp add: takeWhile_append list_all_iff is_digit_def)
  have "frac_digits ns = CHR ''.'' # t" using False by (simp add: frac_digits_def t_def p_def)
  then have "get_frac (frac_digits ns @ CHR ''Z'' # s) =
      (int (digits_value t) * 10 ^ (9 - length t), CHR ''Z'' # s)"
    using tw dt len by (simp add: get_frac_def t Let_def)
  also have "int (digits_value t) * 10 ^ (9 - length t) = ns"
    using val assms by (metis int_nat_eq of_nat_mult of_nat_numeral of_nat_power)
  finally show ?thesis .
qed

lemma get_frac_Z: "get_frac (CHR ''Z'' # s) = (0, CHR ''Z'' # s)"
  using get_frac_frac_digits [of 0 s] by (simp add: frac_digits_def second_ns_def)

text \<open>
  A UTC time of the years 0 to 9999 is read back exactly from the nanosecond layout, and to the
  second from the plain one.
\<close>

lemma parse_format_rfc3339:
  assumes t: "civil t = (y, m, d, hh, mm, ss, ns)" "zone_offset t = 0" and y: "0 \<le> y" "y < 10000"
  shows "parse_rfc3339 (format_rfc3339 nano t) =
    Some (Time (if nano then nanos t else nanos t - ns) 0 None)"
proof -
  note c = civil_utc [OF t]
  have d: "d \<le> 31" using c(2,3,5) month_length_le [of m y] by linarith
  have ns: "date_nanos y m d hh mm ss 0 = nanos t - ns"
    using c(1) by (simp add: date_nanos_def)
  show ?thesis
    using c y d t ns
    by (simp add: parse_rfc3339_def format_rfc3339_def format_zone_def get_year_pad get_two_pad
        get_frac_frac_digits get_frac_Z)
qed

end
