(* ===== verification/Ocpp_Rpc.thy ===== *)
theory Ocpp_Rpc
  imports Go_Json Go_Time
begin

text \<open>
  The version-agnostic part of OCPP (\<open>internal/ocpp\<close>): versions and their WebSocket
  subprotocols, the CALLERROR codes, the RPC error, the command vocabulary of the
  \<open>ChargePoint\<close> interface and the errors a command can fail with.
\<close>

subsection \<open>Versions\<close>

type_synonym Version = string

definition Version16 :: Version where "Version16 = ''1.6''"
definition Version201 :: Version where "Version201 = ''2.0.1''"

definition Subprotocol :: "Version \<Rightarrow> string" where
  "Subprotocol v = ''ocpp'' @ v"

definition VersionFromSubprotocol :: "string \<Rightarrow> Version option" where
  "VersionFromSubprotocol s = List.find (\<lambda>v. Subprotocol v = s) [Version16, Version201]"

subsection \<open>RPC errors\<close>

type_synonym ErrorCode = string

definition ErrRpcFrameworkError :: ErrorCode where "ErrRpcFrameworkError = ''RpcFrameworkError''"
definition ErrNotImplemented :: ErrorCode where "ErrNotImplemented = ''NotImplemented''"
definition ErrNotSupported :: ErrorCode where "ErrNotSupported = ''NotSupported''"
definition ErrInternalError :: ErrorCode where "ErrInternalError = ''InternalError''"
definition ErrProtocolError :: ErrorCode where "ErrProtocolError = ''ProtocolError''"
definition ErrSecurityError :: ErrorCode where "ErrSecurityError = ''SecurityError''"
definition ErrFormationViolation :: ErrorCode where "ErrFormationViolation = ''FormationViolation''"
definition ErrPropertyConstraintViolation :: ErrorCode where
  "ErrPropertyConstraintViolation = ''PropertyConstraintViolation''"
definition ErrOccurrenceConstraintViolation :: ErrorCode where
  "ErrOccurrenceConstraintViolation = ''OccurenceConstraintViolation''"
definition ErrTypeConstraintViolation :: ErrorCode where
  "ErrTypeConstraintViolation = ''TypeConstraintViolation''"
definition ErrGenericError :: ErrorCode where "ErrGenericError = ''GenericError''"

lemmas error_code_defs = ErrRpcFrameworkError_def ErrNotImplemented_def ErrInternalError_def
  ErrFormationViolation_def ErrPropertyConstraintViolation_def ErrOccurrenceConstraintViolation_def

record RPCError =
  Code :: ErrorCode
  Description :: string
  Details :: "(string \<times> json) list option"

definition Errorf :: "ErrorCode \<Rightarrow> string \<Rightarrow> RPCError" where
  "Errorf code desc = \<lparr>Code = code, Description = desc, Details = None\<rparr>"

definition RPCError_Error :: "RPCError \<Rightarrow> string" where
  "RPCError_Error e =
     (if Description e = [] then Code e else Code e @ '': '' @ Description e)"

lemma Errorf_simps [simp]:
  "Code (Errorf c d) = c" "Description (Errorf c d) = d" "Details (Errorf c d) = None"
  by (simp_all add: Errorf_def)

subsection \<open>Commands\<close>

record ReserveRequest =
  rr_ReservationID :: int
  rr_EVSEUID :: string
  rr_IDTag :: string
  rr_ExpiresAt :: go_time

record RemoteStartRequest =
  rs_RemoteStartID :: int
  rs_EVSEUID :: string
  rs_IDTag :: string

datatype CommandStatus =
    CommandAccepted | CommandRejected | CommandOccupied | CommandFaulted | CommandUnavailable
  | CommandUnlocked | CommandUnlockFailed | CommandNotSupported | CommandNotImplemented
  | CommandUnknown

record Result =
  Status :: CommandStatus
  Raw :: string

record Capabilities =
  Reservation :: bool
  RemoteTrigger :: bool

subsection \<open>Errors of a command\<close>

text \<open>
  The Go errors a call or a command can return: the sentinel \<open>ErrNotConnected\<close> and
  \<open>ErrUnknownEVSE\<close>, each wrapped with a text, the transport's \<open>connClosedError\<close> and
  \<open>timeoutError\<close>, a CALLERROR from the peer, a cancelled context, and any other error by its text.
\<close>

datatype go_error =
    EUnknownEVSE string
  | ENotConnected string
  | EConnClosed
  | ETimeout string
  | ERPC RPCError
  | EContext
  | EOther string

datatype sentinel = ErrTimeout | ErrNotConnected | ErrUnknownEVSE

text \<open>\<open>errors.Is\<close> on the sentinels of \<open>internal/ocpp\<close>, through the \<open>Is\<close> methods of the
  transport's error types.\<close>

fun error_is :: "go_error \<Rightarrow> sentinel \<Rightarrow> bool" where
  "error_is (ETimeout _) ErrTimeout = True"
| "error_is EConnClosed ErrNotConnected = True"
| "error_is (ENotConnected _) ErrNotConnected = True"
| "error_is (EUnknownEVSE _) ErrUnknownEVSE = True"
| "error_is _ _ = False"

subsection \<open>Negotiated versions\<close>

lemma Subprotocol_inject [simp]: "Subprotocol v = Subprotocol w \<longleftrightarrow> v = w"
  by (simp add: Subprotocol_def)

lemma VersionFromSubprotocol_Some:
  "VersionFromSubprotocol s = Some v \<longleftrightarrow> v \<in> {Version16, Version201} \<and> s = Subprotocol v"
  by (auto simp: VersionFromSubprotocol_def)

subsection \<open>The Handler interface\<close>

text \<open>
  \<open>ocpp.Handler\<close>: one inbound CALL is answered with a payload or an RPC error, and changes the
  handler's state. \<open>'t\<close> stands for the clock readings of the call. A connection serves the calls
  of its peer one after the other.
\<close>

type_synonym ('t, 's) handle_fun =
  "'t \<Rightarrow> string \<Rightarrow> string \<Rightarrow> json option \<Rightarrow> 's \<Rightarrow> (RPCError + json) \<times> 's"

type_synonym 't inbound = "'t \<times> string \<times> json option"

fun serve :: "('t, 's) handle_fun \<Rightarrow> string \<Rightarrow> 't inbound list \<Rightarrow> 's \<Rightarrow> (RPCError + json) list \<times> 's" where
  "serve handle cp [] s = ([], s)"
| "serve handle cp ((t, a, p) # xs) s =
     (case handle t cp a p s of (r, s') \<Rightarrow> (case serve handle cp xs s' of (rs, s'') \<Rightarrow> (r # rs, s'')))"

text \<open>The calls of a history that were answered with a payload.\<close>

fun accepted :: "('t, 's) handle_fun \<Rightarrow> string \<Rightarrow> 't inbound list \<Rightarrow> 's \<Rightarrow> 't inbound list" where
  "accepted handle cp [] s = []"
| "accepted handle cp ((t, a, p) # xs) s =
     (case handle t cp a p s of
        (Inl e, s') \<Rightarrow> accepted handle cp xs s'
      | (Inr j, s') \<Rightarrow> (t, a, p) # accepted handle cp xs s')"

text \<open>
  What the transport may rely on: an invariant of the state is kept, an error leaves no trace, an
  action the handler does not know is NotImplemented, and a call of one peer does not touch what
  the state holds of another.
\<close>

locale call_handler =
  fixes handle :: "('t, 's) handle_fun"
    and actions :: "string set"
    and inv :: "'s \<Rightarrow> bool"
    and peer :: "string \<Rightarrow> 's \<Rightarrow> 'v"
  assumes handle_inv: "inv s \<Longrightarrow> inv (snd (handle t cp a p s))"
    and handle_error: "fst (handle t cp a p s) = Inl e \<Longrightarrow> snd (handle t cp a p s) = s"
    and handle_unknown: "a \<notin> actions \<Longrightarrow> \<exists>d. fst (handle t cp a p s) = Inl (Errorf ErrNotImplemented d)"
    and handle_other: "inv s \<Longrightarrow> cp' \<noteq> cp \<Longrightarrow> peer cp' (snd (handle t cp a p s)) = peer cp' s"
begin

lemma serve_inv: "inv s \<Longrightarrow> inv (snd (serve handle cp xs s))"
proof (induction xs arbitrary: s)
  case (Cons x xs)
  obtain t a p where x: "x = (t, a, p)" by (cases x) auto
  from Cons.IH [OF handle_inv [OF Cons.prems, of t cp a p]] show ?case
    by (simp add: x case_prod_beta)
qed simp

lemma serve_other: "inv s \<Longrightarrow> cp' \<noteq> cp \<Longrightarrow> peer cp' (snd (serve handle cp xs s)) = peer cp' s"
proof (induction xs arbitrary: s)
  case (Cons x xs)
  obtain t a p where x: "x = (t, a, p)" by (cases x) auto
  show ?case
    using Cons.IH [OF handle_inv [OF Cons.prems(1), of t cp a p] Cons.prems(2)]
      handle_other [OF Cons.prems, of t a p]
    by (simp add: x case_prod_beta)
qed simp

lemma serve_accepted: "snd (serve handle cp xs s) = snd (serve handle cp (accepted handle cp xs s) s)"
proof (induction xs arbitrary: s)
  case (Cons x xs)
  obtain t a p where x: "x = (t, a, p)" by (cases x) auto
  show ?case
  proof (cases "fst (handle t cp a p s)")
    case (Inl e)
    then have "handle t cp a p s = (Inl e, s)" using handle_error [OF Inl] by (metis prod.collapse)
    then show ?thesis using Cons.IH [of s] by (simp add: x case_prod_beta)
  next
    case (Inr j)
    then show ?thesis using Cons.IH [of "snd (handle t cp a p s)"] by (simp add: x case_prod_beta)
  qed
qed simp

lemma serve_answers: "length (fst (serve handle cp xs s)) = length xs"
proof (induction xs arbitrary: s)
  case (Cons x xs)
  obtain t a p where x: "x = (t, a, p)" by (cases x) auto
  from Cons.IH [of "snd (handle t cp a p s)"] show ?case by (simp add: x case_prod_beta)
qed simp

end

end
