(* ===== verification/Ocppj_Frame.thy ===== *)
theory Ocppj_Frame
  imports Ocpp_Rpc
begin

text \<open>
  OCPP-J framing (\<open>internal/ocpp/ocppj/frame.go\<close>): \<open>ParseFrame\<close> and the three encoders. The
  results: parsing inverts each encoder, the frames accepted are exactly the well-formed ones,
  and every refusal is an \<open>RpcFrameworkError\<close> answered against the frame's own message id
  whenever the frame carries a usable one.
\<close>

definition MessageTypeCall :: int where "MessageTypeCall = 2"
definition MessageTypeCallResult :: int where "MessageTypeCallResult = 3"
definition MessageTypeCallError :: int where "MessageTypeCallError = 4"

definition UnknownMessageID :: string where "UnknownMessageID = ''-1''"

lemmas message_type_defs =
  MessageTypeCall_def MessageTypeCallResult_def MessageTypeCallError_def UnknownMessageID_def

record Frame =
  Type :: int
  ID :: string
  Action :: string
  Payload :: "json option"
  FErrorCode :: ErrorCode
  ErrorDescription :: string
  ErrorDetails :: "json option"

definition zero_frame :: Frame where
  "zero_frame = \<lparr>Type = 0, ID = [], Action = [], Payload = None, FErrorCode = [],
     ErrorDescription = [], ErrorDetails = None\<rparr>"

text \<open>\<open>json.Unmarshal\<close> into a fresh \<open>string\<close> or \<open>int\<close>: \<open>null\<close> leaves the zero value.\<close>

definition unmarshal_string :: "json \<Rightarrow> string + string" where
  "unmarshal_string j =
     (case dec_string [] j of Inl e \<Rightarrow> Inl e | Inr None \<Rightarrow> Inr [] | Inr (Some s) \<Rightarrow> Inr s)"

definition unmarshal_int :: "json \<Rightarrow> string + int" where
  "unmarshal_int j =
     (case dec_int [] j of Inl e \<Rightarrow> Inl e | Inr None \<Rightarrow> Inr 0 | Inr (Some i) \<Rightarrow> Inr i)"

definition framework_error :: "string \<Rightarrow> RPCError" where
  "framework_error = Errorf ErrRpcFrameworkError"

text \<open>The part of \<open>ParseFrame\<close> after the message id is known: the switch on the type.\<close>

definition parse_body :: "json list \<Rightarrow> int \<Rightarrow> string \<Rightarrow> (string \<times> RPCError) + Frame" where
  "parse_body raw typ i =
     (let f = zero_frame\<lparr>Type := typ, ID := i\<rparr>; n = length raw in
      if typ = MessageTypeCall then
        (if n \<noteq> 4 then
           Inl (i, framework_error (''CALL has '' @ itoa (int n) @ '' elements, want 4''))
         else case unmarshal_string (raw ! 2) of
                Inl _ \<Rightarrow> Inl (i, framework_error ''action is not a string'')
              | Inr a \<Rightarrow>
                  if a = [] then Inl (i, framework_error ''action is empty'')
                  else Inr (f\<lparr>Action := a, Payload := Some (raw ! 3)\<rparr>))
      else if typ = MessageTypeCallResult then
        (if n \<noteq> 3 then
           Inl (i, framework_error (''CALLRESULT has '' @ itoa (int n) @ '' elements, want 3''))
         else Inr (f\<lparr>Payload := Some (raw ! 2)\<rparr>))
      else if typ = MessageTypeCallError then
        (if n < 4 then
           Inl (i, framework_error (''CALLERROR has '' @ itoa (int n) @ '' elements, want at least 4''))
         else case unmarshal_string (raw ! 2) of
                Inl _ \<Rightarrow> Inl (i, framework_error ''error code is not a string'')
              | Inr code \<Rightarrow>
                  Inr (f\<lparr>FErrorCode := code,
                         ErrorDescription := (case unmarshal_string (raw ! 3) of Inl _ \<Rightarrow> [] | Inr d \<Rightarrow> d),
                         ErrorDetails := (if 4 < n then Some (raw ! 4) else None)\<rparr>))
      else Inl (i, framework_error (''unknown message type id '' @ itoa typ)))"

text \<open>
  \<open>ParseFrame\<close>: \<open>Inl\<close> is the id to answer with and the error to send. A top-level \<open>null\<close>
  decodes to the nil slice, of length 0.
\<close>

definition ParseFrame :: "wire \<Rightarrow> (string \<times> RPCError) + Frame" where
  "ParseFrame data =
     (case (case data of Inl e \<Rightarrow> Inl e | Inr j \<Rightarrow> dec_slice [] ''[]json.RawMessage'' Inr j) of
        Inl e \<Rightarrow> Inl (UnknownMessageID, framework_error (''message is not a JSON array: '' @ e))
      | Inr raw \<Rightarrow>
          if length raw < 3 then
            Inl (UnknownMessageID, framework_error
              (''message has '' @ itoa (int (length raw)) @ '' elements, want at least 3''))
          else case unmarshal_int (raw ! 0) of
            Inl _ \<Rightarrow> Inl (UnknownMessageID, framework_error ''message type id is not a number'')
          | Inr typ \<Rightarrow>
              (case unmarshal_string (raw ! 1) of
                 Inl _ \<Rightarrow> Inl (UnknownMessageID, framework_error ''message id is not a string'')
               | Inr i \<Rightarrow>
                   if i = [] then Inl (UnknownMessageID, framework_error ''message id is empty'')
                   else parse_body raw typ i))"

text \<open>The encoders: \<open>Inl\<close> is the encoder's error.\<close>

definition EncodeCall :: "string \<Rightarrow> string \<Rightarrow> go_any \<Rightarrow> string + json" where
  "EncodeCall i action payload =
     (case payload of
        AnyNil \<Rightarrow> Inr (JArr [JInt MessageTypeCall, JStr i, JStr action, JObj []])
      | AnyJson j \<Rightarrow> Inr (JArr [JInt MessageTypeCall, JStr i, JStr action, j])
      | AnyBad e \<Rightarrow> Inl (''encoding CALL '' @ action @ '': '' @ e))"

definition EncodeCallResult :: "string \<Rightarrow> go_any \<Rightarrow> string + json" where
  "EncodeCallResult i payload =
     (case payload of
        AnyNil \<Rightarrow> Inr (JArr [JInt MessageTypeCallResult, JStr i, JObj []])
      | AnyJson j \<Rightarrow> Inr (JArr [JInt MessageTypeCallResult, JStr i, j])
      | AnyBad e \<Rightarrow> Inl (''encoding CALLRESULT: '' @ e))"

definition EncodeCallError :: "string \<Rightarrow> RPCError \<Rightarrow> string + json" where
  "EncodeCallError i e =
     Inr (JArr [JInt MessageTypeCallError, JStr i, JStr (Code e), JStr (Description e),
                JObj (case Details e of None \<Rightarrow> [] | Some d \<Rightarrow> d)])"

subsection \<open>Parsing inverts encoding\<close>

lemmas frame_defs = ParseFrame_def parse_body_def unmarshal_string_def unmarshal_int_def
  dec_slice_def dec_scalar_defs message_type_defs zero_frame_def

lemma dec_elems_Inr [simp]: "dec_elems Inr js = Inr js"
  by (induction js) simp_all

lemma in_int64_small [simp]: "in_int64 2" "in_int64 3" "in_int64 4"
  by (simp_all add: in_int64_def int64_min_def int64_max_def)

definition any_json :: "go_any \<Rightarrow> json" where
  "any_json p = (case p of AnyJson j \<Rightarrow> j | _ \<Rightarrow> JObj [])"

text \<open>a CALL that was encoded parses back to a CALL frame with the same message id, the same
  action and the payload that was encoded, the empty object standing for a nil payload.\<close>

theorem parse_encode_call:
  assumes "EncodeCall i a p = Inr j" and "i \<noteq> []" and "a \<noteq> []"
  shows "ParseFrame (Inr j) =
    Inr (zero_frame\<lparr>Type := MessageTypeCall, ID := i, Action := a, Payload := Some (any_json p)\<rparr>)"
  using assms by (auto simp: EncodeCall_def frame_defs any_json_def split: go_any.splits)

theorem parse_encode_call_witness:
  "ParseFrame (Inr (JArr [JInt 2, JStr ''7'', JStr ''Heartbeat'', JObj []])) =
    Inr (zero_frame\<lparr>Type := MessageTypeCall, ID := ''7'', Action := ''Heartbeat'',
      Payload := Some (any_json AnyNil)\<rparr>)"
  by (rule parse_encode_call) (simp_all add: EncodeCall_def message_type_defs)

text \<open>An encoded response, CALLRESULT or CALLERROR, parses back to a response frame with the
  same message id and the same payload, or the same error code and description.\<close>

theorem parse_encode_response:
  assumes "i \<noteq> []"
  shows "(\<forall>p j. EncodeCallResult i p = Inr j \<longrightarrow> ParseFrame (Inr j) =
      Inr (zero_frame\<lparr>Type := MessageTypeCallResult, ID := i, Payload := Some (any_json p)\<rparr>))
    \<and> (\<forall>e j. EncodeCallError i e = Inr j \<longrightarrow> ParseFrame (Inr j) =
      Inr (zero_frame\<lparr>Type := MessageTypeCallError, ID := i, FErrorCode := Code e,
        ErrorDescription := Description e,
        ErrorDetails := Some (JObj (case Details e of None \<Rightarrow> [] | Some d \<Rightarrow> d))\<rparr>))"
  using assms
  by (auto simp: EncodeCallResult_def EncodeCallError_def frame_defs any_json_def
      split: go_any.splits)

theorem parse_encode_response_witness:
  "ParseFrame (Inr (JArr [JInt 4, JStr ''9'', JStr ''InternalError'', JStr ''x'', JObj []])) =
    Inr (zero_frame\<lparr>Type := MessageTypeCallError, ID := ''9'', FErrorCode := ''InternalError'',
      ErrorDescription := ''x'', ErrorDetails := Some (JObj [])\<rparr>)"
  using parse_encode_response [of "''9''", THEN conjunct2, rule_format,
      of "Errorf ErrInternalError ''x''"]
  by (simp add: EncodeCallError_def message_type_defs ErrInternalError_def)

subsection \<open>What is accepted and how a refusal is answered\<close>

text \<open>The message id a frame carries, when it is usable: a non-empty string in second place of an
  array of at least three elements whose first one decodes as a number.\<close>

definition frame_id :: "wire \<Rightarrow> string option" where
  "frame_id data =
     (case data of
        Inr (JArr (t # JStr i # x # xs)) \<Rightarrow>
          (case unmarshal_int t of Inl _ \<Rightarrow> None | Inr _ \<Rightarrow> if i = [] then None else Some i)
      | _ \<Rightarrow> None)"

text \<open>The three frame shapes of OCPP-J, with the tolerances the code documents (a CALLERROR may
  lack its details or have more elements, its description may be anything) and the one it does
  not (\<open>null\<close> as an error code reads as the empty code).\<close>

fun frame_shape :: "wire \<Rightarrow> bool" where
  "frame_shape (Inr (JArr (JInt t # JStr i # c # xs))) \<longleftrightarrow>
     i \<noteq> [] \<and>
     (t = 2 \<and> length xs = 1 \<and> (case c of JStr a \<Rightarrow> a \<noteq> [] | _ \<Rightarrow> False)
      \<or> t = 3 \<and> xs = []
      \<or> t = 4 \<and> xs \<noteq> [] \<and> (case c of JStr _ \<Rightarrow> True | JNull \<Rightarrow> True | _ \<Rightarrow> False))"
| "frame_shape _ \<longleftrightarrow> False"

lemma frame_shapeE:
  assumes "frame_shape data"
  obtains t i c xs where "data = Inr (JArr (JInt t # JStr i # c # xs))" "i \<noteq> []" "t \<in> {2, 3, 4}"
  using assms by (elim frame_shape.elims(2)) auto

lemma parse_body_error:
  "parse_body raw typ i = Inl (i', e) \<Longrightarrow> i' = i \<and> Code e = ErrRpcFrameworkError"
  by (auto simp: parse_body_def framework_error_def Let_def split: if_splits sum.splits)

lemma raw_three:
  assumes "\<not> length raw < 3"
  obtains a b c xs where "raw = a # b # c # xs"
  using assms by (metis Suc_le_length_iff linorder_not_less numeral_3_eq_3)

lemma ParseFrame_bad:
  assumes "\<nexists>t i x xs ty. data = Inr (JArr (t # JStr i # x # xs)) \<and> i \<noteq> []
    \<and> unmarshal_int t = Inr ty"
  shows "\<exists>e. ParseFrame data = Inl (UnknownMessageID, framework_error e)"
proof (cases "\<exists>t i x xs. data = Inr (JArr (t # i # x # xs))")
  case True
  then obtain t i x xs where d: "data = Inr (JArr (t # i # x # xs))" by blast
  with assms show ?thesis
    by (cases i) (auto simp: ParseFrame_def dec_slice_def unmarshal_string_def dec_string_def
        split: sum.splits)
next
  case False
  have "length raw < 3" if "data = Inr (JArr raw)" for raw
    using False that raw_three by metis
  then show ?thesis
    by (auto simp: ParseFrame_def dec_slice_def split: sum.splits json.splits)
qed

lemma ParseFrame_cases:
  obtains (bad) e where "ParseFrame data = Inl (UnknownMessageID, framework_error e)"
      "frame_id data = None" "\<not> frame_shape data"
  | (body) t i x xs ty where "data = Inr (JArr (t # JStr i # x # xs))" "i \<noteq> []"
      "unmarshal_int t = Inr ty" "ParseFrame data = parse_body (t # JStr i # x # xs) ty i"
proof (cases "\<exists>t i x xs ty. data = Inr (JArr (t # JStr i # x # xs)) \<and> i \<noteq> []
    \<and> unmarshal_int t = Inr ty")
  case True
  then show thesis
    using body by (auto simp: ParseFrame_def dec_slice_def unmarshal_string_def dec_string_def)
next
  case False
  have "frame_id data = None"
    using False by (fastforce simp: frame_id_def split: sum.splits json.splits list.splits)
  moreover have "\<not> frame_shape data"
    using False by (auto simp: unmarshal_int_def dec_int_def elim!: frame_shapeE)
  ultimately show thesis using bad ParseFrame_bad [OF False] by blast
qed

text \<open>every message that does not parse is answered with an RpcFrameworkError, addressed to
  the message id the frame carries whenever it carries a usable one and to the placeholder id
  otherwise.\<close>

theorem parse_error_answer:
  assumes "ParseFrame data = Inl (i, e)"
  shows "Code e = ErrRpcFrameworkError
    \<and> i = (case frame_id data of Some s \<Rightarrow> s | None \<Rightarrow> UnknownMessageID)"
proof (cases rule: ParseFrame_cases [of data])
  case (bad e')
  with assms show ?thesis by (auto simp: framework_error_def)
next
  case (body t i' x xs ty)
  then show ?thesis using assms parse_body_error [of _ ty i' i e] by (simp add: frame_id_def)
qed

theorem parse_error_answer_witness:
  "Code (framework_error (''unknown message type id '' @ itoa 9)) = ErrRpcFrameworkError \<and>
    ''7'' = (case frame_id (Inr (JArr [JInt 9, JStr ''7'', JNull])) of
      Some s \<Rightarrow> s | None \<Rightarrow> UnknownMessageID)"
  by (rule parse_error_answer)
    (simp add: frame_defs in_int64_def int64_min_def int64_max_def)

text \<open>Property C37. ParseFrame accepts a message exactly when it has one of the three OCPP-J frame shapes
  with a non-empty message id (and, for a CALL, a non-empty action).\<close>

theorem parse_accepts_iff: "(\<exists>f. ParseFrame data = Inr f) \<longleftrightarrow> frame_shape data"
proof (cases rule: ParseFrame_cases [of data])
  case (body t i x xs ty)
  show ?thesis
    unfolding body(4) unfolding body(1) using body(2,3)
    by (cases t) (auto simp: parse_body_def unmarshal_string_def unmarshal_int_def dec_scalar_defs
        Let_def message_type_defs length_Suc_conv split: sum.splits json.splits if_splits)
qed simp

end
