(* ===== verification/Ocppj_Conn.thy ===== *)
theory Ocppj_Conn
  imports Ocppj_Frame
begin

text \<open>
  One OCPP-J connection (\<open>internal/ocpp/ocppj/conn.go\<close>) as a system of goroutines: the reader, the
  writer, the handler that serves inbound CALLs one at a time, and any number of callers waiting
  in \<open>Call\<close>. A step is one goroutine passing one blocking point; the WebSocket, the clocks and
  the callers' contexts are the environment, whose choices (a message arrives, a write fails, a
  timer fires, a context is cancelled, \<open>Close\<close> is called) are rules without a cause.

  The handler's state and behaviour are parameters: \<open>H\<close> may answer, fail with an RPC error or
  panic.
\<close>

subsection \<open>State\<close>

definition sendBuffer :: nat where "sendBuffer = 32"
definition callBuffer :: nat where "callBuffer = 64"

text \<open>\<open>callResult\<close>: the payload or the CALLERROR.\<close>

type_synonym callResult = "RPCError + json option"

text \<open>A goroutine inside \<open>Call\<close>: its message id, its action, the one-element channel it waits on,
  and how far it is.\<close>

datatype call_phase = Sending json | Waiting | Returned "go_error + json option"

record caller_state =
  call_id :: string
  call_action :: string
  call_chan :: "callResult option"
  call_phase :: call_phase

datatype reader_phase =
    Reading
  | Queueing Frame
  | Answering json
  | Delivering nat callResult
  | ReaderDone string

datatype handler_phase = HandlerIdle | Replying json | HandlerDone

datatype writer_phase = Writing | WriterDone

text \<open>
  The connection. \<open>written\<close>, \<open>received\<close> and \<open>served\<close> are history: the frames written to the
  socket, the frames parsed from it, and the CALLs handed to the handler.
\<close>

record 's conn =
  conn_id :: string
  version :: Version
  callTimeout :: int
  idleTimeout :: int
  send :: "json list"
  calls :: "Frame list"
  pending :: "string \<rightharpoonup> nat"
  nextID :: "64 word"
  closed :: bool
  callers :: "caller_state list"
  reader :: reader_phase
  handler :: handler_phase
  writer :: writer_phase
  hstate :: 's
  written :: "json list"
  received :: "Frame list"
  served :: "Frame list"

text \<open>\<open>New\<close>: non-positive timeouts are replaced by 30 and 90 seconds.\<close>

definition NewConn :: "string \<Rightarrow> Version \<Rightarrow> int \<Rightarrow> int \<Rightarrow> 's \<Rightarrow> 's conn" where
  "NewConn i v callT idleT s =
     \<lparr>conn_id = i, version = v,
      callTimeout = (if callT \<le> 0 then 30 * 1000000000 else callT),
      idleTimeout = (if idleT \<le> 0 then 90 * 1000000000 else idleT),
      send = [], calls = [], pending = Map.empty, nextID = 0, closed = False, callers = [],
      reader = Reading, handler = HandlerIdle, writer = Writing, hstate = s,
      written = [], received = [], served = []\<rparr>"

subsection \<open>Dispatch\<close>

datatype handler_result = HResult go_any | HError RPCError | HPanic

type_synonym 's conn_handler = "string \<Rightarrow> string \<Rightarrow> json option \<Rightarrow> 's \<Rightarrow> handler_result \<times> 's"

text \<open>\<open>dispatch\<close>: a panic of the handler becomes an InternalError.\<close>

definition dispatch :: "'s conn_handler \<Rightarrow> string \<Rightarrow> Frame \<Rightarrow> 's \<Rightarrow> (RPCError + go_any) \<times> 's" where
  "dispatch H i f s =
     (case H i (Action f) (Payload f) s of
        (HResult r, s') \<Rightarrow> (Inr r, s')
      | (HError e, s') \<Rightarrow> (Inl e, s')
      | (HPanic, s') \<Rightarrow> (Inl (Errorf ErrInternalError ''handler failed''), s'))"

text \<open>The frame \<open>sendCallError\<close> queues, if the error can be encoded.\<close>

definition callError_frame :: "string \<Rightarrow> RPCError \<Rightarrow> json option" where
  "callError_frame i e = (case EncodeCallError i e of Inl _ \<Rightarrow> None | Inr j \<Rightarrow> Some j)"

text \<open>The reply \<open>handleLoop\<close> queues for one CALL.\<close>

definition reply_frame :: "string \<Rightarrow> RPCError + go_any \<Rightarrow> json option" where
  "reply_frame i r =
     (case r of
        Inl e \<Rightarrow> callError_frame i e
      | Inr v \<Rightarrow>
          (case EncodeCallResult i v of
             Inl _ \<Rightarrow> callError_frame i (Errorf ErrInternalError ''could not encode result'')
           | Inr j \<Rightarrow> Some j))"

subsection \<open>Operations on the pending table\<close>

definition forget :: "string \<Rightarrow> 's conn \<Rightarrow> 's conn" where
  "forget i c = c\<lparr>pending := (pending c)(i := None)\<rparr>"

definition PendingCount :: "'s conn \<Rightarrow> nat" where
  "PendingCount c = card (dom (pending c))"

definition Close :: "'s conn \<Rightarrow> 's conn" where
  "Close c = c\<lparr>closed := True\<rparr>"

definition set_caller :: "nat \<Rightarrow> caller_state \<Rightarrow> 's conn \<Rightarrow> 's conn" where
  "set_caller k w c = c\<lparr>callers := (callers c)[k := w]\<rparr>"

text \<open>Entering \<open>Call\<close>: the id is taken, the request encoded and the call registered.\<close>

definition call_enter :: "string \<Rightarrow> go_any \<Rightarrow> 's conn \<Rightarrow> 's conn" where
  "call_enter action payload c =
     (let n = nextID c + 1; i = dec (unat n); c = c\<lparr>nextID := n\<rparr>
      in case EncodeCall i action payload of
           Inl e \<Rightarrow> c\<lparr>callers := callers c @
             [\<lparr>call_id = i, call_action = action, call_chan = None, call_phase = Returned (Inl (EOther e))\<rparr>]\<rparr>
         | Inr j \<Rightarrow> c\<lparr>pending := (pending c)(i \<mapsto> length (callers c)),
             callers := callers c @
               [\<lparr>call_id = i, call_action = action, call_chan = None, call_phase = Sending j\<rparr>]\<rparr>)"

text \<open>Leaving \<open>Call\<close>: the deferred \<open>forget\<close> runs, then the caller has its result.\<close>

definition call_return :: "nat \<Rightarrow> go_error + json option \<Rightarrow> 's conn \<Rightarrow> 's conn" where
  "call_return k r c =
     (let w = callers c ! k
      in forget (call_id w) (set_caller k (w\<lparr>call_phase := Returned r\<rparr>) c))"

text \<open>What the caller returns for a delivered result.\<close>

definition call_value :: "callResult \<Rightarrow> go_error + json option" where
  "call_value r = (case r of Inl e \<Rightarrow> Inl (ERPC e) | Inr p \<Rightarrow> Inr p)"

text \<open>The result carried by a response frame.\<close>

definition frame_result :: "Frame \<Rightarrow> callResult" where
  "frame_result f =
     (if Type f = MessageTypeCallResult then Inr (Payload f)
      else Inl \<lparr>Code = FErrorCode f, Description = ErrorDescription f, Details = None\<rparr>)"

text \<open>One message read from the socket: what the reader does next.\<close>

definition read_message :: "wire \<Rightarrow> 's conn \<Rightarrow> 's conn" where
  "read_message data c =
     (case ParseFrame data of
        Inl (errID, e) \<Rightarrow>
          (case callError_frame errID e of None \<Rightarrow> c | Some j \<Rightarrow> c\<lparr>reader := Answering j\<rparr>)
      | Inr f \<Rightarrow>
          (let c = c\<lparr>received := received c @ [f]\<rparr>
           in if Type f = MessageTypeCall then c\<lparr>reader := Queueing f\<rparr>
              else if Type f = MessageTypeCallResult \<or> Type f = MessageTypeCallError
                then (case pending c (ID f) of
                        None \<Rightarrow> c
                      | Some k \<Rightarrow> c\<lparr>reader := Delivering k (frame_result f)\<rparr>)
              else c))"

text \<open>The non-blocking send on the caller's channel.\<close>

definition deliver :: "nat \<Rightarrow> callResult \<Rightarrow> 's conn \<Rightarrow> 's conn" where
  "deliver k r c =
     (let w = callers c ! k
      in case call_chan w of None \<Rightarrow> set_caller k (w\<lparr>call_chan := Some r\<rparr>) c | Some _ \<Rightarrow> c)"

text \<open>The handler takes the next CALL and answers it.\<close>

definition serve_next :: "'s conn_handler \<Rightarrow> Frame \<Rightarrow> 's conn \<Rightarrow> 's conn" where
  "serve_next H f c =
     (let (r, s) = dispatch H (conn_id c) f (hstate c);
          c = c\<lparr>calls := tl (calls c), hstate := s, served := served c @ [f]\<rparr>
      in case reply_frame (ID f) r of None \<Rightarrow> c | Some j \<Rightarrow> c\<lparr>handler := Replying j\<rparr>)"

text \<open>\<open>closeReason\<close>: whether the read error is a timeout or a normal closure, and its text.\<close>

definition closeReason :: "bool \<Rightarrow> bool \<Rightarrow> string \<Rightarrow> string" where
  "closeReason timeout normal err =
     (if timeout then ''heartbeat timeout'' else if normal then ''closed by charge point'' else err)"

subsection \<open>Steps\<close>

inductive conn_step :: "'s conn_handler \<Rightarrow> 's conn \<Rightarrow> 's conn \<Rightarrow> bool" for H where
  (* callers *)
  s_enter: "conn_step H c (call_enter action payload c)"
| s_sent: "k < length (callers c) \<Longrightarrow> call_phase (callers c ! k) = Sending j \<Longrightarrow> length (send c) < sendBuffer \<Longrightarrow>
     conn_step H c (set_caller k ((callers c ! k)\<lparr>call_phase := Waiting\<rparr>) (c\<lparr>send := send c @ [j]\<rparr>))"
| s_closed: "k < length (callers c) \<Longrightarrow> call_phase (callers c ! k) \<in> {Sending j, Waiting} \<Longrightarrow> closed c \<Longrightarrow>
     conn_step H c (call_return k (Inl EConnClosed) c)"
| s_cancelled: "k < length (callers c) \<Longrightarrow> call_phase (callers c ! k) \<in> {Sending j, Waiting} \<Longrightarrow>
     conn_step H c (call_return k (Inl EContext) c)"
| s_timeout: "k < length (callers c) \<Longrightarrow> call_phase (callers c ! k) = Waiting \<Longrightarrow>
     conn_step H c (call_return k (Inl (ETimeout (call_action (callers c ! k)))) c)"
| s_result: "k < length (callers c) \<Longrightarrow> call_phase (callers c ! k) = Waiting \<Longrightarrow>
     call_chan (callers c ! k) = Some r \<Longrightarrow>
     conn_step H c (call_return k (call_value r) c)"
  (* the reader *)
| s_read: "reader c = Reading \<Longrightarrow> conn_step H c (read_message data c)"
| s_read_error: "reader c = Reading \<Longrightarrow>
     conn_step H c (Close (c\<lparr>reader := ReaderDone (closeReason timeout normal err)\<rparr>))"
| s_queued: "reader c = Queueing f \<Longrightarrow> length (calls c) < callBuffer \<Longrightarrow>
     conn_step H c (c\<lparr>calls := calls c @ [f], reader := Reading\<rparr>)"
| s_queue_closed: "reader c = Queueing f \<Longrightarrow> closed c \<Longrightarrow>
     conn_step H c (Close (c\<lparr>reader := ReaderDone ''closed''\<rparr>))"
| s_answered: "reader c = Answering j \<Longrightarrow> length (send c) < sendBuffer \<Longrightarrow>
     conn_step H c (c\<lparr>send := send c @ [j], reader := Reading\<rparr>)"
| s_answer_dropped: "reader c = Answering j \<Longrightarrow> closed c \<Longrightarrow> conn_step H c (c\<lparr>reader := Reading\<rparr>)"
| s_delivered: "reader c = Delivering k r \<Longrightarrow> conn_step H c ((deliver k r c)\<lparr>reader := Reading\<rparr>)"
  (* the handler *)
| s_serve: "handler c = HandlerIdle \<Longrightarrow> calls c = f # fs \<Longrightarrow> conn_step H c (serve_next H f c)"
| s_handler_closed: "handler c = HandlerIdle \<Longrightarrow> closed c \<Longrightarrow> conn_step H c (c\<lparr>handler := HandlerDone\<rparr>)"
| s_replied: "handler c = Replying j \<Longrightarrow> length (send c) < sendBuffer \<Longrightarrow>
     conn_step H c (c\<lparr>send := send c @ [j], handler := HandlerIdle\<rparr>)"
| s_reply_dropped: "handler c = Replying j \<Longrightarrow> closed c \<Longrightarrow> conn_step H c (c\<lparr>handler := HandlerIdle\<rparr>)"
  (* the writer *)
| s_written: "writer c = Writing \<Longrightarrow> send c = j # js \<Longrightarrow>
     conn_step H c (c\<lparr>send := js, written := written c @ [j]\<rparr>)"
| s_write_failed: "writer c = Writing \<Longrightarrow> send c = j # js \<Longrightarrow>
     conn_step H c (Close (c\<lparr>send := js, writer := WriterDone\<rparr>))"
| s_ping_failed: "writer c = Writing \<Longrightarrow> conn_step H c (Close (c\<lparr>writer := WriterDone\<rparr>))"
| s_writer_closed: "writer c = Writing \<Longrightarrow> closed c \<Longrightarrow> conn_step H c (c\<lparr>writer := WriterDone\<rparr>)"
  (* anyone *)
| s_close: "conn_step H c (Close c)"

definition conn_init :: "'s conn \<Rightarrow> bool" where
  "conn_init c \<longleftrightarrow> (\<exists>i v ct it s. c = NewConn i v ct it s)"

subsection \<open>Frame conditions\<close>

lemma conn_op_simps [simp]:
  "send (forget i c) = send c" "calls (forget i c) = calls c" "callers (forget i c) = callers c"
  "nextID (forget i c) = nextID c" "reader (forget i c) = reader c" "received (forget i c) = received c"
  "served (forget i c) = served c" "closed (forget i c) = closed c" "handler (forget i c) = handler c"
  "writer (forget i c) = writer c" "pending (forget i c) = (pending c)(i := None)"
  "send (Close c) = send c" "calls (Close c) = calls c" "callers (Close c) = callers c"
  "nextID (Close c) = nextID c" "reader (Close c) = reader c" "received (Close c) = received c"
  "served (Close c) = served c" "pending (Close c) = pending c" "closed (Close c)"
  "handler (Close c) = handler c" "writer (Close c) = writer c"
  "send (set_caller k w c) = send c" "calls (set_caller k w c) = calls c"
  "nextID (set_caller k w c) = nextID c" "reader (set_caller k w c) = reader c"
  "received (set_caller k w c) = received c" "served (set_caller k w c) = served c"
  "pending (set_caller k w c) = pending c" "closed (set_caller k w c) = closed c"
  "handler (set_caller k w c) = handler c" "writer (set_caller k w c) = writer c"
  "callers (set_caller k w c) = (callers c)[k := w]"
  by (simp_all add: forget_def Close_def set_caller_def)

lemma call_return_simps [simp]:
  "send (call_return k r c) = send c" "calls (call_return k r c) = calls c"
  "nextID (call_return k r c) = nextID c" "reader (call_return k r c) = reader c"
  "received (call_return k r c) = received c" "served (call_return k r c) = served c"
  "closed (call_return k r c) = closed c" "handler (call_return k r c) = handler c"
  "writer (call_return k r c) = writer c"
  "pending (call_return k r c) = (pending c)(call_id (callers c ! k) := None)"
  "callers (call_return k r c) = (callers c)[k := (callers c ! k)\<lparr>call_phase := Returned r\<rparr>]"
  by (simp_all add: call_return_def Let_def)

lemma call_enter_simps [simp]:
  "send (call_enter a p c) = send c" "calls (call_enter a p c) = calls c"
  "nextID (call_enter a p c) = nextID c + 1" "reader (call_enter a p c) = reader c"
  "received (call_enter a p c) = received c" "served (call_enter a p c) = served c"
  "closed (call_enter a p c) = closed c" "handler (call_enter a p c) = handler c"
  "writer (call_enter a p c) = writer c"
  by (simp_all add: call_enter_def Let_def split: sum.split)

lemma deliver_simps [simp]:
  "send (deliver k r c) = send c" "calls (deliver k r c) = calls c" "nextID (deliver k r c) = nextID c"
  "received (deliver k r c) = received c" "served (deliver k r c) = served c"
  "pending (deliver k r c) = pending c" "closed (deliver k r c) = closed c"
  "handler (deliver k r c) = handler c" "writer (deliver k r c) = writer c"
  "length (callers (deliver k r c)) = length (callers c)"
  by (simp_all add: deliver_def Let_def split: option.split)

lemma read_message_simps [simp]:
  "send (read_message d c) = send c" "calls (read_message d c) = calls c"
  "nextID (read_message d c) = nextID c" "callers (read_message d c) = callers c"
  "served (read_message d c) = served c" "pending (read_message d c) = pending c"
  "closed (read_message d c) = closed c" "handler (read_message d c) = handler c"
  "writer (read_message d c) = writer c"
  by (simp_all add: read_message_def Let_def split: sum.split option.split)

lemma serve_next_simps [simp]:
  "send (serve_next H f c) = send c" "calls (serve_next H f c) = tl (calls c)"
  "nextID (serve_next H f c) = nextID c" "callers (serve_next H f c) = callers c"
  "served (serve_next H f c) = served c @ [f]" "pending (serve_next H f c) = pending c"
  "closed (serve_next H f c) = closed c" "reader (serve_next H f c) = reader c"
  "received (serve_next H f c) = received c" "writer (serve_next H f c) = writer c"
  by (simp_all add: serve_next_def Let_def split: prod.split option.split)

subsection \<open>Invariant: queue bounds\<close>

definition queues_ok :: "'s conn \<Rightarrow> bool" where
  "queues_ok c \<longleftrightarrow> length (send c) \<le> sendBuffer \<and> length (calls c) \<le> callBuffer"

lemma queues_ok_step: "conn_step H c c' \<Longrightarrow> queues_ok c \<Longrightarrow> queues_ok c'"
  by (induction rule: conn_step.induct) (auto simp: queues_ok_def)

subsection \<open>Invariant: callers and the pending table\<close>

fun active :: "call_phase \<Rightarrow> bool" where
  "active (Returned r) = False"
| "active _ = True"

definition nth_id :: "nat \<Rightarrow> string" where
  "nth_id k = dec (unat (of_nat (Suc k) :: 64 word))"

text \<open>Ids are handed out in order; a registration points to a caller of that id.\<close>

definition ids_ok :: "'s conn \<Rightarrow> bool" where
  "ids_ok c \<longleftrightarrow>
     nextID c = of_nat (length (callers c)) \<and>
     (\<forall>k < length (callers c). call_id (callers c ! k) = nth_id k) \<and>
     (\<forall>i k. pending c i = Some k \<longrightarrow> k < length (callers c) \<and> i = nth_id k)"

text \<open>A call is registered exactly while it is in progress.\<close>

definition pending_ok :: "'s conn \<Rightarrow> bool" where
  "pending_ok c \<longleftrightarrow>
     (\<forall>k < length (callers c). pending c (nth_id k) = Some k \<longleftrightarrow> active (call_phase (callers c ! k)))"

lemma nth_id_inj: "j < 2 ^ 64 - 1 \<Longrightarrow> k < 2 ^ 64 - 1 \<Longrightarrow> nth_id j = nth_id k \<longleftrightarrow> j = k"
  by (simp add: nth_id_def unat_of_nat take_bit_eq_mod del: of_nat_Suc)

lemma call_enter_callers:
  "ids_ok c \<Longrightarrow> \<exists>w. callers (call_enter a p c) = callers c @ [w] \<and> call_id w = nth_id (length (callers c)) \<and>
     call_action w = a \<and> call_chan w = None \<and>
     (active (call_phase w) \<and> pending (call_enter a p c) = (pending c)(nth_id (length (callers c)) \<mapsto> length (callers c)) \<or>
      (\<exists>e. call_phase w = Returned (Inl (EOther e))) \<and> pending (call_enter a p c) = pending c)"
  by (auto simp: call_enter_def Let_def ids_ok_def nth_id_def algebra_simps split: sum.split)

lemma ids_ok_enter: "ids_ok c \<Longrightarrow> ids_ok (call_enter a p c)"
  using call_enter_callers [of c a p]
  by (auto simp: ids_ok_def nth_append less_Suc_eq split: if_splits)

lemma ids_ok_cong:
  "ids_ok c \<Longrightarrow> nextID c' = nextID c \<Longrightarrow> map call_id (callers c') = map call_id (callers c) \<Longrightarrow>
   (\<And>i k. pending c' i = Some k \<Longrightarrow> pending c i = Some k) \<Longrightarrow> ids_ok c'"
  unfolding ids_ok_def by (metis length_map nth_map)

lemma map_call_id_update:
  "k < length ws \<Longrightarrow> call_id w = call_id (ws ! k) \<Longrightarrow> map call_id (ws[k := w]) = map call_id ws"
  by (simp add: map_update list_update_same_conv)

lemma map_call_id_deliver [simp]: "map call_id (callers (deliver k r c)) = map call_id (callers c)"
proof (cases "k < length (callers c)")
  case True
  then show ?thesis by (auto simp: deliver_def Let_def map_call_id_update split: option.split)
next
  case False
  then show ?thesis by (auto simp: deliver_def Let_def list_update_beyond split: option.split)
qed

lemma ids_ok_step: "conn_step H c c' \<Longrightarrow> ids_ok c \<Longrightarrow> ids_ok c'"
proof (induction rule: conn_step.induct)
  case (s_enter c action payload)
  then show ?case by (rule ids_ok_enter)
qed (erule ids_ok_cong; simp add: map_call_id_update split: if_splits)+

text \<open>The message ids repeat only after the 64-bit counter wraps.\<close>

definition small :: "'s conn \<Rightarrow> bool" where
  "small c \<longleftrightarrow> length (callers c) < 2 ^ 64"

lemma callers_grow: "conn_step H c c' \<Longrightarrow> length (callers c) \<le> length (callers c')"
proof (induction rule: conn_step.induct)
  case (s_enter c action payload)
  then show ?case by (simp add: call_enter_def Let_def split: sum.split)
qed simp_all

lemma pending_ok_enter:
  assumes "ids_ok c" "pending_ok c" "small (call_enter a p c)"
  shows "pending_ok (call_enter a p c)"
proof -
  obtain w where w: "callers (call_enter a p c) = callers c @ [w]"
      "active (call_phase w) \<and> pending (call_enter a p c) = (pending c)(nth_id (length (callers c)) \<mapsto> length (callers c)) \<or>
       (\<exists>e. call_phase w = Returned (Inl (EOther e))) \<and> pending (call_enter a p c) = pending c"
    using call_enter_callers [OF assms(1)] by blast
  have n: "length (callers c) < 2 ^ 64 - 1" using assms(3) w(1) by (simp add: small_def)
  have ne: "k < length (callers c) \<Longrightarrow> nth_id k \<noteq> nth_id (length (callers c))" for k
    using n by (subst nth_id_inj) auto
  have "pending c (nth_id (length (callers c))) \<noteq> Some (length (callers c))"
    using assms(1) by (auto simp: ids_ok_def)
  then show ?thesis
    using w assms(2) ne by (auto simp: pending_ok_def nth_append less_Suc_eq)
qed

lemma pending_ok_return:
  assumes "ids_ok c" "pending_ok c" "small c" "k < length (callers c)"
  shows "pending_ok (call_return k r c)"
proof -
  have id: "call_id (callers c ! k) = nth_id k" using assms by (simp add: ids_ok_def)
  have "nth_id j \<noteq> nth_id k" if "j < length (callers c)" "j \<noteq> k" for j
    using that assms(3,4) by (subst nth_id_inj) (auto simp: small_def)
  then show ?thesis
    using assms by (auto simp: pending_ok_def id nth_list_update)
qed

lemma pending_ok_phase:
  assumes "pending_ok c" "callers c' = (callers c)[k := w]" "pending c' = pending c"
    "k < length (callers c) \<Longrightarrow> active (call_phase w) = active (call_phase (callers c ! k))"
  shows "pending_ok c'"
  using assms by (cases "k < length (callers c)") (auto simp: pending_ok_def nth_list_update list_update_beyond)

lemma pending_ok_deliver: "pending_ok c \<Longrightarrow> pending_ok (deliver k r c)"
  by (cases "call_chan (callers c ! k)")
    (auto simp: deliver_def Let_def intro: pending_ok_phase)

lemma pending_ok_cong: "pending_ok c \<Longrightarrow> callers c' = callers c \<Longrightarrow> pending c' = pending c \<Longrightarrow> pending_ok c'"
  by (simp add: pending_ok_def)

lemma pending_ok_step:
  "conn_step H c c' \<Longrightarrow> ids_ok c \<Longrightarrow> small c' \<Longrightarrow> pending_ok c \<Longrightarrow> pending_ok c'"
proof (induction rule: conn_step.induct)
  case (s_enter c action payload)
  then show ?case by (simp add: pending_ok_enter)
next
  case (s_sent k c j)
  show ?case
    by (rule pending_ok_phase [OF s_sent.prems(3), where k = k and w = "(callers c ! k)\<lparr>call_phase := Waiting\<rparr>"])
      (simp_all add: s_sent)
next
  case (s_delivered c k r)
  then have "pending_ok (deliver k r c)" by (simp add: pending_ok_deliver)
  then show ?case by (rule pending_ok_cong) simp_all
next
  case (s_closed k c j)
  then show ?case by (intro pending_ok_return) (simp_all add: small_def)
next
  case (s_cancelled k c j)
  then show ?case by (intro pending_ok_return) (simp_all add: small_def)
next
  case (s_timeout k c)
  then show ?case by (intro pending_ok_return) (simp_all add: small_def)
next
  case (s_result k c r)
  then show ?case by (intro pending_ok_return) (simp_all add: small_def)
qed (erule pending_ok_cong; simp)+

subsection \<open>Invariant: correlation\<close>

text \<open>A response frame with this id and this content has been received.\<close>

definition answered_by :: "Frame list \<Rightarrow> string \<Rightarrow> callResult \<Rightarrow> bool" where
  "answered_by fs i r \<longleftrightarrow>
     (\<exists>f \<in> set fs. (Type f = MessageTypeCallResult \<or> Type f = MessageTypeCallError) \<and> ID f = i \<and> frame_result f = r)"

definition caller_correlated :: "Frame list \<Rightarrow> caller_state \<Rightarrow> bool" where
  "caller_correlated fs w \<longleftrightarrow>
     (\<forall>r. call_chan w = Some r \<longrightarrow> answered_by fs (call_id w) r) \<and>
     (\<forall>p. call_phase w = Returned (Inr p) \<longrightarrow> answered_by fs (call_id w) (Inr p)) \<and>
     (\<forall>e. call_phase w = Returned (Inl (ERPC e)) \<longrightarrow> answered_by fs (call_id w) (Inl e))"

definition correlated :: "'s conn \<Rightarrow> bool" where
  "correlated c \<longleftrightarrow>
     list_all (caller_correlated (received c)) (callers c) \<and>
     (\<forall>k r. reader c = Delivering k r \<longrightarrow>
        k < length (callers c) \<and> answered_by (received c) (call_id (callers c ! k)) r)"

lemma answered_by_mono: "answered_by fs i r \<Longrightarrow> set fs \<subseteq> set fs' \<Longrightarrow> answered_by fs' i r"
  by (auto simp: answered_by_def)

lemma caller_correlated_mono: "caller_correlated fs w \<Longrightarrow> set fs \<subseteq> set fs' \<Longrightarrow> caller_correlated fs' w"
  by (auto simp: caller_correlated_def intro: answered_by_mono)

lemma list_all_update: "list_all P xs \<Longrightarrow> P x \<Longrightarrow> list_all P (xs[k := x])"
  by (auto simp: list_all_iff dest: set_update_subset_insert [THEN subsetD])

lemma correlated_caller:
  "correlated c \<Longrightarrow> k < length (callers c) \<Longrightarrow> caller_correlated (received c) (callers c ! k)"
  by (simp add: correlated_def list_all_length)

lemma correlated_cong:
  "correlated c \<Longrightarrow> callers c' = callers c \<Longrightarrow> received c' = received c \<Longrightarrow>
   (\<And>k r. reader c' = Delivering k r \<Longrightarrow> reader c = Delivering k r) \<Longrightarrow> correlated c'"
  by (simp add: correlated_def)

lemma correlated_update:
  assumes "correlated c" "callers c' = (callers c)[k := w]" "received c' = received c"
    "reader c' = reader c" "caller_correlated (received c) w" "call_id w = call_id (callers c ! k)"
  shows "correlated c'"
  using assms
  by (cases "k < length (callers c)") (auto simp: correlated_def list_all_update nth_list_update list_update_beyond)

lemma correlated_enter:
  assumes "correlated c" "ids_ok c"
  shows "correlated (call_enter a p c)"
proof -
  obtain w where w: "callers (call_enter a p c) = callers c @ [w]" "call_chan w = None"
      "active (call_phase w) \<or> (\<exists>e. call_phase w = Returned (Inl (EOther e)))"
    using call_enter_callers [OF assms(2), of a p] by blast
  then have "caller_correlated (received c) w" by (auto simp: caller_correlated_def)
  then show ?thesis using assms(1) w(1) by (auto simp: correlated_def nth_append)
qed

lemma correlated_read:
  assumes "correlated c" "ids_ok c" "reader c = Reading"
  shows "correlated (read_message d c)"
proof -
  have mono: "list_all (caller_correlated (received c @ fs)) (callers c)" for fs
    using assms(1) by (auto simp: correlated_def list_all_iff intro: caller_correlated_mono)
  show ?thesis
    using assms mono mono [of "[]"]
    by (auto simp: read_message_def Let_def correlated_def ids_ok_def answered_by_def
        split: sum.splits option.splits if_splits prod.splits)
qed

lemma correlated_return:
  assumes "correlated c" "k < length (callers c)"
    "\<And>p. r = Inr p \<Longrightarrow> answered_by (received c) (call_id (callers c ! k)) (Inr p)"
    "\<And>e. r = Inl (ERPC e) \<Longrightarrow> answered_by (received c) (call_id (callers c ! k)) (Inl e)"
  shows "correlated (call_return k r c)"
proof (rule correlated_update [OF assms(1), where k = k and w = "(callers c ! k)\<lparr>call_phase := Returned r\<rparr>"])
  show "caller_correlated (received c) ((callers c ! k)\<lparr>call_phase := Returned r\<rparr>)"
    using correlated_caller [OF assms(1,2)] assms(3,4) by (auto simp: caller_correlated_def)
qed simp_all

lemma correlated_deliver:
  assumes "correlated c" "reader c = Delivering k r"
  shows "correlated ((deliver k r c)\<lparr>reader := Reading\<rparr>)"
proof -
  have k: "k < length (callers c)" "answered_by (received c) (call_id (callers c ! k)) r"
    using assms by (simp_all add: correlated_def)
  show ?thesis
  proof (cases "call_chan (callers c ! k)")
    case None
    let ?w = "(callers c ! k)\<lparr>call_chan := Some r\<rparr>"
    have "caller_correlated (received c) ?w"
      using correlated_caller [OF assms(1) k(1)] k(2) by (simp add: caller_correlated_def)
    then have "correlated (set_caller k ?w c)"
      by (intro correlated_update [OF assms(1), where k = k and w = ?w]) simp_all
    then show ?thesis
      by (rule correlated_cong) (use None in \<open>simp_all add: deliver_def\<close>)
  next
    case (Some r')
    then show ?thesis
      by (intro correlated_cong [OF assms(1)]) (simp_all add: deliver_def)
  qed
qed

lemma correlated_step: "conn_step H c c' \<Longrightarrow> ids_ok c \<Longrightarrow> correlated c \<Longrightarrow> correlated c'"
proof (induction rule: conn_step.induct)
  case (s_enter c action payload)
  then show ?case by (simp add: correlated_enter)
next
  case (s_sent k c j)
  have "caller_correlated (received c) ((callers c ! k)\<lparr>call_phase := Waiting\<rparr>)"
    using correlated_caller [OF s_sent.prems(2) s_sent.hyps(1)] by (simp add: caller_correlated_def)
  then show ?case
    by (intro correlated_update [OF s_sent.prems(2), where k = k and w = "(callers c ! k)\<lparr>call_phase := Waiting\<rparr>"])
      simp_all
next
  case (s_result k c r)
  have "answered_by (received c) (call_id (callers c ! k)) r"
    using correlated_caller [OF s_result.prems(2) s_result.hyps(1)] s_result.hyps(3)
    by (simp add: caller_correlated_def)
  then show ?case
    using s_result by (intro correlated_return) (auto simp: call_value_def split: sum.splits)
next
  case (s_delivered c k r)
  then show ?case by (simp add: correlated_deliver)
next
  case (s_read c data)
  then show ?case by (simp add: correlated_read)
next
  case (s_closed k c j)
  then show ?case by (intro correlated_return) simp_all
next
  case (s_cancelled k c j)
  then show ?case by (intro correlated_return) simp_all
next
  case (s_timeout k c)
  then show ?case by (intro correlated_return) simp_all
qed (erule correlated_cong; simp)+

subsection \<open>Invariant: order of inbound calls\<close>

definition is_call :: "Frame \<Rightarrow> bool" where
  "is_call f \<longleftrightarrow> Type f = MessageTypeCall"

definition order_ok :: "'s conn \<Rightarrow> bool" where
  "order_ok c \<longleftrightarrow>
     (\<exists>rest. filter is_call (received c) = served c @ calls c @ rest \<and>
        (case reader c of Queueing f \<Rightarrow> rest = [f] | ReaderDone _ \<Rightarrow> length rest \<le> 1 | _ \<Rightarrow> rest = []))"

lemma order_ok_read: "order_ok c \<Longrightarrow> reader c = Reading \<Longrightarrow> order_ok (read_message d c)"
  by (auto simp: order_ok_def read_message_def Let_def is_call_def MessageTypeCall_def MessageTypeCallResult_def
      MessageTypeCallError_def split: sum.split option.split)

lemma order_ok_step: "conn_step H c c' \<Longrightarrow> order_ok c \<Longrightarrow> order_ok c'"
proof (induction rule: conn_step.induct)
  case (s_read c data)
  then show ?case by (simp add: order_ok_read)
qed (auto simp: order_ok_def)

subsection \<open>The invariant of a connection\<close>

definition conn_inv :: "'s conn \<Rightarrow> bool" where
  "conn_inv c \<longleftrightarrow> queues_ok c \<and> ids_ok c \<and> (small c \<longrightarrow> pending_ok c) \<and> correlated c \<and> order_ok c"

lemma conn_inv_init: "conn_init c \<Longrightarrow> conn_inv c"
  by (auto simp: conn_init_def conn_inv_def NewConn_def queues_ok_def ids_ok_def pending_ok_def
      correlated_def order_ok_def)

lemma conn_inv_step: "conn_inv c \<Longrightarrow> conn_step H c c' \<Longrightarrow> conn_inv c'"
  using callers_grow [of H c c'] queues_ok_step [of H c c'] ids_ok_step [of H c c']
    pending_ok_step [of H c c'] correlated_step [of H c c'] order_ok_step [of H c c']
  by (auto simp: conn_inv_def small_def)

interpretation conn: invariant_system conn_init "conn_step H" conn_inv for H
  by unfold_locales (auto intro: conn_inv_init conn_inv_step)

subsection \<open>Shutting down\<close>

definition no_goroutines :: "'s conn \<Rightarrow> bool" where
  "no_goroutines c \<longleftrightarrow>
     (\<forall>k < length (callers c). \<not> active (call_phase (callers c ! k))) \<and>
     (\<exists>r. reader c = ReaderDone r) \<and> handler c = HandlerDone \<and> writer c = WriterDone"

lemma drain_writer:
  "closed c \<Longrightarrow> \<exists>c'. (conn_step H)\<^sup>*\<^sup>* c c' \<and> closed c' \<and> writer c' = WriterDone \<and>
     reader c' = reader c \<and> handler c' = handler c"
proof (cases "writer c")
  case Writing
  assume "closed c"
  with Writing have "conn_step H c (c\<lparr>writer := WriterDone\<rparr>)" by (rule s_writer_closed)
  with \<open>closed c\<close> show ?thesis by (intro exI [of _ "c\<lparr>writer := WriterDone\<rparr>"]) auto
qed auto

lemma drain_handler:
  assumes "closed c"
  shows "\<exists>c'. (conn_step H)\<^sup>*\<^sup>* c c' \<and> closed c' \<and> handler c' = HandlerDone \<and>
     reader c' = reader c \<and> writer c' = writer c"
proof -
  have idle: "\<exists>c'. (conn_step H)\<^sup>*\<^sup>* b c' \<and> closed c' \<and> handler c' = HandlerDone \<and>
     reader c' = reader b \<and> writer c' = writer b" if "closed b" "handler b = HandlerIdle" for b
    using s_handler_closed [OF that(2,1), of H] that
    by (intro exI [of _ "b\<lparr>handler := HandlerDone\<rparr>"]) auto
  show ?thesis
  proof (cases "handler c")
    case (Replying j)
    then have "conn_step H c (c\<lparr>handler := HandlerIdle\<rparr>)" using assms by (rule s_reply_dropped)
    moreover have "closed (c\<lparr>handler := HandlerIdle\<rparr>)" using assms by simp
    ultimately show ?thesis
      using idle [of "c\<lparr>handler := HandlerIdle\<rparr>"] by (auto intro: converse_rtranclp_into_rtranclp)
  qed (use assms idle in auto)
qed

lemma drain_reader:
  assumes "closed c"
  shows "\<exists>c'. (conn_step H)\<^sup>*\<^sup>* c c' \<and> closed c' \<and> (\<exists>r. reader c' = ReaderDone r) \<and>
     handler c' = handler c \<and> writer c' = writer c"
proof -
  have reading: "\<exists>c'. (conn_step H)\<^sup>*\<^sup>* b c' \<and> closed c' \<and> (\<exists>r. reader c' = ReaderDone r) \<and>
     handler c' = handler b \<and> writer c' = writer b" if "reader b = Reading" for b
    using s_read_error [OF that, of H True True "[]"]
    by (intro exI [of _ "Close (b\<lparr>reader := ReaderDone (closeReason True True [])\<rparr>)"]) auto
  have via: "\<exists>c'. (conn_step H)\<^sup>*\<^sup>* c c' \<and> closed c' \<and> (\<exists>r. reader c' = ReaderDone r) \<and>
     handler c' = handler c \<and> writer c' = writer c"
    if "conn_step H c b" "reader b = Reading" "handler b = handler c" "writer b = writer c" for b
    using reading [OF that(2)] that by (auto intro: converse_rtranclp_into_rtranclp)
  show ?thesis
  proof (cases "reader c")
    case Reading
    then show ?thesis by (rule reading)
  next
    case (Queueing f)
    then have "conn_step H c (Close (c\<lparr>reader := ReaderDone ''closed''\<rparr>))" using assms by (rule s_queue_closed)
    then show ?thesis by (intro exI [of _ "Close (c\<lparr>reader := ReaderDone ''closed''\<rparr>)"]) auto
  next
    case (Answering j)
    then show ?thesis using assms by (intro via [OF s_answer_dropped]) auto
  next
    case (Delivering k r)
    then show ?thesis by (intro via [OF s_delivered]) auto
  qed (use assms in auto)
qed

lemma drain_callers:
  assumes "closed c"
  shows "\<exists>c'. (conn_step H)\<^sup>*\<^sup>* c c' \<and> closed c' \<and> length (callers c') = length (callers c) \<and>
     (\<forall>k < n. k < length (callers c') \<longrightarrow> \<not> active (call_phase (callers c' ! k))) \<and>
     reader c' = reader c \<and> handler c' = handler c \<and> writer c' = writer c"
  using assms
proof (induction n)
  case (Suc n)
  then obtain b where b: "(conn_step H)\<^sup>*\<^sup>* c b" "closed b" "length (callers b) = length (callers c)"
      "\<forall>k < n. k < length (callers b) \<longrightarrow> \<not> active (call_phase (callers b ! k))"
      "reader b = reader c" "handler b = handler c" "writer b = writer c" by blast
  show ?case
  proof (cases "n < length (callers b) \<and> active (call_phase (callers b ! n))")
    case True
    then have "call_phase (callers b ! n) \<in> {Sending (SOME j. call_phase (callers b ! n) = Sending j), Waiting}"
      by (cases "call_phase (callers b ! n)") auto
    then have st: "conn_step H b (call_return n (Inl EConnClosed) b)" using True b(2) by (blast intro: s_closed)
    have "\<not> active (call_phase (callers (call_return n (Inl EConnClosed) b) ! k))"
      if "k < Suc n" "k < length (callers b)" for k
      using that b(4) by (cases "k = n") auto
    then show ?thesis
      using rtranclp.rtrancl_into_rtrancl [OF b(1) st] b by (intro exI [of _ "call_return n (Inl EConnClosed) b"]) auto
  next
    case False
    then show ?thesis using b by (intro exI [of _ b]) (auto simp: less_Suc_eq)
  qed
qed auto

lemma drain_all:
  assumes "closed c"
  shows "\<exists>c'. (conn_step H)\<^sup>*\<^sup>* c c' \<and> no_goroutines c'"
proof -
  obtain c1 where 1: "(conn_step H)\<^sup>*\<^sup>* c c1" "closed c1" "\<exists>r. reader c1 = ReaderDone r"
    using drain_reader [OF assms] by blast
  obtain c2 where 2: "(conn_step H)\<^sup>*\<^sup>* c1 c2" "closed c2" "\<exists>r. reader c2 = ReaderDone r" "handler c2 = HandlerDone"
    using drain_handler [OF 1(2), of H] 1(3) by auto
  obtain c3 where 3: "(conn_step H)\<^sup>*\<^sup>* c2 c3" "closed c3" "\<exists>r. reader c3 = ReaderDone r" "handler c3 = HandlerDone"
      "writer c3 = WriterDone"
    using drain_writer [OF 2(2), of H] 2(3,4) by auto
  obtain c4 where "(conn_step H)\<^sup>*\<^sup>* c3 c4" "no_goroutines c4"
    using drain_callers [OF 3(2), of H "length (callers c3)"] 3 by (auto simp: no_goroutines_def)
  then show ?thesis using 1(1) 2(1) 3(1) by (meson rtranclp_trans)
qed

lemma no_goroutines_pending:
  assumes "conn_inv c" "small c" "no_goroutines c"
  shows "pending c = Map.empty"
proof
  fix i
  show "pending c i = None"
  proof (cases "pending c i")
    case (Some k)
    then have "k < length (callers c)" "i = nth_id k" using assms(1) by (auto simp: conn_inv_def ids_ok_def)
    then show ?thesis using Some assms by (auto simp: conn_inv_def pending_ok_def no_goroutines_def)
  qed
qed

subsection \<open>Properties\<close>

text \<open>
  Property C6. In every reachable state of a connection, whatever the handler does, a call has an
  entry in the pending table exactly while it is in progress, so returning by an answer, a
  timeout, a cancelled context or a closed connection never leaks one; the send queue holds at
  most 32 frames and the call queue at most 64. (The entry is keyed by the message id, so this is
  for the first 2^64 calls of a connection.)
\<close>

theorem pending_exactly_in_progress:
  assumes "reachable conn_init (conn_step H) c" "length (callers c) < 2 ^ 64"
  shows "(\<forall>i. pending c i \<noteq> None \<longleftrightarrow>
            (\<exists>w \<in> set (callers c). call_id w = i \<and> active (call_phase w))) \<and>
         length (send c) \<le> 32 \<and> length (calls c) \<le> 64"
proof -
  have inv: "ids_ok c" "pending_ok c" "queues_ok c"
    using conn.reachable_inv [OF assms(1)] assms(2) by (simp_all add: conn_inv_def small_def)
  have "pending c i \<noteq> None \<longleftrightarrow> (\<exists>w \<in> set (callers c). call_id w = i \<and> active (call_phase w))" for i
  proof
    assume "pending c i \<noteq> None"
    then obtain k where "pending c i = Some k" by blast
    then show "\<exists>w \<in> set (callers c). call_id w = i \<and> active (call_phase w)"
      using inv(1,2) by (intro bexI [of _ "callers c ! k"]) (auto simp: ids_ok_def pending_ok_def)
  next
    assume "\<exists>w \<in> set (callers c). call_id w = i \<and> active (call_phase w)"
    then obtain k where "k < length (callers c)" "call_id (callers c ! k) = i" "active (call_phase (callers c ! k))"
      by (auto simp: in_set_conv_nth)
    then show "pending c i \<noteq> None" using inv(1,2) by (auto simp: ids_ok_def pending_ok_def)
  qed
  then show ?thesis
    using inv(3) by (simp add: queues_ok_def sendBuffer_def callBuffer_def)
qed

lemma reach_conn: "reachable conn_init (conn_step H) (NewConn i v ct it s)"
  by (rule reach_init) (unfold conn_init_def, blast)

lemma reach_entered: "reachable conn_init (conn_step H) (call_enter a p (NewConn i v ct it s))"
  by (rule reach_step [OF reach_conn s_enter])

theorem pending_exactly_in_progress_witness:
  "pending (call_enter ''Reset'' AnyNil (NewConn ''CP'' Version16 0 0 ())) ''1'' \<noteq> None"
proof -
  let ?c = "call_enter ''Reset'' AnyNil (NewConn ''CP'' Version16 0 0 ())"
  have c: "callers ?c = [\<lparr>call_id = ''1'', call_action = ''Reset'', call_chan = None,
      call_phase = Sending (JArr [JInt 2, JStr ''1'', JStr ''Reset'', JObj []])\<rparr>]"
    by code_simp
  have "reachable conn_init (conn_step (\<lambda>_ _ _ s. (HPanic, s))) ?c" by (rule reach_entered)
  from pending_exactly_in_progress [OF this] show ?thesis unfolding c by simp
qed

text \<open>
  Property C7. Answers are correlated: a call returns a payload only if a CALLRESULT with its own
  message id and exactly that payload was received on the connection, and it returns a peer's
  error only if a CALLERROR with its id, that code and that description was received.
\<close>

theorem call_answers_correlated:
  assumes "reachable conn_init (conn_step H) c" "w \<in> set (callers c)"
  shows "(\<forall>p. call_phase w = Returned (Inr p) \<longrightarrow>
            (\<exists>f \<in> set (received c). Type f = MessageTypeCallResult \<and> ID f = call_id w \<and> Payload f = p)) \<and>
         (\<forall>e. call_phase w = Returned (Inl (ERPC e)) \<longrightarrow>
            (\<exists>f \<in> set (received c). Type f = MessageTypeCallError \<and> ID f = call_id w \<and>
               FErrorCode f = Code e \<and> ErrorDescription f = Description e))"
proof -
  have "caller_correlated (received c) w"
    using conn.reachable_inv [OF assms(1)] assms(2) by (auto simp: conn_inv_def correlated_def list_all_iff)
  then show ?thesis
    by (fastforce simp: caller_correlated_def answered_by_def frame_result_def split: if_splits)
qed

text \<open>A connection on which one call was sent and answered, for the witness.\<close>

definition answered_conn :: "unit conn" where
  "answered_conn =
     (let c = call_enter ''Reset'' AnyNil (NewConn ''CP'' Version16 0 0 ());
          c = set_caller 0 ((callers c ! 0)\<lparr>call_phase := Waiting\<rparr>)
                (c\<lparr>send := send c @ [JArr [JInt 2, JStr ''1'', JStr ''Reset'', JObj []]]\<rparr>);
          c = read_message (Inr (JArr [JInt 3, JStr ''1'', JObj []])) c;
          c = (deliver 0 (Inr (Some (JObj []))) c)\<lparr>reader := Reading\<rparr>
      in call_return 0 (Inr (Some (JObj []))) c)"

lemma answered_conn_reachable: "reachable conn_init (conn_step H) answered_conn"
proof -
  let ?j = "JArr [JInt 2, JStr ''1'', JStr ''Reset'', JObj []]"
  let ?r = "Inr (Some (JObj []))"
  define c1 where "c1 = call_enter ''Reset'' AnyNil (NewConn ''CP'' Version16 0 0 ())"
  define c2 where "c2 = set_caller 0 ((callers c1 ! 0)\<lparr>call_phase := Waiting\<rparr>) (c1\<lparr>send := send c1 @ [?j]\<rparr>)"
  define c3 where "c3 = read_message (Inr (JArr [JInt 3, JStr ''1'', JObj []])) c2"
  define c4 where "c4 = (deliver 0 ?r c3)\<lparr>reader := Reading\<rparr>"
  have 1: "reachable conn_init (conn_step H) c1" unfolding c1_def by (rule reach_entered)
  have "0 < length (callers c1)" "call_phase (callers c1 ! 0) = Sending ?j" "length (send c1) < sendBuffer"
    unfolding c1_def by code_simp+
  then have 2: "reachable conn_init (conn_step H) c2"
    unfolding c2_def by (rule reach_step [OF 1 s_sent])
  have "reader c2 = Reading" unfolding c2_def c1_def by code_simp
  then have 3: "reachable conn_init (conn_step H) c3"
    unfolding c3_def by (rule reach_step [OF 2 s_read])
  have "reader c3 = Delivering 0 ?r" unfolding c3_def c2_def c1_def by code_simp
  then have 4: "reachable conn_init (conn_step H) c4"
    unfolding c4_def by (rule reach_step [OF 3 s_delivered])
  have 5: "0 < length (callers c4)" "call_phase (callers c4 ! 0) = Waiting" "call_chan (callers c4 ! 0) = Some ?r"
    unfolding c4_def c3_def c2_def c1_def by code_simp+
  have "reachable conn_init (conn_step H) (call_return 0 (call_value ?r) c4)"
    by (rule reach_step [OF 4 s_result [OF 5]])
  moreover have "answered_conn = call_return 0 (call_value ?r) c4"
    unfolding answered_conn_def c4_def c3_def c2_def c1_def Let_def by (simp add: call_value_def)
  ultimately show ?thesis by simp
qed

theorem call_answers_correlated_witness:
  "\<exists>f \<in> set (received answered_conn). Type f = MessageTypeCallResult \<and> ID f = ''1'' \<and> Payload f = Some (JObj [])"
proof -
  have c: "callers answered_conn = [\<lparr>call_id = ''1'', call_action = ''Reset'',
      call_chan = Some (Inr (Some (JObj []))), call_phase = Returned (Inr (Some (JObj [])))\<rparr>]"
    by code_simp
  from call_answers_correlated [OF answered_conn_reachable [of "\<lambda>_ _ _ s. (HPanic, s)"], of "callers answered_conn ! 0"]
  show ?thesis unfolding c by simp
qed

text \<open>
  Property C20. Inbound CALLs are served one at a time in the order they arrived: what has been
  handed to the handler, followed by the queue, is a prefix of the CALLs received, and nothing is
  missing but at most the one the reader is queueing, or gave up on when the connection closed.
\<close>

theorem calls_served_in_order:
  assumes "reachable conn_init (conn_step H) c"
  shows "\<exists>rest. filter (\<lambda>f. Type f = MessageTypeCall) (received c) = served c @ calls c @ rest \<and> length rest \<le> 1 \<and>
           (reader c = Reading \<longrightarrow> rest = [])"
proof -
  have c: "(\<lambda>f. Type f = MessageTypeCall) = is_call" by (simp add: is_call_def fun_eq_iff)
  obtain rest where "filter is_call (received c) = served c @ calls c @ rest"
      "case reader c of Queueing f \<Rightarrow> rest = [f] | ReaderDone _ \<Rightarrow> length rest \<le> 1 | _ \<Rightarrow> rest = []"
    using conn.reachable_inv [OF assms] by (auto simp: conn_inv_def order_ok_def)
  then show ?thesis
    unfolding c by (intro exI [of _ rest]) (cases "reader c"; simp)
qed

theorem calls_served_in_order_witness:
  "\<exists>rest. filter (\<lambda>f. Type f = MessageTypeCall) (received answered_conn) =
     served answered_conn @ calls answered_conn @ rest \<and> length rest \<le> 1"
  using calls_served_in_order [OF answered_conn_reachable [of "\<lambda>_ _ _ s. (HPanic, s)"]] by blast

text \<open>
  Every CALL served is answered by exactly one frame with its own message id, also
  when the handler panics or its result cannot be encoded: the reply parses as a CALLRESULT or
  CALLERROR addressed to it, an InternalError in those two cases.
\<close>

theorem reply_always_addressed:
  assumes "ID g \<noteq> []"
  shows "\<exists>j f. reply_frame (ID g) (fst (dispatch H i g s)) = Some j \<and> ParseFrame (Inr j) = Inr f \<and> ID f = ID g \<and>
     (Type f = MessageTypeCallResult \<or> Type f = MessageTypeCallError) \<and>
     (case fst (H i (Action g) (Payload g) s) of
        HPanic \<Rightarrow> Type f = MessageTypeCallError \<and> FErrorCode f = ''InternalError''
      | HError e \<Rightarrow> Type f = MessageTypeCallError \<and> FErrorCode f = Code e \<and> ErrorDescription f = Description e
      | HResult (AnyBad e) \<Rightarrow> Type f = MessageTypeCallError \<and> FErrorCode f = ''InternalError''
      | HResult v \<Rightarrow> Type f = MessageTypeCallResult \<and> Payload f = Some (any_json v))"
proof (cases "H i (Action g) (Payload g) s")
  case (Pair r s')
  show ?thesis
  proof (cases r)
    case (HResult v)
    then show ?thesis
      using assms by (cases v) (auto simp: dispatch_def Pair reply_frame_def callError_frame_def EncodeCallResult_def
          EncodeCallError_def frame_defs any_json_def error_code_defs)
  qed (use assms in \<open>auto simp: dispatch_def Pair reply_frame_def callError_frame_def
        EncodeCallError_def frame_defs error_code_defs\<close>)
qed

theorem reply_always_addressed_witness:
  "\<exists>j f. reply_frame ''7'' (fst (dispatch (\<lambda>_ _ _ s. (HPanic, s)) ''CP''
       (zero_frame\<lparr>Type := MessageTypeCall, ID := ''7'', Action := ''Boom''\<rparr>) ())) = Some j \<and>
     ParseFrame (Inr j) = Inr f \<and> ID f = ''7'' \<and> FErrorCode f = ''InternalError''"
  using reply_always_addressed [of "zero_frame\<lparr>Type := MessageTypeCall, ID := ''7'', Action := ''Boom''\<rparr>"
      "\<lambda>_ _ _ s. (HPanic, s)" "''CP''" "()"]
  by auto



end
