(* ===== verification/Ocpp_Client.thy ===== *)
theory Ocpp_Client
  imports Ocppj_Conn
begin

text \<open>
  The raw OCPP-J client of \<open>internal/ocpptest\<close>, which drives the server in the tests. It has its own
  framing on purpose, so that an error in the server's cannot hide behind it. Here the two are
  compared: the client understands every frame the server's parser accepts, in the same way, and
  the server's parser everything the client sends. Its goroutines are a step relation like the
  server's connection: the reader and any number of goroutines in \<open>Call\<close>; the WebSocket, the timers
  and the test that uses the client are the environment.
\<close>

subsection \<open>Messages\<close>

definition TypeCall :: int where "TypeCall = 2"
definition TypeCallResult :: int where "TypeCallResult = 3"
definition TypeCallError :: int where "TypeCallError = 4"

lemmas client_type_defs = TypeCall_def TypeCallResult_def TypeCallError_def

record Response =
  rp_Type :: int
  rp_ID :: string
  rp_Payload :: "json option"
  rp_ErrorCode :: string
  rp_ErrorDescription :: string

definition IsError :: "Response \<Rightarrow> bool" where
  "IsError r \<longleftrightarrow> rp_Type r = TypeCallError"

record client_call =
  cc_ID :: string
  cc_Action :: string
  cc_Payload :: json

text \<open>What the reader makes of a message: nothing, a call to answer, or a response to route.\<close>

datatype inbound_msg = Ignored | InCall client_call | InResponse Response

definition client_classify :: "wire \<Rightarrow> inbound_msg" where
  "client_classify data =
     (case (case data of Inl e \<Rightarrow> Inl e | Inr j \<Rightarrow> dec_slice [] ''[]json.RawMessage'' Inr j) of
        Inl _ \<Rightarrow> Ignored
      | Inr raw \<Rightarrow>
          if length raw < 3 then Ignored
          else case unmarshal_int (raw ! 0) of
            Inl _ \<Rightarrow> Ignored
          | Inr typ \<Rightarrow>
              (case unmarshal_string (raw ! 1) of
                 Inl _ \<Rightarrow> Ignored
               | Inr i \<Rightarrow>
                   if typ = TypeCall then
                     (if length raw < 4 then Ignored
                      else case unmarshal_string (raw ! 2) of
                             Inl _ \<Rightarrow> Ignored
                           | Inr a \<Rightarrow> InCall \<lparr>cc_ID = i, cc_Action = a, cc_Payload = raw ! 3\<rparr>)
                   else if typ = TypeCallResult then
                     InResponse \<lparr>rp_Type = typ, rp_ID = i, rp_Payload = Some (raw ! 2),
                       rp_ErrorCode = [], rp_ErrorDescription = []\<rparr>
                   else if typ = TypeCallError then
                     InResponse \<lparr>rp_Type = typ, rp_ID = i, rp_Payload = None,
                       rp_ErrorCode = (case unmarshal_string (raw ! 2) of Inl _ \<Rightarrow> [] | Inr s \<Rightarrow> s),
                       rp_ErrorDescription =
                         (if length raw > 3
                          then (case unmarshal_string (raw ! 3) of Inl _ \<Rightarrow> [] | Inr s \<Rightarrow> s) else [])\<rparr>
                   else Ignored))"

subsection \<open>State\<close>

text \<open>A goroutine in \<open>Call\<close>: its id and action, its one-element channel, and how far it is. In
  \<open>CLeaving\<close> the result stands and the deferred function has yet to take the registration back.\<close>

datatype client_phase =
  CWriting json | CWaiting | CLeaving "string + Response" | CReturned "string + Response"

record client_caller =
  cl_id :: string
  cl_action :: string
  cl_chan :: "Response option"
  cl_phase :: client_phase

text \<open>The reader waits for a message, writes an answer, hands a response to the caller it found (or
  to nobody), or has ended.\<close>

datatype client_reader = CReading | CAnswering json | CRouting "nat option" Response | CEnded

text \<open>
  The handler's closure works on the state \<open>cl_hstate\<close>. \<open>cl_crashed\<close> says that \<open>mustMarshal\<close> has
  panicked, which ends the process; \<open>cl_written\<close> and \<open>cl_heard\<close> are the history of frames written
  and responses read.
\<close>

type_synonym 'h call_fun = "client_call \<Rightarrow> 'h \<Rightarrow> (string + go_any) \<times> 'h"

record 'h client =
  cl_pending :: "string \<rightharpoonup> nat"
  cl_nextID :: int
  cl_handler :: "'h call_fun option"
  cl_hstate :: 'h
  cl_unsolicited :: "Response list"
  cl_done :: bool
  cl_callers :: "client_caller list"
  cl_reader :: client_reader
  cl_crashed :: bool
  cl_written :: "json list"
  cl_heard :: "Response list"

definition unsolicitedBuffer :: nat where "unsolicitedBuffer = 16"

text \<open>
  \<open>Dial\<close>: \<open>resp\<close> is the status and the subprotocol header of the server's answer, if there was one,
  \<open>err\<close> the error of the handshake. The handshake is returned in either case.
\<close>

record Handshake =
  hs_StatusCode :: int
  hs_Subprotocol :: string

definition Dial :: "(int \<times> string) option \<Rightarrow> string option \<Rightarrow> 'h \<Rightarrow> (string + 'h client) \<times> Handshake" where
  "Dial resp err h =
     ((case err of
         Some e \<Rightarrow> Inl e
       | None \<Rightarrow> Inr \<lparr>cl_pending = Map.empty, cl_nextID = 0, cl_handler = None, cl_hstate = h,
           cl_unsolicited = [], cl_done = False, cl_callers = [], cl_reader = CReading,
           cl_crashed = False, cl_written = [], cl_heard = []\<rparr>),
      (case resp of
         None \<Rightarrow> \<lparr>hs_StatusCode = 0, hs_Subprotocol = []\<rparr>
       | Some (code, sub) \<Rightarrow> \<lparr>hs_StatusCode = code, hs_Subprotocol = sub\<rparr>))"

definition MustDial :: "string \<Rightarrow> (int \<times> string) option \<Rightarrow> string option \<Rightarrow> 'h \<Rightarrow> string + 'h client" where
  "MustDial url resp err h =
     (case fst (Dial resp err h) of
        Inl e \<Rightarrow> Inl (''dialling '' @ url @ '': '' @ e)
      | Inr c \<Rightarrow> Inr c)"

definition OnCall :: "'h call_fun \<Rightarrow> 'h client \<Rightarrow> 'h client" where
  "OnCall f c = c\<lparr>cl_handler := Some f\<rparr>"

definition Close_client :: "'h client \<Rightarrow> 'h client" where
  "Close_client c = c\<lparr>cl_done := True\<rparr>"

subsection \<open>Calls\<close>

definition set_client_caller :: "nat \<Rightarrow> client_caller \<Rightarrow> 'h client \<Rightarrow> 'h client" where
  "set_client_caller k w c = c\<lparr>cl_callers := (cl_callers c)[k := w]\<rparr>"

text \<open>Entering \<open>Call\<close>: the id is taken and registered, the frame encoded; an encoding error is the
  result of the call.\<close>

definition client_call_enter :: "string \<Rightarrow> go_any \<Rightarrow> 'h client \<Rightarrow> 'h client" where
  "client_call_enter action payload c =
     (let n = wrap64 (cl_nextID c + 1); i = itoa n; k = length (cl_callers c);
          frame = (\<lambda>p. CWriting (JArr [JInt TypeCall, JStr i, JStr action, p]));
          w = \<lparr>cl_id = i, cl_action = action, cl_chan = None,
               cl_phase = (case payload of AnyNil \<Rightarrow> frame (JObj []) | AnyJson p \<Rightarrow> frame p
                           | AnyBad e \<Rightarrow> CLeaving (Inl e))\<rparr>
      in c\<lparr>cl_nextID := n, cl_pending := (cl_pending c)(i \<mapsto> k), cl_callers := cl_callers c @ [w]\<rparr>)"

text \<open>The result of a call, and the deferred function.\<close>

definition client_call_return :: "nat \<Rightarrow> string + Response \<Rightarrow> 'h client \<Rightarrow> 'h client" where
  "client_call_return k r c = set_client_caller k ((cl_callers c ! k)\<lparr>cl_phase := CLeaving r\<rparr>) c"

definition client_call_leave :: "nat \<Rightarrow> string + Response \<Rightarrow> 'h client \<Rightarrow> 'h client" where
  "client_call_leave k r c =
     (let w = cl_callers c ! k; c = set_client_caller k (w\<lparr>cl_phase := CReturned r\<rparr>) c
      in c\<lparr>cl_pending := (cl_pending c)(cl_id w := None)\<rparr>)"

text \<open>The test's view of a call: \<open>MustCall\<close> and \<open>CallExpectingError\<close> fail the test with a text or
  return.\<close>

definition MustCall :: "string \<Rightarrow> string + Response \<Rightarrow> string + json option" where
  "MustCall action r =
     (case r of
        Inl e \<Rightarrow> Inl (action @ '': '' @ e)
      | Inr resp \<Rightarrow>
          if IsError resp
          then Inl (action @ '' answered with '' @ rp_ErrorCode resp @ '': '' @ rp_ErrorDescription resp)
          else Inr (rp_Payload resp))"

definition CallExpectingError :: "string \<Rightarrow> string + Response \<Rightarrow> string + Response" where
  "CallExpectingError action r =
     (case r of
        Inl e \<Rightarrow> Inl (action @ '': '' @ e)
      | Inr resp \<Rightarrow>
          if IsError resp then Inr resp else Inl (action @ '' succeeded, expected a CALLERROR''))"

subsection \<open>The reader\<close>

definition client_error :: "string \<Rightarrow> string \<Rightarrow> string \<Rightarrow> json" where
  "client_error i code d = JArr [JInt TypeCallError, JStr i, JStr code, JStr d, JObj []]"

definition client_result :: "string \<Rightarrow> json \<Rightarrow> json" where
  "client_result i p = JArr [JInt TypeCallResult, JStr i, p]"

definition answerCall :: "client_call \<Rightarrow> 'h client \<Rightarrow> 'h client" where
  "answerCall x c =
     (case cl_handler c of
        None \<Rightarrow> c\<lparr>cl_reader := CAnswering (client_error (cc_ID x) ''NotImplemented'' ''no handler registered'')\<rparr>
      | Some f \<Rightarrow>
          (case f x (cl_hstate c) of
             (Inl e, h) \<Rightarrow> c\<lparr>cl_hstate := h, cl_reader := CAnswering (client_error (cc_ID x) ''GenericError'' e)\<rparr>
           | (Inr AnyNil, h) \<Rightarrow> c\<lparr>cl_hstate := h, cl_reader := CAnswering (client_result (cc_ID x) (JObj []))\<rparr>
           | (Inr (AnyJson p), h) \<Rightarrow> c\<lparr>cl_hstate := h, cl_reader := CAnswering (client_result (cc_ID x) p)\<rparr>
           | (Inr (AnyBad e), h) \<Rightarrow> c\<lparr>cl_hstate := h, cl_crashed := True\<rparr>))"

definition client_read :: "wire \<Rightarrow> 'h client \<Rightarrow> 'h client" where
  "client_read data c =
     (case client_classify data of
        Ignored \<Rightarrow> c
      | InCall x \<Rightarrow> answerCall x c
      | InResponse r \<Rightarrow> c\<lparr>cl_heard := cl_heard c @ [r], cl_reader := CRouting (cl_pending c (rp_ID r)) r\<rparr>)"

text \<open>The rest of \<open>route\<close>: both sends are dropped when the channel is full.\<close>

definition route :: "nat option \<Rightarrow> Response \<Rightarrow> 'h client \<Rightarrow> 'h client" where
  "route found r c =
     (case found of
        Some k \<Rightarrow>
          (let w = cl_callers c ! k
           in case cl_chan w of None \<Rightarrow> set_client_caller k (w\<lparr>cl_chan := Some r\<rparr>) c | Some _ \<Rightarrow> c)
      | None \<Rightarrow>
          if length (cl_unsolicited c) < unsolicitedBuffer
          then c\<lparr>cl_unsolicited := cl_unsolicited c @ [r]\<rparr> else c)"

text \<open>\<open>NextUnsolicited\<close> when a response arrives before its timeout.\<close>

definition NextUnsolicited :: "'h client \<Rightarrow> Response option \<times> 'h client" where
  "NextUnsolicited c =
     (case cl_unsolicited c of [] \<Rightarrow> (None, c) | r # rs \<Rightarrow> (Some r, c\<lparr>cl_unsolicited := rs\<rparr>))"

inductive client_move :: "'h client \<Rightarrow> 'h client \<Rightarrow> bool" where
  m_enter: "client_move c (client_call_enter action payload c)"
| m_written: "k < length (cl_callers c) \<Longrightarrow> cl_phase (cl_callers c ! k) = CWriting j \<Longrightarrow>
     client_move c (set_client_caller k ((cl_callers c ! k)\<lparr>cl_phase := CWaiting\<rparr>) (c\<lparr>cl_written := cl_written c @ [j]\<rparr>))"
| m_write_failed: "k < length (cl_callers c) \<Longrightarrow> cl_phase (cl_callers c ! k) = CWriting j \<Longrightarrow>
     client_move c (client_call_return k (Inl err) c)"
| m_result: "k < length (cl_callers c) \<Longrightarrow> cl_phase (cl_callers c ! k) = CWaiting \<Longrightarrow>
     cl_chan (cl_callers c ! k) = Some r \<Longrightarrow> client_move c (client_call_return k (Inr r) c)"
| m_closed: "k < length (cl_callers c) \<Longrightarrow> cl_phase (cl_callers c ! k) = CWaiting \<Longrightarrow> cl_done c \<Longrightarrow>
     client_move c (client_call_return k
       (Inl (''connection closed while waiting for '' @ cl_action (cl_callers c ! k))) c)"
| m_timeout: "k < length (cl_callers c) \<Longrightarrow> cl_phase (cl_callers c ! k) = CWaiting \<Longrightarrow>
     client_move c (client_call_return k
       (Inl (''no answer to '' @ cl_action (cl_callers c ! k) @ '' within 5s'')) c)"
| m_leave: "k < length (cl_callers c) \<Longrightarrow> cl_phase (cl_callers c ! k) = CLeaving r \<Longrightarrow>
     client_move c (client_call_leave k r c)"
| m_read: "cl_reader c = CReading \<Longrightarrow> client_move c (client_read data c)"
| m_read_error: "cl_reader c = CReading \<Longrightarrow> client_move c (Close_client (c\<lparr>cl_reader := CEnded\<rparr>))"
| m_answered: "cl_reader c = CAnswering j \<Longrightarrow>
     client_move c (c\<lparr>cl_reader := CReading, cl_written := cl_written c @ [j]\<rparr>)"
| m_answer_failed: "cl_reader c = CAnswering j \<Longrightarrow> client_move c (c\<lparr>cl_reader := CReading\<rparr>)"
| m_routed: "cl_reader c = CRouting found r \<Longrightarrow> client_move c ((route found r c)\<lparr>cl_reader := CReading\<rparr>)"
| m_next: "client_move c (snd (NextUnsolicited c))"
| m_raw: "client_move c (c\<lparr>cl_written := cl_written c @ [j]\<rparr>)"
| m_handler: "client_move c (OnCall f c)"
| m_close: "client_move c (Close_client c)"

definition client_step :: "'h client \<Rightarrow> 'h client \<Rightarrow> bool" where
  "client_step c c' \<longleftrightarrow> \<not> cl_crashed c \<and> client_move c c'"

definition client_init :: "'h client \<Rightarrow> bool" where
  "client_init c \<longleftrightarrow> (\<exists>resp h. fst (Dial resp None h) = Inr c)"

subsection \<open>Two framings, one language\<close>

text \<open>What a frame of the server's parser is to the client.\<close>

definition as_inbound :: "Frame \<Rightarrow> inbound_msg" where
  "as_inbound f =
     (if Type f = MessageTypeCall
      then InCall \<lparr>cc_ID = ID f, cc_Action = Action f, cc_Payload = the (Payload f)\<rparr>
      else InResponse \<lparr>rp_Type = Type f, rp_ID = ID f, rp_Payload = Payload f,
             rp_ErrorCode = FErrorCode f, rp_ErrorDescription = ErrorDescription f\<rparr>)"

lemma nth_3 [simp]: "(a # b # c # d # xs) ! 3 = d"
  by (simp add: numeral_3_eq_3)

lemma unmarshal_JStr [simp]: "unmarshal_string (JStr s) = Inr s"
  by (simp add: unmarshal_string_def dec_string_def)

text \<open>
  The client's framing and the server's, written independently, agree: whatever message
  the server's parser accepts, the client's reader takes for the same call or response, with the
  same id and the same content.
\<close>

theorem client_reads_like_server:
  assumes "ParseFrame data = Inr f"
  shows "client_classify data = as_inbound f"
proof (cases rule: ParseFrame_cases [of data])
  case (body t i x xs ty)
  have len: "length (t # JStr i # x # xs) \<ge> 3" by simp
  have c: "client_classify data = (if ty = TypeCall then
        (if length xs < 1 then Ignored
         else case unmarshal_string x of
                Inl _ \<Rightarrow> Ignored
              | Inr a \<Rightarrow> InCall \<lparr>cc_ID = i, cc_Action = a, cc_Payload = hd xs\<rparr>)
      else if ty = TypeCallResult then
        InResponse \<lparr>rp_Type = ty, rp_ID = i, rp_Payload = Some x, rp_ErrorCode = [], rp_ErrorDescription = []\<rparr>
      else if ty = TypeCallError then
        InResponse \<lparr>rp_Type = ty, rp_ID = i, rp_Payload = None,
          rp_ErrorCode = (case unmarshal_string x of Inl _ \<Rightarrow> [] | Inr s \<Rightarrow> s),
          rp_ErrorDescription = (if xs \<noteq> [] then (case unmarshal_string (hd xs) of Inl _ \<Rightarrow> [] | Inr s \<Rightarrow> s) else [])\<rparr>
      else Ignored)"
    using body(1,3) by (cases xs) (simp_all add: client_classify_def dec_slice_def split: sum.split)
  show ?thesis
    using assms unfolding c body(4)
    by (cases xs) (auto simp: parse_body_def as_inbound_def message_type_defs client_type_defs Let_def zero_frame_def
        split: if_splits sum.splits)
qed (use assms in simp)

theorem client_reads_like_server_witness:
  "client_classify (Inr (JArr [JInt 3, JStr ''7'', JObj []])) =
     InResponse \<lparr>rp_Type = 3, rp_ID = ''7'', rp_Payload = Some (JObj []), rp_ErrorCode = [], rp_ErrorDescription = []\<rparr>"
proof -
  have "ParseFrame (Inr (JArr [JInt 3, JStr ''7'', JObj []])) =
      Inr (zero_frame\<lparr>Type := 3, ID := ''7'', Payload := Some (JObj [])\<rparr>)"
    by (simp add: frame_defs)
  from client_reads_like_server [OF this] show ?thesis
    by (simp add: as_inbound_def zero_frame_def message_type_defs)
qed

text \<open>The other way round, for the three frames the client builds.\<close>

lemma server_reads_client:
  assumes "i \<noteq> []"
  shows "a \<noteq> [] \<Longrightarrow> ParseFrame (Inr (JArr [JInt TypeCall, JStr i, JStr a, p])) =
      Inr (zero_frame\<lparr>Type := MessageTypeCall, ID := i, Action := a, Payload := Some p\<rparr>)"
    and "ParseFrame (Inr (client_result i p)) =
      Inr (zero_frame\<lparr>Type := MessageTypeCallResult, ID := i, Payload := Some p\<rparr>)"
    and "ParseFrame (Inr (client_error i code d)) =
      Inr (zero_frame\<lparr>Type := MessageTypeCallError, ID := i, FErrorCode := code, ErrorDescription := d,
        ErrorDetails := Some (JObj [])\<rparr>)"
  using assms by (simp_all add: frame_defs client_type_defs client_result_def client_error_def)

subsection \<open>Invariant of the client\<close>

fun in_progress :: "client_phase \<Rightarrow> bool" where
  "in_progress (CReturned r) = False"
| "in_progress _ = True"

definition client_id :: "nat \<Rightarrow> string" where
  "client_id k = itoa (int (Suc k))"

text \<open>What a caller holds: its id, and no response but to its own call that the reader has read.\<close>

definition caller_ok :: "Response list \<Rightarrow> nat \<Rightarrow> client_caller \<Rightarrow> bool" where
  "caller_ok heard k w \<longleftrightarrow>
     cl_id w = client_id k \<and>
     (\<forall>r. cl_chan w = Some r \<longrightarrow> r \<in> set heard \<and> rp_ID r = client_id k) \<and>
     (\<forall>r. cl_phase w \<in> {CLeaving (Inr r), CReturned (Inr r)} \<longrightarrow> r \<in> set heard \<and> rp_ID r = client_id k)"

definition calls_ok :: "'h client \<Rightarrow> bool" where
  "calls_ok c \<longleftrightarrow>
     cl_nextID c = int (length (cl_callers c)) \<and>
     (\<forall>k < length (cl_callers c). caller_ok (cl_heard c) k (cl_callers c ! k)) \<and>
     (\<forall>i k. cl_pending c i = Some k \<longleftrightarrow>
        k < length (cl_callers c) \<and> i = client_id k \<and> in_progress (cl_phase (cl_callers c ! k))) \<and>
     (\<forall>k r. cl_reader c = CRouting (Some k) r \<longrightarrow>
        k < length (cl_callers c) \<and> r \<in> set (cl_heard c) \<and> rp_ID r = client_id k)"

definition client_inv :: "'h client \<Rightarrow> bool" where
  "client_inv c \<longleftrightarrow>
     length (cl_unsolicited c) \<le> unsolicitedBuffer \<and> (length (cl_callers c) < 2 ^ 63 \<longrightarrow> calls_ok c)"

lemma client_id_inject [simp]: "client_id j = client_id k \<longleftrightarrow> j = k"
  by (simp add: client_id_def)

lemma client_simps [simp]:
  "cl_callers (set_client_caller k w c) = (cl_callers c)[k := w]" "cl_pending (set_client_caller k w c) = cl_pending c"
  "cl_nextID (set_client_caller k w c) = cl_nextID c" "cl_heard (set_client_caller k w c) = cl_heard c"
  "cl_reader (set_client_caller k w c) = cl_reader c" "cl_unsolicited (set_client_caller k w c) = cl_unsolicited c"
  by (simp_all add: set_client_caller_def)

lemma calls_ok_cong:
  "calls_ok c \<Longrightarrow> cl_nextID c' = cl_nextID c \<Longrightarrow> cl_callers c' = cl_callers c \<Longrightarrow> cl_heard c' = cl_heard c \<Longrightarrow>
   cl_pending c' = cl_pending c \<Longrightarrow> (\<And>k r. cl_reader c' \<noteq> CRouting (Some k) r) \<Longrightarrow> calls_ok c'"
  by (simp add: calls_ok_def)

lemma calls_ok_caller:
  assumes "calls_ok c" "k < length (cl_callers c)" "caller_ok (cl_heard c) k w"
    "in_progress (cl_phase w) = in_progress (cl_phase (cl_callers c ! k))"
  shows "calls_ok (set_client_caller k w c)"
  using assms unfolding calls_ok_def by (auto simp: nth_list_update)

lemma calls_ok_callerD: "calls_ok c \<Longrightarrow> k < length (cl_callers c) \<Longrightarrow> caller_ok (cl_heard c) k (cl_callers c ! k)"
  by (simp add: calls_ok_def)

lemma calls_ok_return:
  assumes "calls_ok c" "k < length (cl_callers c)" "in_progress (cl_phase (cl_callers c ! k))"
    "\<And>r'. r = Inr r' \<Longrightarrow> cl_chan (cl_callers c ! k) = Some r'"
  shows "calls_ok (client_call_return k r c)"
  unfolding client_call_return_def using assms calls_ok_callerD [OF assms(1,2)]
  by (intro calls_ok_caller) (auto simp: caller_ok_def)

lemma calls_ok_leave:
  assumes "calls_ok c" "k < length (cl_callers c)" "cl_phase (cl_callers c ! k) = CLeaving r"
  shows "calls_ok (client_call_leave k r c)"
proof -
  have w: "caller_ok (cl_heard c) k (cl_callers c ! k)" using assms(1,2) by (rule calls_ok_callerD)
  then have i: "cl_id (cl_callers c ! k) = client_id k" by (simp add: caller_ok_def)
  have "caller_ok (cl_heard c) k ((cl_callers c ! k)\<lparr>cl_phase := CReturned r\<rparr>)"
    using w assms(3) by (auto simp: caller_ok_def)
  then show ?thesis
    using assms(1,2) unfolding calls_ok_def client_call_leave_def Let_def by (auto simp: i nth_list_update)
qed

lemma calls_ok_next:
  assumes "calls_ok c" "Suc (length (cl_callers c)) < 2 ^ 63"
  shows "wrap64 (cl_nextID c + 1) = int (Suc (length (cl_callers c)))"
    and "itoa (wrap64 (cl_nextID c + 1)) = client_id (length (cl_callers c))"
proof -
  have "in_int64 (int (Suc (length (cl_callers c))))"
    using assms(2) by (simp add: in_int64_def int64_min_def int64_max_def)
  then show w: "wrap64 (cl_nextID c + 1) = int (Suc (length (cl_callers c)))"
    using assms(1) by (simp add: calls_ok_def add.commute)
  then show "itoa (wrap64 (cl_nextID c + 1)) = client_id (length (cl_callers c))" by (simp add: client_id_def)
qed

lemma calls_ok_enter:
  assumes "calls_ok c" "length (cl_callers (client_call_enter a p c)) < 2 ^ 63"
  shows "calls_ok (client_call_enter a p c)"
proof -
  let ?n = "length (cl_callers c)"
  have "Suc ?n < 2 ^ 63" using assms(2) by (simp add: client_call_enter_def Let_def)
  note w = calls_ok_next(1) [OF assms(1) this] and i = calls_ok_next(2) [OF assms(1) this]
  define q where "q = cl_phase (last (cl_callers (client_call_enter a p c)))"
  then have q: "in_progress q" "\<And>r. q \<notin> {CLeaving (Inr r), CReturned (Inr r)}"
    by (simp_all add: client_call_enter_def Let_def split: go_any.split)
  have e: "client_call_enter a p c = c\<lparr>cl_nextID := int (Suc ?n), cl_pending := (cl_pending c)(client_id ?n \<mapsto> ?n),
        cl_callers := cl_callers c @ [\<lparr>cl_id = client_id ?n, cl_action = a, cl_chan = None, cl_phase = q\<rparr>]\<rparr>"
    unfolding q_def client_call_enter_def Let_def i by (simp add: w)
  have "cl_pending c j = Some k \<longleftrightarrow> k < ?n \<and> j = client_id k \<and> in_progress (cl_phase (cl_callers c ! k))" for j k
    using assms(1) by (simp add: calls_ok_def)
  moreover have "caller_ok (cl_heard c) ?n \<lparr>cl_id = client_id ?n, cl_action = a, cl_chan = None, cl_phase = q\<rparr>"
    using q(2) by (auto simp: caller_ok_def)
  ultimately show ?thesis
    using assms(1) q(1) unfolding e by (auto simp: calls_ok_def nth_append less_Suc_eq)
qed

lemma caller_ok_heard: "caller_ok heard k w \<Longrightarrow> caller_ok (heard @ [r]) k w"
  by (simp add: caller_ok_def)

lemma calls_ok_pendingD:
  "calls_ok c \<Longrightarrow> cl_pending c i = Some k \<longleftrightarrow>
     k < length (cl_callers c) \<and> i = client_id k \<and> in_progress (cl_phase (cl_callers c ! k))"
  by (simp add: calls_ok_def)

lemma calls_ok_read:
  assumes "calls_ok c" "cl_reader c = CReading"
  shows "calls_ok (client_read data c)"
proof (cases "client_classify data")
  case (InCall x)
  have "calls_ok (answerCall x c)"
    unfolding answerCall_def using assms(2)
    by (intro calls_ok_cong [OF assms(1)]) (auto split: option.split prod.split sum.split go_any.split)
  then show ?thesis using InCall by (simp add: client_read_def)
next
  case (InResponse r)
  have "k < length (cl_callers c) \<and> rp_ID r = client_id k" if "cl_pending c (rp_ID r) = Some k" for k
    using that by (simp add: calls_ok_pendingD [OF assms(1)])
  then show ?thesis
    using assms(1) InResponse by (simp add: client_read_def calls_ok_def caller_ok_heard)
qed (use assms in \<open>simp add: client_read_def\<close>)

lemma calls_ok_route:
  assumes "calls_ok c" "cl_reader c = CRouting found r"
  shows "calls_ok ((route found r c)\<lparr>cl_reader := CReading\<rparr>)"
proof (cases found)
  case None
  show ?thesis by (rule calls_ok_cong [OF assms(1)]) (simp_all add: None route_def)
next
  case (Some k)
  then have k: "k < length (cl_callers c)" "r \<in> set (cl_heard c)" "rp_ID r = client_id k"
    using assms by (simp_all add: calls_ok_def)
  have "caller_ok (cl_heard c) k (cl_callers c ! k)" using assms(1) k(1) by (simp add: calls_ok_def)
  then have w: "caller_ok (cl_heard c) k ((cl_callers c ! k)\<lparr>cl_chan := Some r\<rparr>)"
    using k by (simp add: caller_ok_def)
  show ?thesis
  proof (cases "cl_chan (cl_callers c ! k)")
    case None
    have "calls_ok (set_client_caller k ((cl_callers c ! k)\<lparr>cl_chan := Some r\<rparr>) c)"
      by (rule calls_ok_caller [OF assms(1) k(1) w]) simp
    then show ?thesis
      by (rule calls_ok_cong) (use None Some in \<open>simp_all add: route_def\<close>)
  next
    case (Some r')
    show ?thesis
      by (rule calls_ok_cong [OF assms(1)]) (simp_all add: \<open>found = Some k\<close> Some route_def)
  qed
qed

lemma client_unsolicited_simps [simp]:
  "cl_unsolicited (client_call_enter a p c) = cl_unsolicited c"
  "cl_unsolicited (client_call_return k r c) = cl_unsolicited c"
  "cl_unsolicited (client_call_leave k r c) = cl_unsolicited c"
  "cl_unsolicited (client_read data c) = cl_unsolicited c"
  by (simp_all add: client_call_enter_def client_call_return_def client_call_leave_def client_read_def answerCall_def
      Let_def split: inbound_msg.split option.split prod.split sum.split go_any.split)

lemma unsolicited_bounded:
  assumes "client_move c c'" "length (cl_unsolicited c) \<le> unsolicitedBuffer"
  shows "length (cl_unsolicited c') \<le> unsolicitedBuffer"
  using assms by cases (auto simp: Close_client_def OnCall_def NextUnsolicited_def route_def Let_def
      split: option.splits list.splits if_splits)

lemma client_callers_grow: "client_move c c' \<Longrightarrow> length (cl_callers c) \<le> length (cl_callers c')"
  by (induction rule: client_move.induct) (auto simp: client_call_enter_def client_call_return_def client_call_leave_def
      client_read_def answerCall_def Close_client_def OnCall_def NextUnsolicited_def route_def Let_def
      split: inbound_msg.split option.split prod.split sum.split go_any.split list.split)

lemma calls_ok_move:
  assumes "client_move c c'" "calls_ok c" "length (cl_callers c') < 2 ^ 63"
  shows "calls_ok c'"
  using assms
proof cases
  case (m_written k j)
  have "calls_ok (set_client_caller k ((cl_callers c ! k)\<lparr>cl_phase := CWaiting\<rparr>) c)"
    using calls_ok_callerD [OF assms(2) m_written(2)] m_written assms(2)
    by (intro calls_ok_caller) (auto simp: caller_ok_def)
  then show ?thesis using assms(2) unfolding m_written(1) by (auto simp: calls_ok_def)
next
  case (m_answered j)
  show ?thesis unfolding m_answered by (rule calls_ok_cong [OF assms(2)]) simp_all
next
  case (m_answer_failed j)
  show ?thesis unfolding m_answer_failed by (rule calls_ok_cong [OF assms(2)]) simp_all
next
  case m_read_error
  show ?thesis unfolding m_read_error by (rule calls_ok_cong [OF assms(2)]) (simp_all add: Close_client_def)
next
  case m_next
  then show ?thesis using assms(2) by (auto simp: NextUnsolicited_def calls_ok_def split: list.split)
next
  case (m_raw j)
  then show ?thesis using assms(2) by (simp add: calls_ok_def)
next
  case (m_handler f)
  then show ?thesis using assms(2) by (simp add: calls_ok_def OnCall_def)
next
  case m_close
  then show ?thesis using assms(2) by (simp add: calls_ok_def Close_client_def)
qed (auto intro: calls_ok_enter calls_ok_return calls_ok_leave calls_ok_read calls_ok_route)

lemma client_inv_step: "client_inv c \<Longrightarrow> client_step c c' \<Longrightarrow> client_inv c'"
  using client_callers_grow [of c c'] by (auto simp: client_inv_def client_step_def intro: unsolicited_bounded calls_ok_move)

lemma client_inv_init: "client_init c \<Longrightarrow> client_inv c"
  by (auto simp: client_init_def Dial_def client_inv_def calls_ok_def)

interpretation test_client: invariant_system client_init client_step client_inv
  by unfold_locales (blast intro: client_inv_init client_inv_step)+

lemma client_callsI: "reachable client_init client_step c \<Longrightarrow> length (cl_callers c) < 2 ^ 63 \<Longrightarrow> calls_ok c"
  using test_client.reachable_inv by (auto simp: client_inv_def)

text \<open>
  In every reachable state of the client at most sixteen unsolicited responses are
  kept, and for as long as fewer than 2 to the 63 calls were made the pending table holds exactly
  the calls in progress, each under its own id, and a call that returned a response returned one
  that was read from the server and carries the id of that call.
\<close>

theorem test_client_calls:
  assumes "reachable client_init client_step c"
  shows "length (cl_unsolicited c) \<le> unsolicitedBuffer \<and>
    (length (cl_callers c) < 2 ^ 63 \<longrightarrow>
      (\<forall>i k. cl_pending c i = Some k \<longleftrightarrow>
         k < length (cl_callers c) \<and> i = client_id k \<and> in_progress (cl_phase (cl_callers c ! k))) \<and>
      (\<forall>k < length (cl_callers c). \<forall>r. cl_phase (cl_callers c ! k) = CReturned (Inr r) \<longrightarrow>
         r \<in> set (cl_heard c) \<and> rp_ID r = client_id k))"
proof (intro conjI impI allI)
  show "length (cl_unsolicited c) \<le> unsolicitedBuffer"
    using test_client.reachable_inv [OF assms] by (simp add: client_inv_def)
  assume "length (cl_callers c) < 2 ^ 63"
  from client_callsI [OF assms this] have ok: "calls_ok c" .
  show "cl_pending c i = Some k \<longleftrightarrow>
      k < length (cl_callers c) \<and> i = client_id k \<and> in_progress (cl_phase (cl_callers c ! k))" for i k
    by (rule calls_ok_pendingD [OF ok])
  fix k r
  assume "k < length (cl_callers c)" "cl_phase (cl_callers c ! k) = CReturned (Inr r)"
  then show "r \<in> set (cl_heard c)" "rp_ID r = client_id k"
    using calls_ok_callerD [OF ok] by (auto simp: caller_ok_def)
qed

subsection \<open>A call, from the client's side and the server's\<close>

text \<open>What a caller is to hear of a handler's result: a payload, or an error code and description.\<close>

definition client_outcome :: "handler_result \<Rightarrow> string \<times> string + json" where
  "client_outcome h =
     (case h of
        HResult AnyNil \<Rightarrow> Inr (JObj [])
      | HResult (AnyJson v) \<Rightarrow> Inr v
      | HResult (AnyBad _) \<Rightarrow> Inl (ErrInternalError, ''could not encode result'')
      | HError e \<Rightarrow> Inl (Code e, Description e)
      | HPanic \<Rightarrow> Inl (ErrInternalError, ''handler failed''))"

text \<open>The response that says so.\<close>

definition outcome_response :: "string \<Rightarrow> string \<times> string + json \<Rightarrow> Response" where
  "outcome_response i r =
     (case r of
        Inr v \<Rightarrow> \<lparr>rp_Type = TypeCallResult, rp_ID = i, rp_Payload = Some v, rp_ErrorCode = [], rp_ErrorDescription = []\<rparr>
      | Inl (code, d) \<Rightarrow> \<lparr>rp_Type = TypeCallError, rp_ID = i, rp_Payload = None, rp_ErrorCode = code,
          rp_ErrorDescription = d\<rparr>)"

lemma client_hears:
  "\<exists>j. reply_frame (ID f) (fst (dispatch H cp f s)) = Some j \<and>
     client_classify (Inr j) =
       InResponse (outcome_response (ID f) (client_outcome (fst (H cp (Action f) (Payload f) s))))"
proof -
  obtain r s' where r: "H cp (Action f) (Payload f) s = (r, s')" by fastforce
  show ?thesis
  proof (cases r)
    case (HResult v)
    then show ?thesis
      by (cases v) (simp_all add: r dispatch_def reply_frame_def EncodeCallResult_def callError_frame_def
          EncodeCallError_def client_classify_def client_outcome_def outcome_response_def frame_defs client_type_defs)
  qed (simp_all add: r dispatch_def reply_frame_def callError_frame_def EncodeCallError_def client_classify_def
      client_outcome_def outcome_response_def frame_defs client_type_defs)
qed

lemma calls_ok_new:
  assumes "calls_ok c"
  shows "cl_pending c (client_id (length (cl_callers c))) = None"
proof (rule ccontr)
  assume "cl_pending c (client_id (length (cl_callers c))) \<noteq> None"
  then obtain k where "cl_pending c (client_id (length (cl_callers c))) = Some k" by blast
  then show False using calls_ok_pendingD [OF assms] by fastforce
qed

text \<open>One call from entering to leaving, when the response that is read next carries its id. The
  frame is the one the client writes.\<close>

definition client_frame :: "nat \<Rightarrow> string \<Rightarrow> go_any \<Rightarrow> json" where
  "client_frame n a p = JArr [JInt TypeCall, JStr (client_id n), JStr a, any_json p]"

definition after_call :: "string \<Rightarrow> go_any \<Rightarrow> Response \<Rightarrow> 'h client \<Rightarrow> 'h client" where
  "after_call a p r c =
     (let n = length (cl_callers c)
      in c\<lparr>cl_nextID := int (Suc n), cl_written := cl_written c @ [client_frame n a p], cl_heard := cl_heard c @ [r],
           cl_callers := cl_callers c @
             [\<lparr>cl_id = client_id n, cl_action = a, cl_chan = Some r, cl_phase = CReturned (Inr r)\<rparr>]\<rparr>)"

lemma client_call_run:
  assumes "calls_ok c" "\<not> cl_crashed c" "cl_reader c = CReading" "Suc (length (cl_callers c)) < 2 ^ 63"
    "\<And>e. p \<noteq> AnyBad e" "client_classify data = InResponse r" "rp_ID r = client_id (length (cl_callers c))"
  shows "client_step\<^sup>*\<^sup>* c (after_call a p r c)"
proof -
  let ?n = "length (cl_callers c)" and ?i = "client_id (length (cl_callers c))"
  let ?w = "\<lambda>ch ph. \<lparr>cl_id = ?i, cl_action = a, cl_chan = ch, cl_phase = ph\<rparr>"
  let ?c = "\<lambda>rd wr hd w. c\<lparr>cl_nextID := int (Suc ?n), cl_pending := (cl_pending c)(?i \<mapsto> ?n), cl_reader := rd,
      cl_written := wr, cl_heard := hd, cl_callers := cl_callers c @ [w]\<rparr>"
  note w = calls_ok_next(1) [OF assms(1,4)] and i = calls_ok_next(2) [OF assms(1,4)] and none = calls_ok_new [OF assms(1)]
  let ?wr = "cl_written c @ [client_frame ?n a p]" and ?hd = "cl_heard c @ [r]"
  have stepI: "client_step x y \<longleftrightarrow> client_move x y" if "\<not> cl_crashed x" for x y :: "'a client"
    using that by (simp add: client_step_def)
  note run = converse_rtranclp_into_rtranclp [where r = client_step]
  have s1: "client_step c (?c CReading (cl_written c) (cl_heard c) (?w None (CWriting (client_frame ?n a p))))"
    using m_enter [of c a p] assms(2,3,5) unfolding client_call_enter_def Let_def i unfolding w
    by (cases rule: client.cases [of c]; cases p) (auto simp: stepI client_frame_def any_json_def)
  have s2: "client_step (?c CReading (cl_written c) (cl_heard c) (?w None (CWriting (client_frame ?n a p))))
      (?c CReading ?wr (cl_heard c) (?w None CWaiting))"
    using m_written [of ?n "?c CReading (cl_written c) (cl_heard c) (?w None (CWriting (client_frame ?n a p)))"
        "client_frame ?n a p"] assms(2,3) by (cases rule: client.cases [of c]) (simp add: stepI set_client_caller_def)
  have s3: "client_step (?c CReading ?wr (cl_heard c) (?w None CWaiting))
      (?c (CRouting (Some ?n) r) ?wr ?hd (?w None CWaiting))"
    using m_read [of "?c CReading ?wr (cl_heard c) (?w None CWaiting)" data] assms(2,3)
    by (cases rule: client.cases [of c]) (simp add: stepI client_read_def assms(6,7))
  have s4: "client_step (?c (CRouting (Some ?n) r) ?wr ?hd (?w None CWaiting))
      (?c CReading ?wr ?hd (?w (Some r) CWaiting))"
    using m_routed [of "?c (CRouting (Some ?n) r) ?wr ?hd (?w None CWaiting)"] assms(2,3)
    by (cases rule: client.cases [of c]) (simp add: stepI route_def set_client_caller_def)
  have s5: "client_step (?c CReading ?wr ?hd (?w (Some r) CWaiting)) (?c CReading ?wr ?hd (?w (Some r) (CLeaving (Inr r))))"
    using m_result [of ?n "?c CReading ?wr ?hd (?w (Some r) CWaiting)" r] assms(2,3)
    by (cases rule: client.cases [of c]) (simp add: stepI client_call_return_def set_client_caller_def)
  have s6: "client_step (?c CReading ?wr ?hd (?w (Some r) (CLeaving (Inr r)))) (after_call a p r c)"
    using m_leave [of ?n "?c CReading ?wr ?hd (?w (Some r) (CLeaving (Inr r)))" "Inr r"] none assms(2,3)
    by (cases rule: client.cases [of c])
      (simp add: stepI client_call_leave_def set_client_caller_def after_call_def Let_def fun_upd_idem)
  show ?thesis
    by (rule run [OF s1], rule run [OF s2], rule run [OF s3], rule run [OF s4], rule run [OF s5], rule run [OF s6]) simp
qed

lemma calls_ok_new_client: "client_init c \<Longrightarrow> calls_ok c \<and> \<not> cl_crashed c \<and> cl_reader c = CReading \<and> cl_callers c = []"
  by (auto simp: client_init_def Dial_def calls_ok_def)

definition new_client :: "unit client" where
  "new_client = the (case fst (Dial (Some (101, ''ocpp1.6'')) None ()) of Inl _ \<Rightarrow> None | Inr c \<Rightarrow> Some c)"

definition heartbeat_answer :: Response where
  "heartbeat_answer = outcome_response (client_id 0) (Inr (JObj []))"

lemma new_client_init: "client_init new_client"
  unfolding client_init_def new_client_def Dial_def by auto

lemma answered_client_reachable:
  "reachable client_init client_step (after_call ''Heartbeat'' AnyNil heartbeat_answer new_client)"
proof -
  have n: "calls_ok new_client" "\<not> cl_crashed new_client" "cl_reader new_client = CReading" "cl_callers new_client = []"
    using calls_ok_new_client [OF new_client_init] by simp_all
  have "client_step\<^sup>*\<^sup>* new_client (after_call ''Heartbeat'' AnyNil heartbeat_answer new_client)"
    by (rule client_call_run [OF n(1-3), where data = "Inr (client_result (client_id 0) (JObj []))"])
      (simp_all add: n(4) heartbeat_answer_def outcome_response_def client_result_def client_classify_def dec_slice_def
        unmarshal_int_def dec_int_def client_type_defs)
  then show ?thesis by (rule rtranclp_reachable [OF _ reach_init [of client_init, OF new_client_init]])
qed

theorem test_client_calls_witness:
  "\<exists>c::unit client. cl_phase (cl_callers c ! 0) = CReturned (Inr heartbeat_answer) \<and>
     heartbeat_answer \<in> set (cl_heard c) \<and> rp_ID heartbeat_answer = client_id 0 \<and>
     cl_pending c (client_id 0) = None \<and> cl_unsolicited c = []"
proof (intro exI conjI)
  let ?c = "after_call ''Heartbeat'' AnyNil heartbeat_answer new_client"
  have n: "cl_callers ?c = [\<lparr>cl_id = client_id 0, cl_action = ''Heartbeat'', cl_chan = Some heartbeat_answer,
      cl_phase = CReturned (Inr heartbeat_answer)\<rparr>]" "cl_unsolicited ?c = []"
    by (simp_all add: after_call_def new_client_def Dial_def)
  then show ph: "cl_phase (cl_callers ?c ! 0) = CReturned (Inr heartbeat_answer)" and "cl_unsolicited ?c = []" by simp_all
  have p: "(\<forall>i k. cl_pending ?c i = Some k \<longleftrightarrow>
         k < length (cl_callers ?c) \<and> i = client_id k \<and> in_progress (cl_phase (cl_callers ?c ! k)))"
    and r: "\<forall>k < length (cl_callers ?c). \<forall>r. cl_phase (cl_callers ?c ! k) = CReturned (Inr r) \<longrightarrow>
         r \<in> set (cl_heard ?c) \<and> rp_ID r = client_id k"
    using test_client_calls [OF answered_client_reachable] n(1) by simp_all
  show "heartbeat_answer \<in> set (cl_heard ?c)" "rp_ID heartbeat_answer = client_id 0"
    using r n(1) ph by auto
  show "cl_pending ?c (client_id 0) = None"
    using p n(1) by (cases "cl_pending ?c (client_id 0)") auto
qed

text \<open>
  Property C22. A call of the test client through the server and back: the server's parser reads the
  frame the client writes as a CALL with the same action and payload; whatever the handler does
  with it, a panic and a result that cannot be encoded included, the server has a reply, and the
  client can run so that exactly this call returns, with what the handler said, its registration
  taken back and every other call as it was.
\<close>

theorem client_call_roundtrip:
  assumes "reachable client_init client_step c" "\<not> cl_crashed c" "cl_reader c = CReading"
    "Suc (length (cl_callers c)) < 2 ^ 63" "a \<noteq> []" "\<And>e. p \<noteq> AnyBad e"
  shows "\<exists>f j resp. ParseFrame (Inr (client_frame (length (cl_callers c)) a p)) = Inr f \<and>
    Action f = a \<and> Payload f = Some (any_json p) \<and>
    reply_frame (ID f) (fst (dispatch H cp f s)) = Some j \<and>
    client_classify (Inr j) = InResponse resp \<and>
    client_step\<^sup>*\<^sup>* c (after_call a p resp c) \<and>
    resp = outcome_response (client_id (length (cl_callers c))) (client_outcome (fst (H cp a (Some (any_json p)) s)))"
proof -
  let ?i = "client_id (length (cl_callers c))"
  let ?f = "zero_frame\<lparr>Type := MessageTypeCall, ID := ?i, Action := a, Payload := Some (any_json p)\<rparr>"
  let ?resp = "outcome_response ?i (client_outcome (fst (H cp a (Some (any_json p)) s)))"
  have i: "?i \<noteq> []" by (simp add: client_id_def itoa_def)
  have f: "ParseFrame (Inr (client_frame (length (cl_callers c)) a p)) = Inr ?f"
    unfolding client_frame_def by (rule server_reads_client(1) [OF i assms(5)])
  obtain j where j: "reply_frame (ID ?f) (fst (dispatch H cp ?f s)) = Some j" "client_classify (Inr j) = InResponse ?resp"
    using client_hears [of ?f H cp s] by auto
  have "rp_ID ?resp = ?i" by (simp add: outcome_response_def split: sum.split)
  from client_call_run [OF _ assms(2-4) assms(6) j(2) this, of a] client_callsI [OF assms(1)] assms(4)
  have "client_step\<^sup>*\<^sup>* c (after_call a p ?resp c)" by simp
  then show ?thesis using f j by (intro exI [of _ ?f] exI [of _ j] exI [of _ ?resp]) simp
qed

theorem client_call_roundtrip_witness:
  "\<exists>c resp. client_step\<^sup>*\<^sup>* new_client c \<and> cl_phase (cl_callers c ! 0) = CReturned (Inr resp) \<and>
     MustCall ''Heartbeat'' (Inr resp) = Inl ''Heartbeat answered with InternalError: handler failed''"
proof -
  have n: "\<not> cl_crashed new_client" "cl_reader new_client = CReading" "cl_callers new_client = []"
    using calls_ok_new_client [OF new_client_init] by simp_all
  let ?H = "\<lambda>_ _ _ s. (HPanic, s)"
  let ?r = "outcome_response (client_id 0) (client_outcome HPanic)"
  have "client_step\<^sup>*\<^sup>* new_client (after_call ''Heartbeat'' AnyNil ?r new_client)"
    using client_call_roundtrip [OF reach_init, OF new_client_init n(1,2), of "''Heartbeat''" AnyNil ?H "''CP''" "()"]
    by (auto simp: n(3))
  moreover have "cl_phase (cl_callers (after_call ''Heartbeat'' AnyNil ?r new_client) ! 0) = CReturned (Inr ?r)"
    by (simp add: after_call_def n(3))
  moreover have "MustCall ''Heartbeat'' (Inr ?r) = Inl ''Heartbeat answered with InternalError: handler failed''"
    by (simp add: MustCall_def IsError_def outcome_response_def client_outcome_def client_type_defs ErrInternalError_def)
  ultimately show ?thesis by blast
qed

end
