(* ===== verification/Config_Types.thy ===== *)
theory Config_Types
  imports Go_Text
begin

text \<open>
  The configuration as the program holds it in memory (\<open>internal/config/config.go\<close> and
  \<open>duration.go\<close>): the struct types, the lookups that bridge OCPI's EVSE uids and OCPP's
  connector ids, and the defaults. Results: a lookup returns a configured EVSE, and on a config
  whose uids and connector ids are distinct (which validation enforces) the two lookups are
  inverse to each other.
\<close>

subsection \<open>Structs\<close>

text \<open>A duration keeps the text as written and the parsed value in nanoseconds.\<close>

record Duration =
  raw :: string
  dur :: int

record Charger =
  ch_ID :: string
  ch_IP :: string
  ch_OCPPVersion :: string
  ch_HeartbeatInterval :: Duration
  ch_HeartbeatTimeout :: Duration
  ch_CallTimeout :: Duration

record ServerConf =
  sv_OCPPBind :: string
  sv_OCPIBind :: string

record Auth =
  DefaultIDTag :: string

record Push =
  pu_Debounce :: Duration
  pu_MaxRetries :: int

record OCPI =
  oc_CountryCode :: string
  oc_PartyID :: string
  oc_PublicBaseURL :: string
  oc_TokenA :: string
  oc_TokenC :: string
  oc_Push :: Push

record Coordinates =
  co_Latitude :: string
  co_Longitude :: string

record Connector =
  cn_ID :: string
  cn_Standard :: string
  cn_Format :: string
  cn_PowerType :: string
  cn_MaxVoltage :: int
  cn_MaxAmperage :: int
  cn_MaxElectricPower :: int

record EVSE =
  ev_UID :: string
  ev_EVSEID :: string
  ev_OCPPConnectorID :: int
  ev_Connectors :: "Connector list"

record Location =
  lo_ID :: string
  lo_Name :: string
  lo_Address :: string
  lo_City :: string
  lo_PostalCode :: string
  lo_Country :: string
  lo_Coordinates :: Coordinates
  lo_EVSEs :: "EVSE list"

record Config =
  cf_Charger :: Charger
  cf_Server :: ServerConf
  cf_Auth :: Auth
  cf_OCPI :: OCPI
  cf_Location :: Location

subsection \<open>Durations\<close>

definition second :: int where "second = 1000000000"

definition unset :: "Duration \<Rightarrow> bool" where
  "unset d \<longleftrightarrow> raw d = []"

text \<open>
  \<open>Duration.Seconds()\<close> converted to \<open>int\<close>: truncation towards zero. The detour over a 64-bit float
  (whole seconds plus the rest divided by 10^9) does not change the result for whole seconds, nor
  below 2^22 seconds (48 days), where the rest keeps at least 30 binary places and so stays below 1.
\<close>

definition whole_seconds :: "int \<Rightarrow> int" where
  "whole_seconds d = sgn d * (\<bar>d\<bar> div second)"

subsection \<open>Lookups\<close>

definition EVSEByUID :: "Config \<Rightarrow> string \<Rightarrow> EVSE option" where
  "EVSEByUID c uid = List.find (\<lambda>e. ev_UID e = uid) (lo_EVSEs (cf_Location c))"

definition EVSEByConnectorID :: "Config \<Rightarrow> int \<Rightarrow> EVSE option" where
  "EVSEByConnectorID c i = List.find (\<lambda>e. ev_OCPPConnectorID e = i) (lo_EVSEs (cf_Location c))"

text \<open>What validation guarantees of the EVSE mapping: uids and connector ids are not repeated,
  and no EVSE maps to connector 0, which addresses the station.\<close>

definition evse_mapping_ok :: "Config \<Rightarrow> bool" where
  "evse_mapping_ok c \<longleftrightarrow>
     distinct (map ev_UID (lo_EVSEs (cf_Location c))) \<and>
     distinct (map ev_OCPPConnectorID (lo_EVSEs (cf_Location c))) \<and>
     (\<forall>e \<in> set (lo_EVSEs (cf_Location c)). 1 \<le> ev_OCPPConnectorID e)"

lemma EVSEByUID_Some:
  "EVSEByUID c uid = Some e \<Longrightarrow> e \<in> set (lo_EVSEs (cf_Location c)) \<and> ev_UID e = uid"
  unfolding EVSEByUID_def by (rule find_Some_D)

lemma EVSEByConnectorID_Some:
  "EVSEByConnectorID c i = Some e \<Longrightarrow>
     e \<in> set (lo_EVSEs (cf_Location c)) \<and> ev_OCPPConnectorID e = i"
  unfolding EVSEByConnectorID_def by (rule find_Some_D)

lemma find_distinct:
  "distinct (map f xs) \<Longrightarrow> x \<in> set xs \<Longrightarrow> List.find (\<lambda>y. f y = f x) xs = Some x"
  by (induction xs) (auto simp: image_iff)

lemma EVSEByUID_self:
  "evse_mapping_ok c \<Longrightarrow> e \<in> set (lo_EVSEs (cf_Location c)) \<Longrightarrow> EVSEByUID c (ev_UID e) = Some e"
  by (simp add: EVSEByUID_def evse_mapping_ok_def find_distinct)

lemma EVSEByConnectorID_self:
  "evse_mapping_ok c \<Longrightarrow> e \<in> set (lo_EVSEs (cf_Location c)) \<Longrightarrow>
     EVSEByConnectorID c (ev_OCPPConnectorID e) = Some e"
  by (simp add: EVSEByConnectorID_def evse_mapping_ok_def find_distinct)

end
