(* ===== verification/Watchdog.thy ===== *)
theory Watchdog
  imports Ocppj_Conn Config_Types
begin

text \<open>
  The heartbeat watchdog of a connection (\<open>internal/ocpp/ocppj/conn.go\<close>): the read deadline, what
  refreshes it, and the ping. \<open>Ocppj_Conn\<close> leaves the moment of a read error open; here time is
  explicit, in nanoseconds, and the theorems say when the watchdog fires.
\<close>

subsection \<open>Deadline and ping\<close>

text \<open>What arrives at a connection: an OCPP message, or the pong a WebSocket stack sends by itself.\<close>

datatype arrival = InMessage | InPong

definition refreshDeadline :: "int \<Rightarrow> int \<Rightarrow> int" where
  "refreshDeadline idle now = now + idle"

text \<open>
  \<open>readLoop\<close> with the read deadline \<open>deadline\<close>, over the arrivals read until the time \<open>horizon\<close>: \<open>Inl\<close> is
  the time at which the read fails and the connection ends, \<open>Inr\<close> the deadline still running. The
  pong handler does nothing, so that a pong is read but leaves the deadline.
\<close>

fun read_until :: "int \<Rightarrow> int \<Rightarrow> int \<Rightarrow> (int \<times> arrival) list \<Rightarrow> int + int" where
  "read_until idle horizon deadline [] = (if deadline < horizon then Inl deadline else Inr deadline)"
| "read_until idle horizon deadline ((t, a) # as) =
     (if deadline < t then Inl deadline
      else read_until idle horizon (case a of InMessage \<Rightarrow> refreshDeadline idle t | InPong \<Rightarrow> deadline) as)"

definition readLoop_timed :: "int \<Rightarrow> int \<Rightarrow> int \<Rightarrow> (int \<times> arrival) list \<Rightarrow> int + int" where
  "readLoop_timed idle start horizon as = read_until idle horizon (refreshDeadline idle start) as"

definition pingPeriod :: "int \<Rightarrow> int" where
  "pingPeriod idle = (let p = idle div 3 in if p < second then second else p)"

subsection \<open>What the watchdog measures\<close>

text \<open>The times at which messages arrived.\<close>

definition message_times :: "(int \<times> arrival) list \<Rightarrow> int list" where
  "message_times as = map fst (filter (\<lambda>(t, a). a = InMessage) as)"

text \<open>The reference: the first of the times \<open>ts\<close> that is followed by more than \<open>idle\<close> without another
  message, up to the horizon.\<close>

fun first_silence :: "int \<Rightarrow> int \<Rightarrow> int list \<Rightarrow> int option" where
  "first_silence idle horizon [] = None"
| "first_silence idle horizon [t] = (if t + idle < horizon then Some t else None)"
| "first_silence idle horizon (t # u # us) = (if t + idle < u then Some t else first_silence idle horizon (u # us))"

definition arrivals_ok :: "int \<Rightarrow> int \<Rightarrow> (int \<times> arrival) list \<Rightarrow> bool" where
  "arrivals_ok start horizon as \<longleftrightarrow> sorted (start # map fst as @ [horizon])"

lemma read_until_messages:
  assumes "sorted (map fst as @ [horizon])"
  shows "read_until idle horizon (t + idle) as =
    (case first_silence idle horizon (t # message_times as) of
       Some u \<Rightarrow> Inl (u + idle) | None \<Rightarrow> Inr (last (t # message_times as) + idle))"
  using assms
proof (induction as arbitrary: t)
  case (Cons x as)
  obtain u a where x: "x = (u, a)" by fastforce
  have le: "u \<le> v" if "v \<in> set (message_times as) \<or> v = horizon" for v
    using that Cons.prems by (auto simp: x message_times_def)
  show ?case
  proof (cases a)
    case InMessage
    then have m: "message_times (x # as) = u # message_times as" by (simp add: x message_times_def)
    show ?thesis using Cons.IH [of u] Cons.prems unfolding m
      by (simp add: x InMessage refreshDeadline_def split: option.split)
  next
    case InPong
    have m: "message_times (x # as) = message_times as" by (simp add: x InPong message_times_def)
    have silent: "first_silence idle horizon (t # message_times as) = Some t" if "t + idle < u"
      using that le by (cases "message_times as") force+
    then show ?thesis
      using Cons.IH [of t] Cons.prems unfolding m by (simp add: x InPong)
  qed
qed (simp add: message_times_def)

lemma first_silence_None:
  assumes "successively (\<lambda>x y. y \<le> x + idle) ts" "ts \<noteq> []" "horizon \<le> last ts + idle"
  shows "first_silence idle horizon ts = None"
  using assms by (induction idle horizon ts rule: first_silence.induct) auto

subsection \<open>Properties\<close>

text \<open>
  Property C21. The watchdog measures the silence of the OCPP layer and nothing else: the connection is
  dropped exactly the idle timeout after the first message (or the start) that is not followed by
  another message within that time, and pongs do not change it; as long as there is no such
  silence it is kept, with its deadline the idle timeout after the last message.
\<close>

theorem watchdog_measures_messages:
  assumes "arrivals_ok start horizon as"
  shows "readLoop_timed idle start horizon as =
    (case first_silence idle horizon (start # message_times as) of
       Some u \<Rightarrow> Inl (u + idle)
     | None \<Rightarrow> Inr (last (start # message_times as) + idle))"
  unfolding readLoop_timed_def refreshDeadline_def
  using assms by (intro read_until_messages) (simp add: arrivals_ok_def)

theorem watchdog_measures_messages_witness:
  "readLoop_timed 90 0 300 [(30, InPong), (60, InMessage), (120, InPong), (140, InPong), (200, InMessage)] = Inl 150"
  using watchdog_measures_messages [of 0 300 "[(30, InPong), (60, InMessage), (120, InPong), (140, InPong), (200, InMessage)]" 90]
  by (simp add: arrivals_ok_def message_times_def)

text \<open>The ping goes out at least once a second and inside the idle timeout exactly when that is longer
  than a second.\<close>

lemma ping_inside_timeout: "pingPeriod idle < idle \<longleftrightarrow> second < idle"
  by (auto simp: pingPeriod_def Let_def second_def)

end
