(* ===== verification/V16_Messages.thy ===== *)
theory V16_Messages
  imports Ocpp_Rpc
begin

text \<open>
  The charger-to-CSMS messages of OCPP 1.6-J (\<open>internal/ocpp/v16/messages.go\<close>). A Go struct is a
  record; its JSON tags are the table of fields the decoder fills and the list of members the
  encoder writes. For every struct the encoded form decodes back to the value, which is what lets
  the simulator and the CSMS talk to each other.
\<close>

subsection \<open>Actions\<close>

definition ActionBootNotification :: string where "ActionBootNotification = ''BootNotification''"
definition ActionHeartbeat :: string where "ActionHeartbeat = ''Heartbeat''"
definition ActionStatusNotification :: string where "ActionStatusNotification = ''StatusNotification''"
definition ActionAuthorize :: string where "ActionAuthorize = ''Authorize''"
definition ActionStartTransaction :: string where "ActionStartTransaction = ''StartTransaction''"
definition ActionStopTransaction :: string where "ActionStopTransaction = ''StopTransaction''"
definition ActionMeterValues :: string where "ActionMeterValues = ''MeterValues''"
definition ActionDataTransfer :: string where "ActionDataTransfer = ''DataTransfer''"
definition ActionFirmwareStatusNotification :: string where "ActionFirmwareStatusNotification = ''FirmwareStatusNotification''"
definition ActionDiagnosticsStatusNotification :: string where "ActionDiagnosticsStatusNotification = ''DiagnosticsStatusNotification''"

lemmas action_defs = ActionBootNotification_def ActionHeartbeat_def ActionStatusNotification_def ActionAuthorize_def ActionStartTransaction_def ActionStopTransaction_def ActionMeterValues_def ActionDataTransfer_def ActionFirmwareStatusNotification_def ActionDiagnosticsStatusNotification_def

subsection \<open>Decoding\<close>

text \<open>An empty payload leaves the request at its zero value.\<close>

definition decode :: "string \<Rightarrow> (string \<Rightarrow> 'r field list) \<Rightarrow> 'r \<Rightarrow> json option \<Rightarrow> RPCError + 'r" where
  "decode ty fs zero payload =
     (case payload of
        None \<Rightarrow> Inr zero
      | Some j \<Rightarrow>
          (case dec_struct [] (''v16.'' @ ty) (fs ty) zero j of
             Inl e \<Rightarrow> Inl (Errorf ErrFormationViolation (''payload does not match the action: '' @ e))
           | Inr r \<Rightarrow> Inr r))"

definition missing :: "string \<Rightarrow> RPCError" where
  "missing field = Errorf ErrOccurrenceConstraintViolation (field @ '' is required'')"

definition badValue :: "string \<Rightarrow> string \<Rightarrow> RPCError" where
  "badValue field val =
     Errorf ErrPropertyConstraintViolation (field @ '' has invalid value '' @ go_quote val)"

subsection \<open>Messages\<close>

definition AuthAccepted :: string where "AuthAccepted = ''Accepted''"
definition AuthInvalid :: string where "AuthInvalid = ''Invalid''"

text \<open>The response without data.\<close>

definition emptyConf :: json where "emptyConf = JObj []"

record IDTagInfo =
  iti_Status :: string
  iti_ExpiryDate :: string
  iti_ParentIDTag :: string

definition IDTagInfo_zero :: IDTagInfo where
  "IDTagInfo_zero = \<lparr>iti_Status = [], iti_ExpiryDate = [], iti_ParentIDTag = []\<rparr>"

definition IDTagInfo_fields :: "string \<Rightarrow> IDTagInfo field list" where
  "IDTagInfo_fields st =
     [str_field st ''status'' (\<lambda>x. iti_Status_update (\<lambda>_. x)),
      str_field st ''expiryDate'' (\<lambda>x. iti_ExpiryDate_update (\<lambda>_. x)),
      str_field st ''parentIdTag'' (\<lambda>x. iti_ParentIDTag_update (\<lambda>_. x))]"

definition IDTagInfo_json :: "IDTagInfo \<Rightarrow> json" where
  "IDTagInfo_json r =
     JObj (enc_str ''status'' (iti_Status r) @
           enc_str_omit ''expiryDate'' (iti_ExpiryDate r) @
           enc_str_omit ''parentIdTag'' (iti_ParentIDTag r))"

lemma IDTagInfo_resolve [simp]:
  "resolve_field (IDTagInfo_fields st) ''status'' = Some (str_field st ''status'' (\<lambda>x. iti_Status_update (\<lambda>_. x)))"
  "resolve_field (IDTagInfo_fields st) ''expiryDate'' = Some (str_field st ''expiryDate'' (\<lambda>x. iti_ExpiryDate_update (\<lambda>_. x)))"
  "resolve_field (IDTagInfo_fields st) ''parentIdTag'' = Some (str_field st ''parentIdTag'' (\<lambda>x. iti_ParentIDTag_update (\<lambda>_. x)))"
  by (simp_all add: resolve_field_def IDTagInfo_fields_def)

lemma IDTagInfo_roundtrip [simp]: "dec_struct ctx ty (IDTagInfo_fields st) IDTagInfo_zero (IDTagInfo_json r) = Inr r"
  unfolding IDTagInfo_json_def by (rule dec_struct_JObj, cases r) (simp_all add: IDTagInfo_zero_def dec_roundtrip)

lemma IDTagInfo_json_not_null [simp]: "IDTagInfo_json r \<noteq> JNull"
  by (simp add: IDTagInfo_json_def)

record BootNotificationReq =
  bnr_ChargePointVendor :: string
  bnr_ChargePointModel :: string
  bnr_ChargePointSerialNumber :: string
  bnr_ChargeBoxSerialNumber :: string
  bnr_FirmwareVersion :: string
  bnr_ICCID :: string
  bnr_IMSI :: string
  bnr_MeterType :: string
  bnr_MeterSerialNumber :: string

definition BootNotificationReq_zero :: BootNotificationReq where
  "BootNotificationReq_zero = \<lparr>bnr_ChargePointVendor = [], bnr_ChargePointModel = [], bnr_ChargePointSerialNumber = [], bnr_ChargeBoxSerialNumber = [], bnr_FirmwareVersion = [], bnr_ICCID = [], bnr_IMSI = [], bnr_MeterType = [], bnr_MeterSerialNumber = []\<rparr>"

definition BootNotificationReq_fields :: "string \<Rightarrow> BootNotificationReq field list" where
  "BootNotificationReq_fields st =
     [str_field st ''chargePointVendor'' (\<lambda>x. bnr_ChargePointVendor_update (\<lambda>_. x)),
      str_field st ''chargePointModel'' (\<lambda>x. bnr_ChargePointModel_update (\<lambda>_. x)),
      str_field st ''chargePointSerialNumber'' (\<lambda>x. bnr_ChargePointSerialNumber_update (\<lambda>_. x)),
      str_field st ''chargeBoxSerialNumber'' (\<lambda>x. bnr_ChargeBoxSerialNumber_update (\<lambda>_. x)),
      str_field st ''firmwareVersion'' (\<lambda>x. bnr_FirmwareVersion_update (\<lambda>_. x)),
      str_field st ''iccid'' (\<lambda>x. bnr_ICCID_update (\<lambda>_. x)),
      str_field st ''imsi'' (\<lambda>x. bnr_IMSI_update (\<lambda>_. x)),
      str_field st ''meterType'' (\<lambda>x. bnr_MeterType_update (\<lambda>_. x)),
      str_field st ''meterSerialNumber'' (\<lambda>x. bnr_MeterSerialNumber_update (\<lambda>_. x))]"

definition BootNotificationReq_json :: "BootNotificationReq \<Rightarrow> json" where
  "BootNotificationReq_json r =
     JObj (enc_str ''chargePointVendor'' (bnr_ChargePointVendor r) @
           enc_str ''chargePointModel'' (bnr_ChargePointModel r) @
           enc_str_omit ''chargePointSerialNumber'' (bnr_ChargePointSerialNumber r) @
           enc_str_omit ''chargeBoxSerialNumber'' (bnr_ChargeBoxSerialNumber r) @
           enc_str_omit ''firmwareVersion'' (bnr_FirmwareVersion r) @
           enc_str_omit ''iccid'' (bnr_ICCID r) @
           enc_str_omit ''imsi'' (bnr_IMSI r) @
           enc_str_omit ''meterType'' (bnr_MeterType r) @
           enc_str_omit ''meterSerialNumber'' (bnr_MeterSerialNumber r))"

lemma BootNotificationReq_resolve [simp]:
  "resolve_field (BootNotificationReq_fields st) ''chargePointVendor'' = Some (str_field st ''chargePointVendor'' (\<lambda>x. bnr_ChargePointVendor_update (\<lambda>_. x)))"
  "resolve_field (BootNotificationReq_fields st) ''chargePointModel'' = Some (str_field st ''chargePointModel'' (\<lambda>x. bnr_ChargePointModel_update (\<lambda>_. x)))"
  "resolve_field (BootNotificationReq_fields st) ''chargePointSerialNumber'' = Some (str_field st ''chargePointSerialNumber'' (\<lambda>x. bnr_ChargePointSerialNumber_update (\<lambda>_. x)))"
  "resolve_field (BootNotificationReq_fields st) ''chargeBoxSerialNumber'' = Some (str_field st ''chargeBoxSerialNumber'' (\<lambda>x. bnr_ChargeBoxSerialNumber_update (\<lambda>_. x)))"
  "resolve_field (BootNotificationReq_fields st) ''firmwareVersion'' = Some (str_field st ''firmwareVersion'' (\<lambda>x. bnr_FirmwareVersion_update (\<lambda>_. x)))"
  "resolve_field (BootNotificationReq_fields st) ''iccid'' = Some (str_field st ''iccid'' (\<lambda>x. bnr_ICCID_update (\<lambda>_. x)))"
  "resolve_field (BootNotificationReq_fields st) ''imsi'' = Some (str_field st ''imsi'' (\<lambda>x. bnr_IMSI_update (\<lambda>_. x)))"
  "resolve_field (BootNotificationReq_fields st) ''meterType'' = Some (str_field st ''meterType'' (\<lambda>x. bnr_MeterType_update (\<lambda>_. x)))"
  "resolve_field (BootNotificationReq_fields st) ''meterSerialNumber'' = Some (str_field st ''meterSerialNumber'' (\<lambda>x. bnr_MeterSerialNumber_update (\<lambda>_. x)))"
  by (simp_all add: resolve_field_def BootNotificationReq_fields_def)

lemma BootNotificationReq_roundtrip [simp]: "dec_struct ctx ty (BootNotificationReq_fields st) BootNotificationReq_zero (BootNotificationReq_json r) = Inr r"
  unfolding BootNotificationReq_json_def by (rule dec_struct_JObj, cases r) (simp_all add: BootNotificationReq_zero_def dec_roundtrip)

record BootNotificationConf =
  bnc_Status :: string
  bnc_CurrentTime :: string
  bnc_Interval :: int

definition BootNotificationConf_zero :: BootNotificationConf where
  "BootNotificationConf_zero = \<lparr>bnc_Status = [], bnc_CurrentTime = [], bnc_Interval = 0\<rparr>"

definition BootNotificationConf_fields :: "string \<Rightarrow> BootNotificationConf field list" where
  "BootNotificationConf_fields st =
     [str_field st ''status'' (\<lambda>x. bnc_Status_update (\<lambda>_. x)),
      str_field st ''currentTime'' (\<lambda>x. bnc_CurrentTime_update (\<lambda>_. x)),
      int_field st ''interval'' (\<lambda>x. bnc_Interval_update (\<lambda>_. x))]"

definition BootNotificationConf_json :: "BootNotificationConf \<Rightarrow> json" where
  "BootNotificationConf_json r =
     JObj (enc_str ''status'' (bnc_Status r) @
           enc_str ''currentTime'' (bnc_CurrentTime r) @
           enc_int ''interval'' (bnc_Interval r))"

definition BootNotificationConf_ok :: "BootNotificationConf \<Rightarrow> bool" where
  "BootNotificationConf_ok r \<longleftrightarrow> in_int64 (bnc_Interval r)"

lemma BootNotificationConf_resolve [simp]:
  "resolve_field (BootNotificationConf_fields st) ''status'' = Some (str_field st ''status'' (\<lambda>x. bnc_Status_update (\<lambda>_. x)))"
  "resolve_field (BootNotificationConf_fields st) ''currentTime'' = Some (str_field st ''currentTime'' (\<lambda>x. bnc_CurrentTime_update (\<lambda>_. x)))"
  "resolve_field (BootNotificationConf_fields st) ''interval'' = Some (int_field st ''interval'' (\<lambda>x. bnc_Interval_update (\<lambda>_. x)))"
  by (simp_all add: resolve_field_def BootNotificationConf_fields_def)

lemma BootNotificationConf_roundtrip [simp]: "BootNotificationConf_ok r \<Longrightarrow> dec_struct ctx ty (BootNotificationConf_fields st) BootNotificationConf_zero (BootNotificationConf_json r) = Inr r"
  unfolding BootNotificationConf_json_def by (rule dec_struct_JObj, cases r) (simp_all add: BootNotificationConf_zero_def dec_roundtrip BootNotificationConf_ok_def)

record HeartbeatConf =
  hbc_CurrentTime :: string

definition HeartbeatConf_zero :: HeartbeatConf where
  "HeartbeatConf_zero = \<lparr>hbc_CurrentTime = []\<rparr>"

definition HeartbeatConf_fields :: "string \<Rightarrow> HeartbeatConf field list" where
  "HeartbeatConf_fields st =
     [str_field st ''currentTime'' (\<lambda>x. hbc_CurrentTime_update (\<lambda>_. x))]"

definition HeartbeatConf_json :: "HeartbeatConf \<Rightarrow> json" where
  "HeartbeatConf_json r =
     JObj (enc_str ''currentTime'' (hbc_CurrentTime r))"

lemma HeartbeatConf_resolve [simp]:
  "resolve_field (HeartbeatConf_fields st) ''currentTime'' = Some (str_field st ''currentTime'' (\<lambda>x. hbc_CurrentTime_update (\<lambda>_. x)))"
  by (simp_all add: resolve_field_def HeartbeatConf_fields_def)

lemma HeartbeatConf_roundtrip [simp]: "dec_struct ctx ty (HeartbeatConf_fields st) HeartbeatConf_zero (HeartbeatConf_json r) = Inr r"
  unfolding HeartbeatConf_json_def by (rule dec_struct_JObj, cases r) (simp_all add: HeartbeatConf_zero_def dec_roundtrip)

record StatusNotificationReq =
  snr_ConnectorID :: int
  snr_ErrorCode :: string
  snr_Status :: string
  snr_Info :: string
  snr_Timestamp :: string
  snr_VendorID :: string
  snr_VendorErrorCode :: string

definition StatusNotificationReq_zero :: StatusNotificationReq where
  "StatusNotificationReq_zero = \<lparr>snr_ConnectorID = 0, snr_ErrorCode = [], snr_Status = [], snr_Info = [], snr_Timestamp = [], snr_VendorID = [], snr_VendorErrorCode = []\<rparr>"

definition StatusNotificationReq_fields :: "string \<Rightarrow> StatusNotificationReq field list" where
  "StatusNotificationReq_fields st =
     [int_field st ''connectorId'' (\<lambda>x. snr_ConnectorID_update (\<lambda>_. x)),
      str_field st ''errorCode'' (\<lambda>x. snr_ErrorCode_update (\<lambda>_. x)),
      str_field st ''status'' (\<lambda>x. snr_Status_update (\<lambda>_. x)),
      str_field st ''info'' (\<lambda>x. snr_Info_update (\<lambda>_. x)),
      str_field st ''timestamp'' (\<lambda>x. snr_Timestamp_update (\<lambda>_. x)),
      str_field st ''vendorId'' (\<lambda>x. snr_VendorID_update (\<lambda>_. x)),
      str_field st ''vendorErrorCode'' (\<lambda>x. snr_VendorErrorCode_update (\<lambda>_. x))]"

definition StatusNotificationReq_json :: "StatusNotificationReq \<Rightarrow> json" where
  "StatusNotificationReq_json r =
     JObj (enc_int ''connectorId'' (snr_ConnectorID r) @
           enc_str ''errorCode'' (snr_ErrorCode r) @
           enc_str ''status'' (snr_Status r) @
           enc_str_omit ''info'' (snr_Info r) @
           enc_str_omit ''timestamp'' (snr_Timestamp r) @
           enc_str_omit ''vendorId'' (snr_VendorID r) @
           enc_str_omit ''vendorErrorCode'' (snr_VendorErrorCode r))"

definition StatusNotificationReq_ok :: "StatusNotificationReq \<Rightarrow> bool" where
  "StatusNotificationReq_ok r \<longleftrightarrow> in_int64 (snr_ConnectorID r)"

lemma StatusNotificationReq_resolve [simp]:
  "resolve_field (StatusNotificationReq_fields st) ''connectorId'' = Some (int_field st ''connectorId'' (\<lambda>x. snr_ConnectorID_update (\<lambda>_. x)))"
  "resolve_field (StatusNotificationReq_fields st) ''errorCode'' = Some (str_field st ''errorCode'' (\<lambda>x. snr_ErrorCode_update (\<lambda>_. x)))"
  "resolve_field (StatusNotificationReq_fields st) ''status'' = Some (str_field st ''status'' (\<lambda>x. snr_Status_update (\<lambda>_. x)))"
  "resolve_field (StatusNotificationReq_fields st) ''info'' = Some (str_field st ''info'' (\<lambda>x. snr_Info_update (\<lambda>_. x)))"
  "resolve_field (StatusNotificationReq_fields st) ''timestamp'' = Some (str_field st ''timestamp'' (\<lambda>x. snr_Timestamp_update (\<lambda>_. x)))"
  "resolve_field (StatusNotificationReq_fields st) ''vendorId'' = Some (str_field st ''vendorId'' (\<lambda>x. snr_VendorID_update (\<lambda>_. x)))"
  "resolve_field (StatusNotificationReq_fields st) ''vendorErrorCode'' = Some (str_field st ''vendorErrorCode'' (\<lambda>x. snr_VendorErrorCode_update (\<lambda>_. x)))"
  by (simp_all add: resolve_field_def StatusNotificationReq_fields_def)

lemma StatusNotificationReq_roundtrip [simp]: "StatusNotificationReq_ok r \<Longrightarrow> dec_struct ctx ty (StatusNotificationReq_fields st) StatusNotificationReq_zero (StatusNotificationReq_json r) = Inr r"
  unfolding StatusNotificationReq_json_def by (rule dec_struct_JObj, cases r) (simp_all add: StatusNotificationReq_zero_def dec_roundtrip StatusNotificationReq_ok_def)

record AuthorizeReq =
  aur_IDTag :: string

definition AuthorizeReq_zero :: AuthorizeReq where
  "AuthorizeReq_zero = \<lparr>aur_IDTag = []\<rparr>"

definition AuthorizeReq_fields :: "string \<Rightarrow> AuthorizeReq field list" where
  "AuthorizeReq_fields st =
     [str_field st ''idTag'' (\<lambda>x. aur_IDTag_update (\<lambda>_. x))]"

definition AuthorizeReq_json :: "AuthorizeReq \<Rightarrow> json" where
  "AuthorizeReq_json r =
     JObj (enc_str ''idTag'' (aur_IDTag r))"

lemma AuthorizeReq_resolve [simp]:
  "resolve_field (AuthorizeReq_fields st) ''idTag'' = Some (str_field st ''idTag'' (\<lambda>x. aur_IDTag_update (\<lambda>_. x)))"
  by (simp_all add: resolve_field_def AuthorizeReq_fields_def)

lemma AuthorizeReq_roundtrip [simp]: "dec_struct ctx ty (AuthorizeReq_fields st) AuthorizeReq_zero (AuthorizeReq_json r) = Inr r"
  unfolding AuthorizeReq_json_def by (rule dec_struct_JObj, cases r) (simp_all add: AuthorizeReq_zero_def dec_roundtrip)

record AuthorizeConf =
  auc_IDTagInfo :: IDTagInfo

definition AuthorizeConf_zero :: AuthorizeConf where
  "AuthorizeConf_zero = \<lparr>auc_IDTagInfo = IDTagInfo_zero\<rparr>"

definition AuthorizeConf_fields :: "string \<Rightarrow> AuthorizeConf field list" where
  "AuthorizeConf_fields st =
     [struct_field st ''idTagInfo'' ''v16.IDTagInfo'' (IDTagInfo_fields (nested st ''IDTagInfo'' ''idTagInfo'')) auc_IDTagInfo (\<lambda>x. auc_IDTagInfo_update (\<lambda>_. x))]"

definition AuthorizeConf_json :: "AuthorizeConf \<Rightarrow> json" where
  "AuthorizeConf_json r =
     JObj (enc_struct ''idTagInfo'' IDTagInfo_json (auc_IDTagInfo r))"

lemma AuthorizeConf_resolve [simp]:
  "resolve_field (AuthorizeConf_fields st) ''idTagInfo'' = Some (struct_field st ''idTagInfo'' ''v16.IDTagInfo'' (IDTagInfo_fields (nested st ''IDTagInfo'' ''idTagInfo'')) auc_IDTagInfo (\<lambda>x. auc_IDTagInfo_update (\<lambda>_. x)))"
  by (simp_all add: resolve_field_def AuthorizeConf_fields_def)

lemma AuthorizeConf_roundtrip [simp]: "dec_struct ctx ty (AuthorizeConf_fields st) AuthorizeConf_zero (AuthorizeConf_json r) = Inr r"
  unfolding AuthorizeConf_json_def by (rule dec_struct_JObj, cases r) (simp_all add: AuthorizeConf_zero_def dec_roundtrip dec_enc_struct [OF AuthorizeConf_resolve])

record StartTransactionReq =
  str_ConnectorID :: int
  str_IDTag :: string
  str_MeterStart :: int
  str_Timestamp :: string
  str_ReservationID :: "int option"

definition StartTransactionReq_zero :: StartTransactionReq where
  "StartTransactionReq_zero = \<lparr>str_ConnectorID = 0, str_IDTag = [], str_MeterStart = 0, str_Timestamp = [], str_ReservationID = None\<rparr>"

definition StartTransactionReq_fields :: "string \<Rightarrow> StartTransactionReq field list" where
  "StartTransactionReq_fields st =
     [int_field st ''connectorId'' (\<lambda>x. str_ConnectorID_update (\<lambda>_. x)),
      str_field st ''idTag'' (\<lambda>x. str_IDTag_update (\<lambda>_. x)),
      int_field st ''meterStart'' (\<lambda>x. str_MeterStart_update (\<lambda>_. x)),
      str_field st ''timestamp'' (\<lambda>x. str_Timestamp_update (\<lambda>_. x)),
      int_ptr_field st ''reservationId'' (\<lambda>x. str_ReservationID_update (\<lambda>_. x))]"

definition StartTransactionReq_json :: "StartTransactionReq \<Rightarrow> json" where
  "StartTransactionReq_json r =
     JObj (enc_int ''connectorId'' (str_ConnectorID r) @
           enc_str ''idTag'' (str_IDTag r) @
           enc_int ''meterStart'' (str_MeterStart r) @
           enc_str ''timestamp'' (str_Timestamp r) @
           enc_int_ptr_omit ''reservationId'' (str_ReservationID r))"

definition StartTransactionReq_ok :: "StartTransactionReq \<Rightarrow> bool" where
  "StartTransactionReq_ok r \<longleftrightarrow> in_int64 (str_ConnectorID r) \<and> in_int64 (str_MeterStart r) \<and> pred_option in_int64 (str_ReservationID r)"

lemma StartTransactionReq_resolve [simp]:
  "resolve_field (StartTransactionReq_fields st) ''connectorId'' = Some (int_field st ''connectorId'' (\<lambda>x. str_ConnectorID_update (\<lambda>_. x)))"
  "resolve_field (StartTransactionReq_fields st) ''idTag'' = Some (str_field st ''idTag'' (\<lambda>x. str_IDTag_update (\<lambda>_. x)))"
  "resolve_field (StartTransactionReq_fields st) ''meterStart'' = Some (int_field st ''meterStart'' (\<lambda>x. str_MeterStart_update (\<lambda>_. x)))"
  "resolve_field (StartTransactionReq_fields st) ''timestamp'' = Some (str_field st ''timestamp'' (\<lambda>x. str_Timestamp_update (\<lambda>_. x)))"
  "resolve_field (StartTransactionReq_fields st) ''reservationId'' = Some (int_ptr_field st ''reservationId'' (\<lambda>x. str_ReservationID_update (\<lambda>_. x)))"
  by (simp_all add: resolve_field_def StartTransactionReq_fields_def)

lemma StartTransactionReq_roundtrip [simp]: "StartTransactionReq_ok r \<Longrightarrow> dec_struct ctx ty (StartTransactionReq_fields st) StartTransactionReq_zero (StartTransactionReq_json r) = Inr r"
  unfolding StartTransactionReq_json_def by (rule dec_struct_JObj, cases r) (simp_all add: StartTransactionReq_zero_def dec_roundtrip StartTransactionReq_ok_def)

record StartTransactionConf =
  stc_TransactionID :: int
  stc_IDTagInfo :: IDTagInfo

definition StartTransactionConf_zero :: StartTransactionConf where
  "StartTransactionConf_zero = \<lparr>stc_TransactionID = 0, stc_IDTagInfo = IDTagInfo_zero\<rparr>"

definition StartTransactionConf_fields :: "string \<Rightarrow> StartTransactionConf field list" where
  "StartTransactionConf_fields st =
     [int_field st ''transactionId'' (\<lambda>x. stc_TransactionID_update (\<lambda>_. x)),
      struct_field st ''idTagInfo'' ''v16.IDTagInfo'' (IDTagInfo_fields (nested st ''IDTagInfo'' ''idTagInfo'')) stc_IDTagInfo (\<lambda>x. stc_IDTagInfo_update (\<lambda>_. x))]"

definition StartTransactionConf_json :: "StartTransactionConf \<Rightarrow> json" where
  "StartTransactionConf_json r =
     JObj (enc_int ''transactionId'' (stc_TransactionID r) @
           enc_struct ''idTagInfo'' IDTagInfo_json (stc_IDTagInfo r))"

definition StartTransactionConf_ok :: "StartTransactionConf \<Rightarrow> bool" where
  "StartTransactionConf_ok r \<longleftrightarrow> in_int64 (stc_TransactionID r)"

lemma StartTransactionConf_resolve [simp]:
  "resolve_field (StartTransactionConf_fields st) ''transactionId'' = Some (int_field st ''transactionId'' (\<lambda>x. stc_TransactionID_update (\<lambda>_. x)))"
  "resolve_field (StartTransactionConf_fields st) ''idTagInfo'' = Some (struct_field st ''idTagInfo'' ''v16.IDTagInfo'' (IDTagInfo_fields (nested st ''IDTagInfo'' ''idTagInfo'')) stc_IDTagInfo (\<lambda>x. stc_IDTagInfo_update (\<lambda>_. x)))"
  by (simp_all add: resolve_field_def StartTransactionConf_fields_def)

lemma StartTransactionConf_roundtrip [simp]: "StartTransactionConf_ok r \<Longrightarrow> dec_struct ctx ty (StartTransactionConf_fields st) StartTransactionConf_zero (StartTransactionConf_json r) = Inr r"
  unfolding StartTransactionConf_json_def by (rule dec_struct_JObj, cases r) (simp_all add: StartTransactionConf_zero_def dec_roundtrip StartTransactionConf_ok_def dec_enc_struct [OF StartTransactionConf_resolve(2)])

record StopTransactionReq =
  spr_TransactionID :: int
  spr_MeterStop :: int
  spr_Timestamp :: string
  spr_IDTag :: string
  spr_Reason :: string

definition StopTransactionReq_zero :: StopTransactionReq where
  "StopTransactionReq_zero = \<lparr>spr_TransactionID = 0, spr_MeterStop = 0, spr_Timestamp = [], spr_IDTag = [], spr_Reason = []\<rparr>"

definition StopTransactionReq_fields :: "string \<Rightarrow> StopTransactionReq field list" where
  "StopTransactionReq_fields st =
     [int_field st ''transactionId'' (\<lambda>x. spr_TransactionID_update (\<lambda>_. x)),
      int_field st ''meterStop'' (\<lambda>x. spr_MeterStop_update (\<lambda>_. x)),
      str_field st ''timestamp'' (\<lambda>x. spr_Timestamp_update (\<lambda>_. x)),
      str_field st ''idTag'' (\<lambda>x. spr_IDTag_update (\<lambda>_. x)),
      str_field st ''reason'' (\<lambda>x. spr_Reason_update (\<lambda>_. x))]"

definition StopTransactionReq_json :: "StopTransactionReq \<Rightarrow> json" where
  "StopTransactionReq_json r =
     JObj (enc_int ''transactionId'' (spr_TransactionID r) @
           enc_int ''meterStop'' (spr_MeterStop r) @
           enc_str ''timestamp'' (spr_Timestamp r) @
           enc_str_omit ''idTag'' (spr_IDTag r) @
           enc_str_omit ''reason'' (spr_Reason r))"

definition StopTransactionReq_ok :: "StopTransactionReq \<Rightarrow> bool" where
  "StopTransactionReq_ok r \<longleftrightarrow> in_int64 (spr_TransactionID r) \<and> in_int64 (spr_MeterStop r)"

lemma StopTransactionReq_resolve [simp]:
  "resolve_field (StopTransactionReq_fields st) ''transactionId'' = Some (int_field st ''transactionId'' (\<lambda>x. spr_TransactionID_update (\<lambda>_. x)))"
  "resolve_field (StopTransactionReq_fields st) ''meterStop'' = Some (int_field st ''meterStop'' (\<lambda>x. spr_MeterStop_update (\<lambda>_. x)))"
  "resolve_field (StopTransactionReq_fields st) ''timestamp'' = Some (str_field st ''timestamp'' (\<lambda>x. spr_Timestamp_update (\<lambda>_. x)))"
  "resolve_field (StopTransactionReq_fields st) ''idTag'' = Some (str_field st ''idTag'' (\<lambda>x. spr_IDTag_update (\<lambda>_. x)))"
  "resolve_field (StopTransactionReq_fields st) ''reason'' = Some (str_field st ''reason'' (\<lambda>x. spr_Reason_update (\<lambda>_. x)))"
  by (simp_all add: resolve_field_def StopTransactionReq_fields_def)

lemma StopTransactionReq_roundtrip [simp]: "StopTransactionReq_ok r \<Longrightarrow> dec_struct ctx ty (StopTransactionReq_fields st) StopTransactionReq_zero (StopTransactionReq_json r) = Inr r"
  unfolding StopTransactionReq_json_def by (rule dec_struct_JObj, cases r) (simp_all add: StopTransactionReq_zero_def dec_roundtrip StopTransactionReq_ok_def)

record StopTransactionConf =
  spc_IDTagInfo :: "IDTagInfo option"

definition StopTransactionConf_zero :: StopTransactionConf where
  "StopTransactionConf_zero = \<lparr>spc_IDTagInfo = None\<rparr>"

definition StopTransactionConf_fields :: "string \<Rightarrow> StopTransactionConf field list" where
  "StopTransactionConf_fields st =
     [ptr_field st ''idTagInfo'' ''v16.IDTagInfo'' (IDTagInfo_fields (nested st ''IDTagInfo'' ''idTagInfo'')) IDTagInfo_zero spc_IDTagInfo (\<lambda>x. spc_IDTagInfo_update (\<lambda>_. x))]"

definition StopTransactionConf_json :: "StopTransactionConf \<Rightarrow> json" where
  "StopTransactionConf_json r =
     JObj (enc_ptr_omit ''idTagInfo'' IDTagInfo_json (spc_IDTagInfo r))"

lemma StopTransactionConf_resolve [simp]:
  "resolve_field (StopTransactionConf_fields st) ''idTagInfo'' = Some (ptr_field st ''idTagInfo'' ''v16.IDTagInfo'' (IDTagInfo_fields (nested st ''IDTagInfo'' ''idTagInfo'')) IDTagInfo_zero spc_IDTagInfo (\<lambda>x. spc_IDTagInfo_update (\<lambda>_. x)))"
  by (simp_all add: resolve_field_def StopTransactionConf_fields_def)

lemma StopTransactionConf_roundtrip [simp]: "dec_struct ctx ty (StopTransactionConf_fields st) StopTransactionConf_zero (StopTransactionConf_json r) = Inr r"
  unfolding StopTransactionConf_json_def by (rule dec_struct_JObj, cases r, cases "spc_IDTagInfo r") (simp_all add: StopTransactionConf_zero_def dec_roundtrip enc_ptr_omit_def ptr_field_def IDTagInfo_json_not_null)

record SampledValue =
  smv_Value :: string
  smv_Measurand :: string
  smv_Unit :: string
  smv_Context :: string
  smv_Phase :: string
  smv_Location :: string
  smv_Format :: string

definition SampledValue_zero :: SampledValue where
  "SampledValue_zero = \<lparr>smv_Value = [], smv_Measurand = [], smv_Unit = [], smv_Context = [], smv_Phase = [], smv_Location = [], smv_Format = []\<rparr>"

definition SampledValue_fields :: "string \<Rightarrow> SampledValue field list" where
  "SampledValue_fields st =
     [str_field st ''value'' (\<lambda>x. smv_Value_update (\<lambda>_. x)),
      str_field st ''measurand'' (\<lambda>x. smv_Measurand_update (\<lambda>_. x)),
      str_field st ''unit'' (\<lambda>x. smv_Unit_update (\<lambda>_. x)),
      str_field st ''context'' (\<lambda>x. smv_Context_update (\<lambda>_. x)),
      str_field st ''phase'' (\<lambda>x. smv_Phase_update (\<lambda>_. x)),
      str_field st ''location'' (\<lambda>x. smv_Location_update (\<lambda>_. x)),
      str_field st ''format'' (\<lambda>x. smv_Format_update (\<lambda>_. x))]"

definition SampledValue_json :: "SampledValue \<Rightarrow> json" where
  "SampledValue_json r =
     JObj (enc_str ''value'' (smv_Value r) @
           enc_str_omit ''measurand'' (smv_Measurand r) @
           enc_str_omit ''unit'' (smv_Unit r) @
           enc_str_omit ''context'' (smv_Context r) @
           enc_str_omit ''phase'' (smv_Phase r) @
           enc_str_omit ''location'' (smv_Location r) @
           enc_str_omit ''format'' (smv_Format r))"

lemma SampledValue_resolve [simp]:
  "resolve_field (SampledValue_fields st) ''value'' = Some (str_field st ''value'' (\<lambda>x. smv_Value_update (\<lambda>_. x)))"
  "resolve_field (SampledValue_fields st) ''measurand'' = Some (str_field st ''measurand'' (\<lambda>x. smv_Measurand_update (\<lambda>_. x)))"
  "resolve_field (SampledValue_fields st) ''unit'' = Some (str_field st ''unit'' (\<lambda>x. smv_Unit_update (\<lambda>_. x)))"
  "resolve_field (SampledValue_fields st) ''context'' = Some (str_field st ''context'' (\<lambda>x. smv_Context_update (\<lambda>_. x)))"
  "resolve_field (SampledValue_fields st) ''phase'' = Some (str_field st ''phase'' (\<lambda>x. smv_Phase_update (\<lambda>_. x)))"
  "resolve_field (SampledValue_fields st) ''location'' = Some (str_field st ''location'' (\<lambda>x. smv_Location_update (\<lambda>_. x)))"
  "resolve_field (SampledValue_fields st) ''format'' = Some (str_field st ''format'' (\<lambda>x. smv_Format_update (\<lambda>_. x)))"
  by (simp_all add: resolve_field_def SampledValue_fields_def)

lemma SampledValue_roundtrip [simp]: "dec_struct ctx ty (SampledValue_fields st) SampledValue_zero (SampledValue_json r) = Inr r"
  unfolding SampledValue_json_def by (rule dec_struct_JObj, cases r) (simp_all add: SampledValue_zero_def dec_roundtrip)

record MeterValue =
  mev_Timestamp :: string
  mev_SampledValue :: "SampledValue list"

definition MeterValue_zero :: MeterValue where
  "MeterValue_zero = \<lparr>mev_Timestamp = [], mev_SampledValue = []\<rparr>"

definition MeterValue_fields :: "string \<Rightarrow> MeterValue field list" where
  "MeterValue_fields st =
     [str_field st ''timestamp'' (\<lambda>x. mev_Timestamp_update (\<lambda>_. x)),
      structs_field st ''sampledValue'' ''v16.SampledValue'' (SampledValue_fields (nested st ''SampledValue'' ''sampledValue'')) SampledValue_zero (\<lambda>x. mev_SampledValue_update (\<lambda>_. x))]"

definition MeterValue_json :: "MeterValue \<Rightarrow> json" where
  "MeterValue_json r =
     JObj (enc_str ''timestamp'' (mev_Timestamp r) @
           enc_structs ''sampledValue'' SampledValue_json (mev_SampledValue r))"

lemma MeterValue_resolve [simp]:
  "resolve_field (MeterValue_fields st) ''timestamp'' = Some (str_field st ''timestamp'' (\<lambda>x. mev_Timestamp_update (\<lambda>_. x)))"
  "resolve_field (MeterValue_fields st) ''sampledValue'' = Some (structs_field st ''sampledValue'' ''v16.SampledValue'' (SampledValue_fields (nested st ''SampledValue'' ''sampledValue'')) SampledValue_zero (\<lambda>x. mev_SampledValue_update (\<lambda>_. x)))"
  by (simp_all add: resolve_field_def MeterValue_fields_def)

lemma MeterValue_roundtrip [simp]: "dec_struct ctx ty (MeterValue_fields st) MeterValue_zero (MeterValue_json r) = Inr r"
  unfolding MeterValue_json_def by (rule dec_struct_JObj, cases r) (simp_all add: MeterValue_zero_def dec_roundtrip dec_enc_structs [OF MeterValue_resolve(2)])

record MeterValuesReq =
  mvr_ConnectorID :: int
  mvr_TransactionID :: "int option"
  mvr_MeterValue :: "MeterValue list"

definition MeterValuesReq_zero :: MeterValuesReq where
  "MeterValuesReq_zero = \<lparr>mvr_ConnectorID = 0, mvr_TransactionID = None, mvr_MeterValue = []\<rparr>"

definition MeterValuesReq_fields :: "string \<Rightarrow> MeterValuesReq field list" where
  "MeterValuesReq_fields st =
     [int_field st ''connectorId'' (\<lambda>x. mvr_ConnectorID_update (\<lambda>_. x)),
      int_ptr_field st ''transactionId'' (\<lambda>x. mvr_TransactionID_update (\<lambda>_. x)),
      structs_field st ''meterValue'' ''v16.MeterValue'' (MeterValue_fields (nested st ''MeterValue'' ''meterValue'')) MeterValue_zero (\<lambda>x. mvr_MeterValue_update (\<lambda>_. x))]"

definition MeterValuesReq_json :: "MeterValuesReq \<Rightarrow> json" where
  "MeterValuesReq_json r =
     JObj (enc_int ''connectorId'' (mvr_ConnectorID r) @
           enc_int_ptr_omit ''transactionId'' (mvr_TransactionID r) @
           enc_structs ''meterValue'' MeterValue_json (mvr_MeterValue r))"

definition MeterValuesReq_ok :: "MeterValuesReq \<Rightarrow> bool" where
  "MeterValuesReq_ok r \<longleftrightarrow> in_int64 (mvr_ConnectorID r) \<and> pred_option in_int64 (mvr_TransactionID r)"

lemma MeterValuesReq_resolve [simp]:
  "resolve_field (MeterValuesReq_fields st) ''connectorId'' = Some (int_field st ''connectorId'' (\<lambda>x. mvr_ConnectorID_update (\<lambda>_. x)))"
  "resolve_field (MeterValuesReq_fields st) ''transactionId'' = Some (int_ptr_field st ''transactionId'' (\<lambda>x. mvr_TransactionID_update (\<lambda>_. x)))"
  "resolve_field (MeterValuesReq_fields st) ''meterValue'' = Some (structs_field st ''meterValue'' ''v16.MeterValue'' (MeterValue_fields (nested st ''MeterValue'' ''meterValue'')) MeterValue_zero (\<lambda>x. mvr_MeterValue_update (\<lambda>_. x)))"
  by (simp_all add: resolve_field_def MeterValuesReq_fields_def)

lemma MeterValuesReq_roundtrip [simp]: "MeterValuesReq_ok r \<Longrightarrow> dec_struct ctx ty (MeterValuesReq_fields st) MeterValuesReq_zero (MeterValuesReq_json r) = Inr r"
  unfolding MeterValuesReq_json_def by (rule dec_struct_JObj, cases r) (simp_all add: MeterValuesReq_zero_def dec_roundtrip MeterValuesReq_ok_def dec_enc_structs [OF MeterValuesReq_resolve(3)])

record DataTransferReq =
  dtr_VendorID :: string
  dtr_MessageID :: string
  dtr_Data :: string

definition DataTransferReq_zero :: DataTransferReq where
  "DataTransferReq_zero = \<lparr>dtr_VendorID = [], dtr_MessageID = [], dtr_Data = []\<rparr>"

definition DataTransferReq_fields :: "string \<Rightarrow> DataTransferReq field list" where
  "DataTransferReq_fields st =
     [str_field st ''vendorId'' (\<lambda>x. dtr_VendorID_update (\<lambda>_. x)),
      str_field st ''messageId'' (\<lambda>x. dtr_MessageID_update (\<lambda>_. x)),
      str_field st ''data'' (\<lambda>x. dtr_Data_update (\<lambda>_. x))]"

definition DataTransferReq_json :: "DataTransferReq \<Rightarrow> json" where
  "DataTransferReq_json r =
     JObj (enc_str ''vendorId'' (dtr_VendorID r) @
           enc_str_omit ''messageId'' (dtr_MessageID r) @
           enc_str_omit ''data'' (dtr_Data r))"

lemma DataTransferReq_resolve [simp]:
  "resolve_field (DataTransferReq_fields st) ''vendorId'' = Some (str_field st ''vendorId'' (\<lambda>x. dtr_VendorID_update (\<lambda>_. x)))"
  "resolve_field (DataTransferReq_fields st) ''messageId'' = Some (str_field st ''messageId'' (\<lambda>x. dtr_MessageID_update (\<lambda>_. x)))"
  "resolve_field (DataTransferReq_fields st) ''data'' = Some (str_field st ''data'' (\<lambda>x. dtr_Data_update (\<lambda>_. x)))"
  by (simp_all add: resolve_field_def DataTransferReq_fields_def)

lemma DataTransferReq_roundtrip [simp]: "dec_struct ctx ty (DataTransferReq_fields st) DataTransferReq_zero (DataTransferReq_json r) = Inr r"
  unfolding DataTransferReq_json_def by (rule dec_struct_JObj, cases r) (simp_all add: DataTransferReq_zero_def dec_roundtrip)

record DataTransferConf =
  dtc_Status :: string
  dtc_Data :: string

definition DataTransferConf_zero :: DataTransferConf where
  "DataTransferConf_zero = \<lparr>dtc_Status = [], dtc_Data = []\<rparr>"

definition DataTransferConf_fields :: "string \<Rightarrow> DataTransferConf field list" where
  "DataTransferConf_fields st =
     [str_field st ''status'' (\<lambda>x. dtc_Status_update (\<lambda>_. x)),
      str_field st ''data'' (\<lambda>x. dtc_Data_update (\<lambda>_. x))]"

definition DataTransferConf_json :: "DataTransferConf \<Rightarrow> json" where
  "DataTransferConf_json r =
     JObj (enc_str ''status'' (dtc_Status r) @
           enc_str_omit ''data'' (dtc_Data r))"

lemma DataTransferConf_resolve [simp]:
  "resolve_field (DataTransferConf_fields st) ''status'' = Some (str_field st ''status'' (\<lambda>x. dtc_Status_update (\<lambda>_. x)))"
  "resolve_field (DataTransferConf_fields st) ''data'' = Some (str_field st ''data'' (\<lambda>x. dtc_Data_update (\<lambda>_. x)))"
  by (simp_all add: resolve_field_def DataTransferConf_fields_def)

lemma DataTransferConf_roundtrip [simp]: "dec_struct ctx ty (DataTransferConf_fields st) DataTransferConf_zero (DataTransferConf_json r) = Inr r"
  unfolding DataTransferConf_json_def by (rule dec_struct_JObj, cases r) (simp_all add: DataTransferConf_zero_def dec_roundtrip)

record StatusOnlyReq =
  sor_Status :: string

definition StatusOnlyReq_zero :: StatusOnlyReq where
  "StatusOnlyReq_zero = \<lparr>sor_Status = []\<rparr>"

definition StatusOnlyReq_fields :: "string \<Rightarrow> StatusOnlyReq field list" where
  "StatusOnlyReq_fields st =
     [str_field st ''status'' (\<lambda>x. sor_Status_update (\<lambda>_. x))]"

definition StatusOnlyReq_json :: "StatusOnlyReq \<Rightarrow> json" where
  "StatusOnlyReq_json r =
     JObj (enc_str ''status'' (sor_Status r))"

lemma StatusOnlyReq_resolve [simp]:
  "resolve_field (StatusOnlyReq_fields st) ''status'' = Some (str_field st ''status'' (\<lambda>x. sor_Status_update (\<lambda>_. x)))"
  by (simp_all add: resolve_field_def StatusOnlyReq_fields_def)

lemma StatusOnlyReq_roundtrip [simp]: "dec_struct ctx ty (StatusOnlyReq_fields st) StatusOnlyReq_zero (StatusOnlyReq_json r) = Inr r"
  unfolding StatusOnlyReq_json_def by (rule dec_struct_JObj, cases r) (simp_all add: StatusOnlyReq_zero_def dec_roundtrip)

subsection \<open>Validation of requests\<close>

text \<open>A \<open>nil\<close> error is \<^term>\<open>None\<close>. The statuses a StatusNotification may carry are those of the
  status table, passed as an argument here.\<close>

definition BootNotificationReq_validate :: "BootNotificationReq \<Rightarrow> RPCError option" where
  "BootNotificationReq_validate r =
     (if bnr_ChargePointVendor r = [] then Some (missing ''chargePointVendor'')
      else if bnr_ChargePointModel r = [] then Some (missing ''chargePointModel'')
      else None)"

definition StatusNotificationReq_validate ::
  "(string \<rightharpoonup> 'a) \<Rightarrow> StatusNotificationReq \<Rightarrow> RPCError option" where
  "StatusNotificationReq_validate statuses r =
     (if snr_ConnectorID r < 0 then Some (badValue ''connectorId'' (itoa (snr_ConnectorID r)))
      else if snr_Status r = [] then Some (missing ''status'')
      else if statuses (snr_Status r) = None then Some (badValue ''status'' (snr_Status r))
      else None)"

definition StartTransactionReq_validate :: "StartTransactionReq \<Rightarrow> RPCError option" where
  "StartTransactionReq_validate r =
     (if str_ConnectorID r < 1 then Some (badValue ''connectorId'' (itoa (str_ConnectorID r)))
      else if str_IDTag r = [] then Some (missing ''idTag'')
      else None)"

subsection \<open>Timestamps\<close>

definition formatTime :: "go_time \<Rightarrow> string" where
  "formatTime t = format_rfc3339 False (utc t)"

definition parseTime :: "string \<Rightarrow> go_time \<Rightarrow> go_time" where
  "parseTime s fallback =
     (if s = [] then fallback
      else case parse_rfc3339 s of None \<Rightarrow> fallback | Some t \<Rightarrow> t)"

end
