(* ===== verification/V16_Commands.thy ===== *)
theory V16_Commands
  imports V16_Messages
begin

text \<open>
  The CSMS-to-charger messages of OCPP 1.6-J (\<open>internal/ocpp/v16/commands.go\<close>) with their
  action names and status values, encoded and decoded like the inbound ones.
\<close>

subsection \<open>Constants\<close>

definition ActionReserveNow :: string where "ActionReserveNow = ''ReserveNow''"
definition ActionCancelReservation :: string where "ActionCancelReservation = ''CancelReservation''"
definition ActionRemoteStartTransaction :: string where "ActionRemoteStartTransaction = ''RemoteStartTransaction''"
definition ActionRemoteStopTransaction :: string where "ActionRemoteStopTransaction = ''RemoteStopTransaction''"
definition ActionUnlockConnector :: string where "ActionUnlockConnector = ''UnlockConnector''"
definition ActionTriggerMessage :: string where "ActionTriggerMessage = ''TriggerMessage''"
definition ActionGetConfiguration :: string where "ActionGetConfiguration = ''GetConfiguration''"
definition ActionChangeAvailability :: string where "ActionChangeAvailability = ''ChangeAvailability''"
definition ActionReset :: string where "ActionReset = ''Reset''"
definition CmdAccepted :: string where "CmdAccepted = ''Accepted''"
definition CmdRejected :: string where "CmdRejected = ''Rejected''"
definition CmdScheduled :: string where "CmdScheduled = ''Scheduled''"
definition ReservationAccepted :: string where "ReservationAccepted = ''Accepted''"
definition ReservationFaulted :: string where "ReservationFaulted = ''Faulted''"
definition ReservationOccupied :: string where "ReservationOccupied = ''Occupied''"
definition ReservationRejected :: string where "ReservationRejected = ''Rejected''"
definition ReservationUnavailable :: string where "ReservationUnavailable = ''Unavailable''"
definition UnlockUnlocked :: string where "UnlockUnlocked = ''Unlocked''"
definition UnlockFailed :: string where "UnlockFailed = ''UnlockFailed''"
definition UnlockNotSupported :: string where "UnlockNotSupported = ''NotSupported''"
definition TriggerAccepted :: string where "TriggerAccepted = ''Accepted''"
definition TriggerRejected :: string where "TriggerRejected = ''Rejected''"
definition TriggerNotImplemented :: string where "TriggerNotImplemented = ''NotImplemented''"
definition KeySupportedFeatureProfiles :: string where "KeySupportedFeatureProfiles = ''SupportedFeatureProfiles''"
definition KeyHeartbeatInterval :: string where "KeyHeartbeatInterval = ''HeartbeatInterval''"
definition KeyNumberOfConnectors :: string where "KeyNumberOfConnectors = ''NumberOfConnectors''"
definition AvailabilityInoperative :: string where "AvailabilityInoperative = ''Inoperative''"
definition AvailabilityOperative :: string where "AvailabilityOperative = ''Operative''"
definition ResetHard :: string where "ResetHard = ''Hard''"
definition ResetSoft :: string where "ResetSoft = ''Soft''"

lemmas command_action_defs = ActionReserveNow_def ActionCancelReservation_def ActionRemoteStartTransaction_def ActionRemoteStopTransaction_def ActionUnlockConnector_def ActionTriggerMessage_def ActionGetConfiguration_def ActionChangeAvailability_def ActionReset_def

lemmas command_status_defs = CmdAccepted_def CmdRejected_def CmdScheduled_def ReservationAccepted_def ReservationFaulted_def ReservationOccupied_def ReservationRejected_def ReservationUnavailable_def UnlockUnlocked_def UnlockFailed_def UnlockNotSupported_def TriggerAccepted_def TriggerRejected_def TriggerNotImplemented_def

subsection \<open>Messages\<close>

record ReserveNowReq =
  rnr_ConnectorID :: int
  rnr_ExpiryDate :: string
  rnr_IDTag :: string
  rnr_ParentIDTag :: string
  rnr_ReservationID :: int

definition ReserveNowReq_zero :: ReserveNowReq where
  "ReserveNowReq_zero = \<lparr>rnr_ConnectorID = 0, rnr_ExpiryDate = [], rnr_IDTag = [], rnr_ParentIDTag = [], rnr_ReservationID = 0\<rparr>"

definition ReserveNowReq_fields :: "string \<Rightarrow> ReserveNowReq field list" where
  "ReserveNowReq_fields st =
     [int_field st ''connectorId'' (\<lambda>x. rnr_ConnectorID_update (\<lambda>_. x)),
      str_field st ''expiryDate'' (\<lambda>x. rnr_ExpiryDate_update (\<lambda>_. x)),
      str_field st ''idTag'' (\<lambda>x. rnr_IDTag_update (\<lambda>_. x)),
      str_field st ''parentIdTag'' (\<lambda>x. rnr_ParentIDTag_update (\<lambda>_. x)),
      int_field st ''reservationId'' (\<lambda>x. rnr_ReservationID_update (\<lambda>_. x))]"

definition ReserveNowReq_json :: "ReserveNowReq \<Rightarrow> json" where
  "ReserveNowReq_json r =
     JObj (enc_int ''connectorId'' (rnr_ConnectorID r) @
           enc_str ''expiryDate'' (rnr_ExpiryDate r) @
           enc_str ''idTag'' (rnr_IDTag r) @
           enc_str_omit ''parentIdTag'' (rnr_ParentIDTag r) @
           enc_int ''reservationId'' (rnr_ReservationID r))"

definition ReserveNowReq_ok :: "ReserveNowReq \<Rightarrow> bool" where
  "ReserveNowReq_ok r \<longleftrightarrow> in_int64 (rnr_ConnectorID r) \<and> in_int64 (rnr_ReservationID r)"

lemma ReserveNowReq_resolve [simp]:
  "resolve_field (ReserveNowReq_fields st) ''connectorId'' = Some (int_field st ''connectorId'' (\<lambda>x. rnr_ConnectorID_update (\<lambda>_. x)))"
  "resolve_field (ReserveNowReq_fields st) ''expiryDate'' = Some (str_field st ''expiryDate'' (\<lambda>x. rnr_ExpiryDate_update (\<lambda>_. x)))"
  "resolve_field (ReserveNowReq_fields st) ''idTag'' = Some (str_field st ''idTag'' (\<lambda>x. rnr_IDTag_update (\<lambda>_. x)))"
  "resolve_field (ReserveNowReq_fields st) ''parentIdTag'' = Some (str_field st ''parentIdTag'' (\<lambda>x. rnr_ParentIDTag_update (\<lambda>_. x)))"
  "resolve_field (ReserveNowReq_fields st) ''reservationId'' = Some (int_field st ''reservationId'' (\<lambda>x. rnr_ReservationID_update (\<lambda>_. x)))"
  by (simp_all add: resolve_field_def ReserveNowReq_fields_def)

lemma ReserveNowReq_roundtrip [simp]: "ReserveNowReq_ok r \<Longrightarrow> dec_struct ctx ty (ReserveNowReq_fields st) ReserveNowReq_zero (ReserveNowReq_json r) = Inr r"
  unfolding ReserveNowReq_json_def by (rule dec_struct_JObj, cases r) (simp_all add: ReserveNowReq_zero_def dec_roundtrip ReserveNowReq_ok_def)

record ReserveNowConf =
  rnc_Status :: string

definition ReserveNowConf_zero :: ReserveNowConf where
  "ReserveNowConf_zero = \<lparr>rnc_Status = []\<rparr>"

definition ReserveNowConf_fields :: "string \<Rightarrow> ReserveNowConf field list" where
  "ReserveNowConf_fields st =
     [str_field st ''status'' (\<lambda>x. rnc_Status_update (\<lambda>_. x))]"

definition ReserveNowConf_json :: "ReserveNowConf \<Rightarrow> json" where
  "ReserveNowConf_json r =
     JObj (enc_str ''status'' (rnc_Status r))"

lemma ReserveNowConf_resolve [simp]:
  "resolve_field (ReserveNowConf_fields st) ''status'' = Some (str_field st ''status'' (\<lambda>x. rnc_Status_update (\<lambda>_. x)))"
  by (simp_all add: resolve_field_def ReserveNowConf_fields_def)

lemma ReserveNowConf_roundtrip [simp]: "dec_struct ctx ty (ReserveNowConf_fields st) ReserveNowConf_zero (ReserveNowConf_json r) = Inr r"
  unfolding ReserveNowConf_json_def by (rule dec_struct_JObj, cases r) (simp_all add: ReserveNowConf_zero_def dec_roundtrip)

record CancelReservationReq =
  crr_ReservationID :: int

definition CancelReservationReq_zero :: CancelReservationReq where
  "CancelReservationReq_zero = \<lparr>crr_ReservationID = 0\<rparr>"

definition CancelReservationReq_fields :: "string \<Rightarrow> CancelReservationReq field list" where
  "CancelReservationReq_fields st =
     [int_field st ''reservationId'' (\<lambda>x. crr_ReservationID_update (\<lambda>_. x))]"

definition CancelReservationReq_json :: "CancelReservationReq \<Rightarrow> json" where
  "CancelReservationReq_json r =
     JObj (enc_int ''reservationId'' (crr_ReservationID r))"

definition CancelReservationReq_ok :: "CancelReservationReq \<Rightarrow> bool" where
  "CancelReservationReq_ok r \<longleftrightarrow> in_int64 (crr_ReservationID r)"

lemma CancelReservationReq_resolve [simp]:
  "resolve_field (CancelReservationReq_fields st) ''reservationId'' = Some (int_field st ''reservationId'' (\<lambda>x. crr_ReservationID_update (\<lambda>_. x)))"
  by (simp_all add: resolve_field_def CancelReservationReq_fields_def)

lemma CancelReservationReq_roundtrip [simp]: "CancelReservationReq_ok r \<Longrightarrow> dec_struct ctx ty (CancelReservationReq_fields st) CancelReservationReq_zero (CancelReservationReq_json r) = Inr r"
  unfolding CancelReservationReq_json_def by (rule dec_struct_JObj, cases r) (simp_all add: CancelReservationReq_zero_def dec_roundtrip CancelReservationReq_ok_def)

record CancelReservationConf =
  crc_Status :: string

definition CancelReservationConf_zero :: CancelReservationConf where
  "CancelReservationConf_zero = \<lparr>crc_Status = []\<rparr>"

definition CancelReservationConf_fields :: "string \<Rightarrow> CancelReservationConf field list" where
  "CancelReservationConf_fields st =
     [str_field st ''status'' (\<lambda>x. crc_Status_update (\<lambda>_. x))]"

definition CancelReservationConf_json :: "CancelReservationConf \<Rightarrow> json" where
  "CancelReservationConf_json r =
     JObj (enc_str ''status'' (crc_Status r))"

lemma CancelReservationConf_resolve [simp]:
  "resolve_field (CancelReservationConf_fields st) ''status'' = Some (str_field st ''status'' (\<lambda>x. crc_Status_update (\<lambda>_. x)))"
  by (simp_all add: resolve_field_def CancelReservationConf_fields_def)

lemma CancelReservationConf_roundtrip [simp]: "dec_struct ctx ty (CancelReservationConf_fields st) CancelReservationConf_zero (CancelReservationConf_json r) = Inr r"
  unfolding CancelReservationConf_json_def by (rule dec_struct_JObj, cases r) (simp_all add: CancelReservationConf_zero_def dec_roundtrip)

record RemoteStartTransactionReq =
  rsr_ConnectorID :: "int option"
  rsr_IDTag :: string

definition RemoteStartTransactionReq_zero :: RemoteStartTransactionReq where
  "RemoteStartTransactionReq_zero = \<lparr>rsr_ConnectorID = None, rsr_IDTag = []\<rparr>"

definition RemoteStartTransactionReq_fields :: "string \<Rightarrow> RemoteStartTransactionReq field list" where
  "RemoteStartTransactionReq_fields st =
     [int_ptr_field st ''connectorId'' (\<lambda>x. rsr_ConnectorID_update (\<lambda>_. x)),
      str_field st ''idTag'' (\<lambda>x. rsr_IDTag_update (\<lambda>_. x))]"

definition RemoteStartTransactionReq_json :: "RemoteStartTransactionReq \<Rightarrow> json" where
  "RemoteStartTransactionReq_json r =
     JObj (enc_int_ptr_omit ''connectorId'' (rsr_ConnectorID r) @
           enc_str ''idTag'' (rsr_IDTag r))"

definition RemoteStartTransactionReq_ok :: "RemoteStartTransactionReq \<Rightarrow> bool" where
  "RemoteStartTransactionReq_ok r \<longleftrightarrow> pred_option in_int64 (rsr_ConnectorID r)"

lemma RemoteStartTransactionReq_resolve [simp]:
  "resolve_field (RemoteStartTransactionReq_fields st) ''connectorId'' = Some (int_ptr_field st ''connectorId'' (\<lambda>x. rsr_ConnectorID_update (\<lambda>_. x)))"
  "resolve_field (RemoteStartTransactionReq_fields st) ''idTag'' = Some (str_field st ''idTag'' (\<lambda>x. rsr_IDTag_update (\<lambda>_. x)))"
  by (simp_all add: resolve_field_def RemoteStartTransactionReq_fields_def)

lemma RemoteStartTransactionReq_roundtrip [simp]: "RemoteStartTransactionReq_ok r \<Longrightarrow> dec_struct ctx ty (RemoteStartTransactionReq_fields st) RemoteStartTransactionReq_zero (RemoteStartTransactionReq_json r) = Inr r"
  unfolding RemoteStartTransactionReq_json_def by (rule dec_struct_JObj, cases r) (simp_all add: RemoteStartTransactionReq_zero_def dec_roundtrip RemoteStartTransactionReq_ok_def)

record RemoteStartTransactionConf =
  rsc_Status :: string

definition RemoteStartTransactionConf_zero :: RemoteStartTransactionConf where
  "RemoteStartTransactionConf_zero = \<lparr>rsc_Status = []\<rparr>"

definition RemoteStartTransactionConf_fields :: "string \<Rightarrow> RemoteStartTransactionConf field list" where
  "RemoteStartTransactionConf_fields st =
     [str_field st ''status'' (\<lambda>x. rsc_Status_update (\<lambda>_. x))]"

definition RemoteStartTransactionConf_json :: "RemoteStartTransactionConf \<Rightarrow> json" where
  "RemoteStartTransactionConf_json r =
     JObj (enc_str ''status'' (rsc_Status r))"

lemma RemoteStartTransactionConf_resolve [simp]:
  "resolve_field (RemoteStartTransactionConf_fields st) ''status'' = Some (str_field st ''status'' (\<lambda>x. rsc_Status_update (\<lambda>_. x)))"
  by (simp_all add: resolve_field_def RemoteStartTransactionConf_fields_def)

lemma RemoteStartTransactionConf_roundtrip [simp]: "dec_struct ctx ty (RemoteStartTransactionConf_fields st) RemoteStartTransactionConf_zero (RemoteStartTransactionConf_json r) = Inr r"
  unfolding RemoteStartTransactionConf_json_def by (rule dec_struct_JObj, cases r) (simp_all add: RemoteStartTransactionConf_zero_def dec_roundtrip)

record RemoteStopTransactionReq =
  rpr_TransactionID :: int

definition RemoteStopTransactionReq_zero :: RemoteStopTransactionReq where
  "RemoteStopTransactionReq_zero = \<lparr>rpr_TransactionID = 0\<rparr>"

definition RemoteStopTransactionReq_fields :: "string \<Rightarrow> RemoteStopTransactionReq field list" where
  "RemoteStopTransactionReq_fields st =
     [int_field st ''transactionId'' (\<lambda>x. rpr_TransactionID_update (\<lambda>_. x))]"

definition RemoteStopTransactionReq_json :: "RemoteStopTransactionReq \<Rightarrow> json" where
  "RemoteStopTransactionReq_json r =
     JObj (enc_int ''transactionId'' (rpr_TransactionID r))"

definition RemoteStopTransactionReq_ok :: "RemoteStopTransactionReq \<Rightarrow> bool" where
  "RemoteStopTransactionReq_ok r \<longleftrightarrow> in_int64 (rpr_TransactionID r)"

lemma RemoteStopTransactionReq_resolve [simp]:
  "resolve_field (RemoteStopTransactionReq_fields st) ''transactionId'' = Some (int_field st ''transactionId'' (\<lambda>x. rpr_TransactionID_update (\<lambda>_. x)))"
  by (simp_all add: resolve_field_def RemoteStopTransactionReq_fields_def)

lemma RemoteStopTransactionReq_roundtrip [simp]: "RemoteStopTransactionReq_ok r \<Longrightarrow> dec_struct ctx ty (RemoteStopTransactionReq_fields st) RemoteStopTransactionReq_zero (RemoteStopTransactionReq_json r) = Inr r"
  unfolding RemoteStopTransactionReq_json_def by (rule dec_struct_JObj, cases r) (simp_all add: RemoteStopTransactionReq_zero_def dec_roundtrip RemoteStopTransactionReq_ok_def)

record RemoteStopTransactionConf =
  rpc_Status :: string

definition RemoteStopTransactionConf_zero :: RemoteStopTransactionConf where
  "RemoteStopTransactionConf_zero = \<lparr>rpc_Status = []\<rparr>"

definition RemoteStopTransactionConf_fields :: "string \<Rightarrow> RemoteStopTransactionConf field list" where
  "RemoteStopTransactionConf_fields st =
     [str_field st ''status'' (\<lambda>x. rpc_Status_update (\<lambda>_. x))]"

definition RemoteStopTransactionConf_json :: "RemoteStopTransactionConf \<Rightarrow> json" where
  "RemoteStopTransactionConf_json r =
     JObj (enc_str ''status'' (rpc_Status r))"

lemma RemoteStopTransactionConf_resolve [simp]:
  "resolve_field (RemoteStopTransactionConf_fields st) ''status'' = Some (str_field st ''status'' (\<lambda>x. rpc_Status_update (\<lambda>_. x)))"
  by (simp_all add: resolve_field_def RemoteStopTransactionConf_fields_def)

lemma RemoteStopTransactionConf_roundtrip [simp]: "dec_struct ctx ty (RemoteStopTransactionConf_fields st) RemoteStopTransactionConf_zero (RemoteStopTransactionConf_json r) = Inr r"
  unfolding RemoteStopTransactionConf_json_def by (rule dec_struct_JObj, cases r) (simp_all add: RemoteStopTransactionConf_zero_def dec_roundtrip)

record UnlockConnectorReq =
  ucr_ConnectorID :: int

definition UnlockConnectorReq_zero :: UnlockConnectorReq where
  "UnlockConnectorReq_zero = \<lparr>ucr_ConnectorID = 0\<rparr>"

definition UnlockConnectorReq_fields :: "string \<Rightarrow> UnlockConnectorReq field list" where
  "UnlockConnectorReq_fields st =
     [int_field st ''connectorId'' (\<lambda>x. ucr_ConnectorID_update (\<lambda>_. x))]"

definition UnlockConnectorReq_json :: "UnlockConnectorReq \<Rightarrow> json" where
  "UnlockConnectorReq_json r =
     JObj (enc_int ''connectorId'' (ucr_ConnectorID r))"

definition UnlockConnectorReq_ok :: "UnlockConnectorReq \<Rightarrow> bool" where
  "UnlockConnectorReq_ok r \<longleftrightarrow> in_int64 (ucr_ConnectorID r)"

lemma UnlockConnectorReq_resolve [simp]:
  "resolve_field (UnlockConnectorReq_fields st) ''connectorId'' = Some (int_field st ''connectorId'' (\<lambda>x. ucr_ConnectorID_update (\<lambda>_. x)))"
  by (simp_all add: resolve_field_def UnlockConnectorReq_fields_def)

lemma UnlockConnectorReq_roundtrip [simp]: "UnlockConnectorReq_ok r \<Longrightarrow> dec_struct ctx ty (UnlockConnectorReq_fields st) UnlockConnectorReq_zero (UnlockConnectorReq_json r) = Inr r"
  unfolding UnlockConnectorReq_json_def by (rule dec_struct_JObj, cases r) (simp_all add: UnlockConnectorReq_zero_def dec_roundtrip UnlockConnectorReq_ok_def)

record UnlockConnectorConf =
  ucc_Status :: string

definition UnlockConnectorConf_zero :: UnlockConnectorConf where
  "UnlockConnectorConf_zero = \<lparr>ucc_Status = []\<rparr>"

definition UnlockConnectorConf_fields :: "string \<Rightarrow> UnlockConnectorConf field list" where
  "UnlockConnectorConf_fields st =
     [str_field st ''status'' (\<lambda>x. ucc_Status_update (\<lambda>_. x))]"

definition UnlockConnectorConf_json :: "UnlockConnectorConf \<Rightarrow> json" where
  "UnlockConnectorConf_json r =
     JObj (enc_str ''status'' (ucc_Status r))"

lemma UnlockConnectorConf_resolve [simp]:
  "resolve_field (UnlockConnectorConf_fields st) ''status'' = Some (str_field st ''status'' (\<lambda>x. ucc_Status_update (\<lambda>_. x)))"
  by (simp_all add: resolve_field_def UnlockConnectorConf_fields_def)

lemma UnlockConnectorConf_roundtrip [simp]: "dec_struct ctx ty (UnlockConnectorConf_fields st) UnlockConnectorConf_zero (UnlockConnectorConf_json r) = Inr r"
  unfolding UnlockConnectorConf_json_def by (rule dec_struct_JObj, cases r) (simp_all add: UnlockConnectorConf_zero_def dec_roundtrip)

record TriggerMessageReq =
  tmr_RequestedMessage :: string
  tmr_ConnectorID :: "int option"

definition TriggerMessageReq_zero :: TriggerMessageReq where
  "TriggerMessageReq_zero = \<lparr>tmr_RequestedMessage = [], tmr_ConnectorID = None\<rparr>"

definition TriggerMessageReq_fields :: "string \<Rightarrow> TriggerMessageReq field list" where
  "TriggerMessageReq_fields st =
     [str_field st ''requestedMessage'' (\<lambda>x. tmr_RequestedMessage_update (\<lambda>_. x)),
      int_ptr_field st ''connectorId'' (\<lambda>x. tmr_ConnectorID_update (\<lambda>_. x))]"

definition TriggerMessageReq_json :: "TriggerMessageReq \<Rightarrow> json" where
  "TriggerMessageReq_json r =
     JObj (enc_str ''requestedMessage'' (tmr_RequestedMessage r) @
           enc_int_ptr_omit ''connectorId'' (tmr_ConnectorID r))"

definition TriggerMessageReq_ok :: "TriggerMessageReq \<Rightarrow> bool" where
  "TriggerMessageReq_ok r \<longleftrightarrow> pred_option in_int64 (tmr_ConnectorID r)"

lemma TriggerMessageReq_resolve [simp]:
  "resolve_field (TriggerMessageReq_fields st) ''requestedMessage'' = Some (str_field st ''requestedMessage'' (\<lambda>x. tmr_RequestedMessage_update (\<lambda>_. x)))"
  "resolve_field (TriggerMessageReq_fields st) ''connectorId'' = Some (int_ptr_field st ''connectorId'' (\<lambda>x. tmr_ConnectorID_update (\<lambda>_. x)))"
  by (simp_all add: resolve_field_def TriggerMessageReq_fields_def)

lemma TriggerMessageReq_roundtrip [simp]: "TriggerMessageReq_ok r \<Longrightarrow> dec_struct ctx ty (TriggerMessageReq_fields st) TriggerMessageReq_zero (TriggerMessageReq_json r) = Inr r"
  unfolding TriggerMessageReq_json_def by (rule dec_struct_JObj, cases r) (simp_all add: TriggerMessageReq_zero_def dec_roundtrip TriggerMessageReq_ok_def)

record TriggerMessageConf =
  tmc_Status :: string

definition TriggerMessageConf_zero :: TriggerMessageConf where
  "TriggerMessageConf_zero = \<lparr>tmc_Status = []\<rparr>"

definition TriggerMessageConf_fields :: "string \<Rightarrow> TriggerMessageConf field list" where
  "TriggerMessageConf_fields st =
     [str_field st ''status'' (\<lambda>x. tmc_Status_update (\<lambda>_. x))]"

definition TriggerMessageConf_json :: "TriggerMessageConf \<Rightarrow> json" where
  "TriggerMessageConf_json r =
     JObj (enc_str ''status'' (tmc_Status r))"

lemma TriggerMessageConf_resolve [simp]:
  "resolve_field (TriggerMessageConf_fields st) ''status'' = Some (str_field st ''status'' (\<lambda>x. tmc_Status_update (\<lambda>_. x)))"
  by (simp_all add: resolve_field_def TriggerMessageConf_fields_def)

lemma TriggerMessageConf_roundtrip [simp]: "dec_struct ctx ty (TriggerMessageConf_fields st) TriggerMessageConf_zero (TriggerMessageConf_json r) = Inr r"
  unfolding TriggerMessageConf_json_def by (rule dec_struct_JObj, cases r) (simp_all add: TriggerMessageConf_zero_def dec_roundtrip)

record GetConfigurationReq =
  gcr_Key :: "string list"

definition GetConfigurationReq_zero :: GetConfigurationReq where
  "GetConfigurationReq_zero = \<lparr>gcr_Key = []\<rparr>"

definition GetConfigurationReq_fields :: "string \<Rightarrow> GetConfigurationReq field list" where
  "GetConfigurationReq_fields st =
     [strings_field st ''key'' (\<lambda>x. gcr_Key_update (\<lambda>_. x))]"

definition GetConfigurationReq_json :: "GetConfigurationReq \<Rightarrow> json" where
  "GetConfigurationReq_json r =
     JObj (enc_strings_omit ''key'' (gcr_Key r))"

lemma GetConfigurationReq_resolve [simp]:
  "resolve_field (GetConfigurationReq_fields st) ''key'' = Some (strings_field st ''key'' (\<lambda>x. gcr_Key_update (\<lambda>_. x)))"
  by (simp_all add: resolve_field_def GetConfigurationReq_fields_def)

lemma GetConfigurationReq_roundtrip [simp]: "dec_struct ctx ty (GetConfigurationReq_fields st) GetConfigurationReq_zero (GetConfigurationReq_json r) = Inr r"
  unfolding GetConfigurationReq_json_def by (rule dec_struct_JObj, cases r) (simp_all add: GetConfigurationReq_zero_def dec_roundtrip)

record ConfigurationKey =
  cfk_Key :: string
  cfk_Readonly :: bool
  cfk_Value :: string

definition ConfigurationKey_zero :: ConfigurationKey where
  "ConfigurationKey_zero = \<lparr>cfk_Key = [], cfk_Readonly = False, cfk_Value = []\<rparr>"

definition ConfigurationKey_fields :: "string \<Rightarrow> ConfigurationKey field list" where
  "ConfigurationKey_fields st =
     [str_field st ''key'' (\<lambda>x. cfk_Key_update (\<lambda>_. x)),
      bool_field st ''readonly'' (\<lambda>x. cfk_Readonly_update (\<lambda>_. x)),
      str_field st ''value'' (\<lambda>x. cfk_Value_update (\<lambda>_. x))]"

definition ConfigurationKey_json :: "ConfigurationKey \<Rightarrow> json" where
  "ConfigurationKey_json r =
     JObj (enc_str ''key'' (cfk_Key r) @
           enc_bool ''readonly'' (cfk_Readonly r) @
           enc_str_omit ''value'' (cfk_Value r))"

lemma ConfigurationKey_resolve [simp]:
  "resolve_field (ConfigurationKey_fields st) ''key'' = Some (str_field st ''key'' (\<lambda>x. cfk_Key_update (\<lambda>_. x)))"
  "resolve_field (ConfigurationKey_fields st) ''readonly'' = Some (bool_field st ''readonly'' (\<lambda>x. cfk_Readonly_update (\<lambda>_. x)))"
  "resolve_field (ConfigurationKey_fields st) ''value'' = Some (str_field st ''value'' (\<lambda>x. cfk_Value_update (\<lambda>_. x)))"
  by (simp_all add: resolve_field_def ConfigurationKey_fields_def)

lemma ConfigurationKey_roundtrip [simp]: "dec_struct ctx ty (ConfigurationKey_fields st) ConfigurationKey_zero (ConfigurationKey_json r) = Inr r"
  unfolding ConfigurationKey_json_def by (rule dec_struct_JObj, cases r) (simp_all add: ConfigurationKey_zero_def dec_roundtrip)

record GetConfigurationConf =
  gcc_ConfigurationKey :: "ConfigurationKey list"
  gcc_UnknownKey :: "string list"

definition GetConfigurationConf_zero :: GetConfigurationConf where
  "GetConfigurationConf_zero = \<lparr>gcc_ConfigurationKey = [], gcc_UnknownKey = []\<rparr>"

definition GetConfigurationConf_fields :: "string \<Rightarrow> GetConfigurationConf field list" where
  "GetConfigurationConf_fields st =
     [structs_field st ''configurationKey'' ''v16.ConfigurationKey'' (ConfigurationKey_fields (nested st ''ConfigurationKey'' ''configurationKey'')) ConfigurationKey_zero (\<lambda>x. gcc_ConfigurationKey_update (\<lambda>_. x)),
      strings_field st ''unknownKey'' (\<lambda>x. gcc_UnknownKey_update (\<lambda>_. x))]"

definition GetConfigurationConf_json :: "GetConfigurationConf \<Rightarrow> json" where
  "GetConfigurationConf_json r =
     JObj (enc_structs_omit ''configurationKey'' ConfigurationKey_json (gcc_ConfigurationKey r) @
           enc_strings_omit ''unknownKey'' (gcc_UnknownKey r))"

lemma GetConfigurationConf_resolve [simp]:
  "resolve_field (GetConfigurationConf_fields st) ''configurationKey'' = Some (structs_field st ''configurationKey'' ''v16.ConfigurationKey'' (ConfigurationKey_fields (nested st ''ConfigurationKey'' ''configurationKey'')) ConfigurationKey_zero (\<lambda>x. gcc_ConfigurationKey_update (\<lambda>_. x)))"
  "resolve_field (GetConfigurationConf_fields st) ''unknownKey'' = Some (strings_field st ''unknownKey'' (\<lambda>x. gcc_UnknownKey_update (\<lambda>_. x)))"
  by (simp_all add: resolve_field_def GetConfigurationConf_fields_def)

lemma GetConfigurationConf_roundtrip [simp]: "dec_struct ctx ty (GetConfigurationConf_fields st) GetConfigurationConf_zero (GetConfigurationConf_json r) = Inr r"
  unfolding GetConfigurationConf_json_def by (rule dec_struct_JObj, cases r) (simp_all add: GetConfigurationConf_zero_def dec_roundtrip dec_enc_structs_omit [OF GetConfigurationConf_resolve(1)])

record ChangeAvailabilityReq =
  car_ConnectorID :: int
  car_Type :: string

definition ChangeAvailabilityReq_zero :: ChangeAvailabilityReq where
  "ChangeAvailabilityReq_zero = \<lparr>car_ConnectorID = 0, car_Type = []\<rparr>"

definition ChangeAvailabilityReq_fields :: "string \<Rightarrow> ChangeAvailabilityReq field list" where
  "ChangeAvailabilityReq_fields st =
     [int_field st ''connectorId'' (\<lambda>x. car_ConnectorID_update (\<lambda>_. x)),
      str_field st ''type'' (\<lambda>x. car_Type_update (\<lambda>_. x))]"

definition ChangeAvailabilityReq_json :: "ChangeAvailabilityReq \<Rightarrow> json" where
  "ChangeAvailabilityReq_json r =
     JObj (enc_int ''connectorId'' (car_ConnectorID r) @
           enc_str ''type'' (car_Type r))"

definition ChangeAvailabilityReq_ok :: "ChangeAvailabilityReq \<Rightarrow> bool" where
  "ChangeAvailabilityReq_ok r \<longleftrightarrow> in_int64 (car_ConnectorID r)"

lemma ChangeAvailabilityReq_resolve [simp]:
  "resolve_field (ChangeAvailabilityReq_fields st) ''connectorId'' = Some (int_field st ''connectorId'' (\<lambda>x. car_ConnectorID_update (\<lambda>_. x)))"
  "resolve_field (ChangeAvailabilityReq_fields st) ''type'' = Some (str_field st ''type'' (\<lambda>x. car_Type_update (\<lambda>_. x)))"
  by (simp_all add: resolve_field_def ChangeAvailabilityReq_fields_def)

lemma ChangeAvailabilityReq_roundtrip [simp]: "ChangeAvailabilityReq_ok r \<Longrightarrow> dec_struct ctx ty (ChangeAvailabilityReq_fields st) ChangeAvailabilityReq_zero (ChangeAvailabilityReq_json r) = Inr r"
  unfolding ChangeAvailabilityReq_json_def by (rule dec_struct_JObj, cases r) (simp_all add: ChangeAvailabilityReq_zero_def dec_roundtrip ChangeAvailabilityReq_ok_def)

record ChangeAvailabilityConf =
  cac_Status :: string

definition ChangeAvailabilityConf_zero :: ChangeAvailabilityConf where
  "ChangeAvailabilityConf_zero = \<lparr>cac_Status = []\<rparr>"

definition ChangeAvailabilityConf_fields :: "string \<Rightarrow> ChangeAvailabilityConf field list" where
  "ChangeAvailabilityConf_fields st =
     [str_field st ''status'' (\<lambda>x. cac_Status_update (\<lambda>_. x))]"

definition ChangeAvailabilityConf_json :: "ChangeAvailabilityConf \<Rightarrow> json" where
  "ChangeAvailabilityConf_json r =
     JObj (enc_str ''status'' (cac_Status r))"

lemma ChangeAvailabilityConf_resolve [simp]:
  "resolve_field (ChangeAvailabilityConf_fields st) ''status'' = Some (str_field st ''status'' (\<lambda>x. cac_Status_update (\<lambda>_. x)))"
  by (simp_all add: resolve_field_def ChangeAvailabilityConf_fields_def)

lemma ChangeAvailabilityConf_roundtrip [simp]: "dec_struct ctx ty (ChangeAvailabilityConf_fields st) ChangeAvailabilityConf_zero (ChangeAvailabilityConf_json r) = Inr r"
  unfolding ChangeAvailabilityConf_json_def by (rule dec_struct_JObj, cases r) (simp_all add: ChangeAvailabilityConf_zero_def dec_roundtrip)

record ResetReq =
  rer_Type :: string

definition ResetReq_zero :: ResetReq where
  "ResetReq_zero = \<lparr>rer_Type = []\<rparr>"

definition ResetReq_fields :: "string \<Rightarrow> ResetReq field list" where
  "ResetReq_fields st =
     [str_field st ''type'' (\<lambda>x. rer_Type_update (\<lambda>_. x))]"

definition ResetReq_json :: "ResetReq \<Rightarrow> json" where
  "ResetReq_json r =
     JObj (enc_str ''type'' (rer_Type r))"

lemma ResetReq_resolve [simp]:
  "resolve_field (ResetReq_fields st) ''type'' = Some (str_field st ''type'' (\<lambda>x. rer_Type_update (\<lambda>_. x)))"
  by (simp_all add: resolve_field_def ResetReq_fields_def)

lemma ResetReq_roundtrip [simp]: "dec_struct ctx ty (ResetReq_fields st) ResetReq_zero (ResetReq_json r) = Inr r"
  unfolding ResetReq_json_def by (rule dec_struct_JObj, cases r) (simp_all add: ResetReq_zero_def dec_roundtrip)

record ResetConf =
  rec_Status :: string

definition ResetConf_zero :: ResetConf where
  "ResetConf_zero = \<lparr>rec_Status = []\<rparr>"

definition ResetConf_fields :: "string \<Rightarrow> ResetConf field list" where
  "ResetConf_fields st =
     [str_field st ''status'' (\<lambda>x. rec_Status_update (\<lambda>_. x))]"

definition ResetConf_json :: "ResetConf \<Rightarrow> json" where
  "ResetConf_json r =
     JObj (enc_str ''status'' (rec_Status r))"

lemma ResetConf_resolve [simp]:
  "resolve_field (ResetConf_fields st) ''status'' = Some (str_field st ''status'' (\<lambda>x. rec_Status_update (\<lambda>_. x)))"
  by (simp_all add: resolve_field_def ResetConf_fields_def)

lemma ResetConf_roundtrip [simp]: "dec_struct ctx ty (ResetConf_fields st) ResetConf_zero (ResetConf_json r) = Inr r"
  unfolding ResetConf_json_def by (rule dec_struct_JObj, cases r) (simp_all add: ResetConf_zero_def dec_roundtrip)

end
