(* ===== verification/Core_Event.thy ===== *)
theory Core_Event
  imports Prelude Go_Time "HOL-Library.Sublist"
begin

text \<open>
  The status vocabulary and the event bus of the domain core (\<open>internal/core/status.go\<close> and
  \<open>event.go\<close>). The bus fans events out to buffered channels and never blocks: a subscriber
  whose buffer is full loses the event and its drop counter grows. Results: what a subscriber
  receives and still has buffered is, in order, a subsequence of what was published to it, with
  exactly the counted drops missing; a buffer never exceeds its capacity; and publishing never
  sends on a closed channel.
\<close>

subsection \<open>EVSE status\<close>

text \<open>\<open>StatusUnset\<close> is the zero value of the Go string type, the empty status.\<close>

datatype EVSEStatus =
    StatusAvailable | StatusBlocked | StatusCharging | StatusInoperative | StatusOutOfOrder
  | StatusPlanned | StatusRemoved | StatusReserved | StatusUnknown | StatusUnset

definition status_string :: "EVSEStatus \<Rightarrow> string" where
  "status_string s =
     (case s of StatusAvailable \<Rightarrow> ''AVAILABLE'' | StatusBlocked \<Rightarrow> ''BLOCKED''
      | StatusCharging \<Rightarrow> ''CHARGING'' | StatusInoperative \<Rightarrow> ''INOPERATIVE''
      | StatusOutOfOrder \<Rightarrow> ''OUTOFORDER'' | StatusPlanned \<Rightarrow> ''PLANNED''
      | StatusRemoved \<Rightarrow> ''REMOVED'' | StatusReserved \<Rightarrow> ''RESERVED''
      | StatusUnknown \<Rightarrow> ''UNKNOWN'' | StatusUnset \<Rightarrow> '''')"

definition effectiveStatus :: "bool \<Rightarrow> EVSEStatus \<Rightarrow> EVSEStatus \<Rightarrow> EVSEStatus" where
  "effectiveStatus online station connector =
     (if \<not> online then StatusUnknown
      else if station = StatusOutOfOrder \<or> station = StatusInoperative then station
      else if connector = StatusUnset then StatusUnknown
      else connector)"

subsection \<open>Events\<close>

datatype EventKind =
    EventChargePointConnected | EventChargePointDisconnected | EventBootNotified | EventHeartbeat
  | EventStationStatusChanged | EventEVSEStatusChanged | EventTransactionStarted
  | EventTransactionStopped | EventMeterValues

record Event =
  Kind :: EventKind
  At :: go_time
  ChargePointID :: string
  EVSEUID :: string
  From :: EVSEStatus
  To :: EVSEStatus
  ErrorCode :: string
  TransactionID :: int
  IDTag :: string
  Detail :: string

definition event :: "EventKind \<Rightarrow> go_time \<Rightarrow> string \<Rightarrow> Event" where
  "event k at cp =
     \<lparr>Kind = k, At = at, ChargePointID = cp, EVSEUID = [], From = StatusUnset, To = StatusUnset,
      ErrorCode = [], TransactionID = 0, IDTag = [], Detail = []\<rparr>"

text \<open>The arrow of a status change, in UTF-8.\<close>

definition arrow :: string where
  "arrow = [CHR 0xE2, CHR 0x86, CHR 0x92]"

definition Event_String :: "Event \<Rightarrow> string" where
  "Event_String e =
     (case Kind e of
        EventEVSEStatusChanged \<Rightarrow>
          EVSEUID e @ '' '' @ status_string (From e) @ arrow @ status_string (To e) @
          (if ErrorCode e \<noteq> [] \<and> ErrorCode e \<noteq> ''NoError'' then '' ('' @ ErrorCode e @ '')'' else [])
      | EventStationStatusChanged \<Rightarrow>
          ChargePointID e @ '' station '' @ status_string (From e) @ arrow @ status_string (To e)
      | EventChargePointConnected \<Rightarrow> ChargePointID e @ '' connected''
      | EventChargePointDisconnected \<Rightarrow>
          ChargePointID e @ '' disconnected'' @ (if Detail e \<noteq> [] then '': '' @ Detail e else [])
      | EventBootNotified \<Rightarrow> ChargePointID e @ '' booted ('' @ Detail e @ '')''
      | EventHeartbeat \<Rightarrow> ChargePointID e @ '' heartbeat''
      | EventTransactionStarted \<Rightarrow>
          ChargePointID e @ '' transaction '' @ itoa (TransactionID e) @ '' started on '' @
          EVSEUID e @ '' (tag '' @ IDTag e @ '')''
      | EventTransactionStopped \<Rightarrow>
          ChargePointID e @ '' transaction '' @ itoa (TransactionID e) @ '' stopped''
      | EventMeterValues \<Rightarrow> EVSEUID e @ '' meter values: '' @ Detail e)"

subsection \<open>The bus\<close>

definition subscriberBuffer :: nat where "subscriberBuffer = 256"

text \<open>
  A subscriber object: its name, its channel (the buffered events, oldest first, and whether it
  is closed) and its drop counter.
\<close>

record subscriber =
  sub_name :: string
  sub_ch :: "Event list"
  sub_closed :: bool
  sub_drops :: "64 word"

text \<open>
  The bus: the registered subscribers (the keys of Go's map, as pointers), the subscriber
  objects by pointer, which outlive their registration, and the next fresh pointer.
\<close>

record bus =
  bus_subs :: "nat list"
  bus_store :: "nat \<rightharpoonup> subscriber"
  bus_next :: nat

definition newBus :: bus where
  "newBus = \<lparr>bus_subs = [], bus_store = Map.empty, bus_next = 0\<rparr>"

definition Subscribe :: "string \<Rightarrow> bus \<Rightarrow> nat \<times> bus" where
  "Subscribe name b =
     (let p = bus_next b;
          s = \<lparr>sub_name = name, sub_ch = [], sub_closed = False, sub_drops = 0\<rparr>
      in (p, b\<lparr>bus_subs := p # bus_subs b, bus_store := (bus_store b)(p \<mapsto> s), bus_next := Suc p\<rparr>))"

text \<open>
  The function \<open>Subscribe\<close> returns, in its two parts: deleting the registration under the lock
  and closing the channel after the lock is released. \<open>sync.Once\<close> makes a second call do
  nothing, which the closed flag and the missing registration record.
\<close>

definition cancel_delete :: "nat \<Rightarrow> bus \<Rightarrow> bus" where
  "cancel_delete p b = b\<lparr>bus_subs := removeAll p (bus_subs b)\<rparr>"

definition cancel_close :: "nat \<Rightarrow> bus \<Rightarrow> bus" where
  "cancel_close p b =
     b\<lparr>bus_store := (bus_store b)(p := map_option (\<lambda>s. s\<lparr>sub_closed := True\<rparr>) (bus_store b p))\<rparr>"

definition cancel :: "nat \<Rightarrow> bus \<Rightarrow> bus" where
  "cancel p b = (if p \<in> set (bus_subs b) then cancel_close p (cancel_delete p b) else b)"

text \<open>One subscriber's part of \<open>publish\<close>: a send that does not block, or a counted drop.\<close>

definition deliver_event :: "Event \<Rightarrow> subscriber \<Rightarrow> subscriber" where
  "deliver_event e s =
     (if length (sub_ch s) < subscriberBuffer then s\<lparr>sub_ch := sub_ch s @ [e]\<rparr>
      else s\<lparr>sub_drops := sub_drops s + 1\<rparr>)"

definition publish :: "Event \<Rightarrow> bus \<Rightarrow> bus" where
  "publish e b =
     b\<lparr>bus_store := (\<lambda>p. if p \<in> set (bus_subs b) then map_option (deliver_event e) (bus_store b p)
                         else bus_store b p)\<rparr>"

text \<open>Sending on a closed channel is a run-time panic.\<close>

definition publish_panics :: "bus \<Rightarrow> bool" where
  "publish_panics b \<longleftrightarrow>
     list_ex (\<lambda>p. case bus_store b p of None \<Rightarrow> False | Some s \<Rightarrow> sub_closed s) (bus_subs b)"

text \<open>A consumer takes the oldest buffered event.\<close>

definition receive_sub :: "subscriber \<Rightarrow> Event option \<times> subscriber" where
  "receive_sub s = (case sub_ch s of [] \<Rightarrow> (None, s) | e # es \<Rightarrow> (Some e, s\<lparr>sub_ch := es\<rparr>))"

definition receive :: "nat \<Rightarrow> bus \<Rightarrow> Event option \<times> bus" where
  "receive p b =
     (case bus_store b p of
        None \<Rightarrow> (None, b)
      | Some s \<Rightarrow> (let (e, s') = receive_sub s in (e, b\<lparr>bus_store := (bus_store b)(p \<mapsto> s')\<rparr>)))"

text \<open>\<open>Drops\<close>, with the order in which the loop visits the registered subscribers.\<close>

fun drops_loop :: "bus \<Rightarrow> nat list \<Rightarrow> (string \<rightharpoonup> 64 word) \<Rightarrow> (string \<rightharpoonup> 64 word)" where
  "drops_loop b [] out = out"
| "drops_loop b (p # ps) out =
     (case bus_store b p of
        None \<Rightarrow> drops_loop b ps out
      | Some s \<Rightarrow> drops_loop b ps (if 0 < sub_drops s then out(sub_name s \<mapsto> sub_drops s) else out))"

definition Drops :: "nat list \<Rightarrow> bus \<Rightarrow> (string \<rightharpoonup> 64 word)" where
  "Drops ord b = drops_loop b ord Map.empty"

fun publish_all :: "Event list \<Rightarrow> bus \<Rightarrow> bus" where
  "publish_all [] b = b"
| "publish_all (e # es) b = publish_all es (publish e b)"

subsection \<open>Effective status\<close>

lemma effectiveStatus_offline [simp]: "effectiveStatus False st c = StatusUnknown"
  by (simp add: effectiveStatus_def)

lemma effectiveStatus_not_unset [simp]: "effectiveStatus on st c \<noteq> StatusUnset"
  by (auto simp: effectiveStatus_def)

text \<open>An EVSE reads AVAILABLE only when the station is online and not out of service and its own
  connector reported AVAILABLE.\<close>

lemma effectiveStatus_available:
  "effectiveStatus on st c = StatusAvailable \<longleftrightarrow>
     on \<and> st \<noteq> StatusOutOfOrder \<and> st \<noteq> StatusInoperative \<and> c = StatusAvailable"
  by (auto simp: effectiveStatus_def)

subsection \<open>Steps of the bus and their invariant\<close>

inductive bus_step :: "bus \<Rightarrow> bus \<Rightarrow> bool" where
  bus_subscribe: "bus_step b (snd (Subscribe name b))"
| bus_cancel_delete: "p \<in> set (bus_subs b) \<Longrightarrow> bus_step b (cancel_delete p b)"
| bus_cancel_close: "p \<notin> set (bus_subs b) \<Longrightarrow> bus_step b (cancel_close p b)"
| bus_publish: "bus_step b (publish e b)"
| bus_receive: "bus_step b (snd (receive p b))"

definition bus_inv :: "bus \<Rightarrow> bool" where
  "bus_inv b \<longleftrightarrow>
     distinct (bus_subs b) \<and>
     set (bus_subs b) \<subseteq> dom (bus_store b) \<and>
     (\<forall>p s. bus_store b p = Some s \<longrightarrow> p < bus_next b) \<and>
     (\<forall>p s. bus_store b p = Some s \<longrightarrow> length (sub_ch s) \<le> subscriberBuffer) \<and>
     (\<forall>p s. p \<in> set (bus_subs b) \<longrightarrow> bus_store b p = Some s \<longrightarrow> \<not> sub_closed s)"

lemma deliver_event_length:
  "length (sub_ch s) \<le> subscriberBuffer \<Longrightarrow> length (sub_ch (deliver_event e s)) \<le> subscriberBuffer"
  by (simp add: deliver_event_def)

lemma deliver_event_simps [simp]:
  "sub_name (deliver_event e s) = sub_name s" "sub_closed (deliver_event e s) = sub_closed s"
  by (simp_all add: deliver_event_def)

lemma bus_inv_new: "bus_inv newBus"
  by (simp add: bus_inv_def newBus_def)

lemma bus_inv_publish: "bus_inv b \<Longrightarrow> bus_inv (publish e b)"
  by (auto simp: bus_inv_def publish_def deliver_event_length split: if_splits)

lemma bus_inv_subscribe: "bus_inv b \<Longrightarrow> bus_inv (snd (Subscribe name b))"
  by (auto simp: bus_inv_def Subscribe_def Let_def less_Suc_eq split: if_splits)

lemma bus_inv_receive: "bus_inv b \<Longrightarrow> bus_inv (snd (receive p b))"
  by (force simp: bus_inv_def receive_def receive_sub_def domIff dest: Suc_leD
            split: option.splits list.splits if_splits)

lemma bus_inv_cancel_delete: "bus_inv b \<Longrightarrow> bus_inv (cancel_delete p b)"
  by (auto simp: bus_inv_def cancel_delete_def distinct_removeAll)

lemma bus_inv_cancel_close: "bus_inv b \<Longrightarrow> p \<notin> set (bus_subs b) \<Longrightarrow> bus_inv (cancel_close p b)"
  by (auto simp: bus_inv_def cancel_close_def domIff split: if_splits)

lemma bus_inv_cancel: "bus_inv b \<Longrightarrow> bus_inv (cancel p b)"
  using bus_inv_cancel_close [OF bus_inv_cancel_delete, of b p p]
  by (simp add: cancel_def cancel_delete_def)

lemma bus_inv_publish_all: "bus_inv b \<Longrightarrow> bus_inv (publish_all es b)"
  by (induction es arbitrary: b) (simp_all add: bus_inv_publish)

lemma bus_inv_step: "bus_inv b \<Longrightarrow> bus_step b b' \<Longrightarrow> bus_inv b'"
  by (erule bus_step.cases)
    (simp_all add: bus_inv_subscribe bus_inv_cancel_delete bus_inv_cancel_close bus_inv_publish
       bus_inv_receive)

interpretation bus: invariant_system "\<lambda>b. b = newBus" bus_step bus_inv
  by unfold_locales (simp_all add: bus_inv_new bus_inv_step)

inductive_cases bus_stepE: "bus_step b b'"

subsection \<open>What one subscriber sees\<close>

text \<open>
  A history of the bus as one subscriber \<open>p\<close> lives through it: publications, the consumers
  taking events, other subscriptions and cancellations. \<open>bus_run\<close> collects what \<open>p\<close> received.
\<close>

datatype bus_op = OpPublish Event | OpReceive nat | OpSubscribe string | OpCancel nat

fun bus_exec :: "bus_op \<Rightarrow> bus \<Rightarrow> bus" where
  "bus_exec (OpPublish e) b = publish e b"
| "bus_exec (OpReceive q) b = snd (receive q b)"
| "bus_exec (OpSubscribe name) b = snd (Subscribe name b)"
| "bus_exec (OpCancel q) b = cancel q b"

fun op_received :: "nat \<Rightarrow> bus_op \<Rightarrow> bus \<Rightarrow> Event list" where
  "op_received p (OpReceive q) b =
     (if q = p then case fst (receive p b) of None \<Rightarrow> [] | Some e \<Rightarrow> [e] else [])"
| "op_received p _ b = []"

fun bus_run :: "nat \<Rightarrow> bus_op list \<Rightarrow> bus \<Rightarrow> Event list \<times> bus" where
  "bus_run p [] b = ([], b)"
| "bus_run p (x # xs) b =
     (let (got, b') = bus_run p xs (bus_exec x b) in (op_received p x b @ got, b'))"

fun published :: "bus_op list \<Rightarrow> Event list" where
  "published [] = []"
| "published (OpPublish e # xs) = e # published xs"
| "published (_ # xs) = published xs"

lemma bus_exec_inv: "bus_inv b \<Longrightarrow> bus_inv (bus_exec x b)"
  by (cases x) (simp_all add: bus_inv_publish bus_inv_receive bus_inv_subscribe bus_inv_cancel)

lemma bus_exec_registered:
  "bus_inv b \<Longrightarrow> p \<in> set (bus_subs b) \<Longrightarrow> x \<noteq> OpCancel p \<Longrightarrow> p \<in> set (bus_subs (bus_exec x b))"
  by (cases x) (auto simp: publish_def receive_def Subscribe_def Let_def cancel_def cancel_close_def
      cancel_delete_def split: option.splits prod.splits)

lemma bus_exec_other:
  assumes "bus_inv b" "bus_store b p = Some s" "x \<noteq> OpReceive p" "x \<noteq> OpCancel p" "\<And>e. x \<noteq> OpPublish e"
  shows "bus_store (bus_exec x b) p = Some s"
proof (cases x)
  case (OpSubscribe name)
  then show ?thesis using assms by (auto simp: Subscribe_def Let_def bus_inv_def)
qed (use assms in \<open>auto simp: receive_def Let_def cancel_def cancel_close_def
       cancel_delete_def split: option.splits prod.splits\<close>)

text \<open>
  What a subscriber has received and still has buffered is a subsequence of what was published
  to it, and the missing events are the counted ones.
\<close>

definition sub_account :: "subscriber \<Rightarrow> Event list \<Rightarrow> Event list \<Rightarrow> subscriber \<Rightarrow> nat \<Rightarrow> bool" where
  "sub_account s pub got s' d \<longleftrightarrow>
     subseq (got @ sub_ch s') (sub_ch s @ pub) \<and>
     length (got @ sub_ch s') + d = length (sub_ch s @ pub) \<and>
     sub_drops s' = sub_drops s + of_nat d"

lemma sub_account_refl: "sub_account s [] [] s 0"
  by (simp add: sub_account_def)

lemma sub_account_deliver:
  assumes "sub_account (deliver_event e s) pub got s' d"
  shows "\<exists>d'. sub_account s (e # pub) got s' d'"
proof (cases "length (sub_ch s) < subscriberBuffer")
  case True
  then show ?thesis using assms by (auto simp: sub_account_def deliver_event_def)
next
  case False
  have "subseq (sub_ch s @ pub) (sub_ch s @ e # pub)"
    by (intro list_emb_append_mono subseq_order.refl list_emb_Cons)
  with False have "sub_account s (e # pub) got s' (Suc d)"
    using assms by (auto simp: sub_account_def deliver_event_def algebra_simps
        intro: subseq_order.trans)
  then show ?thesis ..
qed

lemma sub_account_receive:
  assumes "sub_account (snd (receive_sub s)) pub got s' d"
  shows "sub_account s pub ((case fst (receive_sub s) of None \<Rightarrow> [] | Some e \<Rightarrow> [e]) @ got) s' d"
  using assms by (auto simp: sub_account_def receive_sub_def split: list.splits)

lemma bus_run_account:
  assumes "bus_inv b" "p \<in> set (bus_subs b)" "bus_store b p = Some s" "OpCancel p \<notin> set xs"
    "bus_run p xs b = (got, b')"
  shows "\<exists>s' d. bus_store b' p = Some s' \<and> sub_account s (published xs) got s' d \<and>
           length (sub_ch s') \<le> subscriberBuffer \<and> \<not> sub_closed s'"
  using assms
proof (induction xs arbitrary: b s got)
  case Nil
  then show ?case using sub_account_refl by (auto simp: bus_inv_def)
next
  case (Cons x xs)
  obtain got1 where run: "bus_run p xs (bus_exec x b) = (got1, b')"
    and got: "got = op_received p x b @ got1"
    using Cons.prems(5) by (auto split: prod.splits)
  have inv: "bus_inv (bus_exec x b)" and reg: "p \<in> set (bus_subs (bus_exec x b))"
    using Cons.prems bus_exec_inv bus_exec_registered by auto
  note IH = Cons.IH [OF inv reg _ _ run]
  have nc: "OpCancel p \<notin> set xs" and xc: "x \<noteq> OpCancel p" using Cons.prems by auto
  consider (pub) e where "x = OpPublish e" | (rec) "x = OpReceive p"
    | (other) "x \<noteq> OpReceive p" "\<And>e. x \<noteq> OpPublish e" by (cases x) auto
  then show ?case
  proof cases
    case pub
    then have st: "bus_store (bus_exec x b) p = Some (deliver_event e s)"
      using Cons.prems by (simp add: publish_def)
    show ?thesis using IH [OF st nc] sub_account_deliver pub got by fastforce
  next
    case rec
    then have st: "bus_store (bus_exec x b) p = Some (snd (receive_sub s))"
      using Cons.prems by (simp add: receive_def split: prod.splits)
    have "op_received p x b = (case fst (receive_sub s) of None \<Rightarrow> [] | Some e \<Rightarrow> [e])"
      using rec Cons.prems by (simp add: receive_def split: prod.splits)
    then show ?thesis using IH [OF st nc] sub_account_receive rec got by fastforce
  next
    case other
    have st: "bus_store (bus_exec x b) p = Some s"
      using bus_exec_other Cons.prems xc other by auto
    have "op_received p x b = []" "published (x # xs) = published xs"
      using other by (cases x; auto)+
    then show ?thesis using IH [OF st nc] got by simp
  qed
qed

lemma not_panics: "bus_inv b \<Longrightarrow> \<not> publish_panics b"
  by (auto simp: publish_panics_def bus_inv_def list_ex_iff split: option.splits)

lemma reach_subscribed: "reachable (\<lambda>b. b = newBus) bus_step (snd (Subscribe name newBus))"
  by (rule reach_step, rule reach_init, rule refl, rule bus_subscribe)

subsection \<open>Properties\<close>

text \<open>
  However subscriptions, the two halves of an unsubscription, publications and
  receives interleave, publishing never sends on a closed channel: a subscriber is
  unregistered before its channel is closed.
\<close>

theorem publish_never_panics:
  "reachable (\<lambda>b. b = newBus) bus_step b \<Longrightarrow> \<not> publish_panics b"
  by (rule not_panics, rule bus.reachable_inv)

theorem publish_never_panics_witness:
  "\<not> publish_panics (cancel_delete 0 (snd (Subscribe ''tui'' newBus)))"
proof -
  let ?b = "snd (Subscribe ''tui'' newBus)"
  have "0 \<in> set (bus_subs ?b)" by (simp add: Subscribe_def newBus_def Let_def)
  then have "bus_step ?b (cancel_delete 0 ?b)" by (rule bus_cancel_delete)
  then have "reachable (\<lambda>b. b = newBus) bus_step (cancel_delete 0 ?b)"
    by (rule reach_step [OF reach_subscribed])
  then show ?thesis by (rule publish_never_panics)
qed

text \<open>
  A registered subscriber receives events in publication order and without
  duplication: what it has received and still has buffered is a subsequence of what was
  buffered before and published since, exactly as many events are missing as its drop counter
  grew by (modulo the counter's 64 bits), at most 256 events are buffered and its channel stays
  open, whatever other subscribers do.
\<close>

theorem subscriber_sees_subsequence:
  assumes "reachable (\<lambda>b. b = newBus) bus_step b" "p \<in> set (bus_subs b)" "bus_store b p = Some s"
    "OpCancel p \<notin> set xs" "bus_run p xs b = (got, b')"
  shows "\<exists>s' d. bus_store b' p = Some s' \<and> \<not> sub_closed s' \<and>
           subseq (got @ sub_ch s') (sub_ch s @ published xs) \<and>
           length (got @ sub_ch s') + d = length (sub_ch s @ published xs) \<and>
           sub_drops s' = sub_drops s + of_nat d \<and> length (sub_ch s') \<le> 256"
  using bus_run_account [OF bus.reachable_inv [OF assms(1)] assms(2-5)]
  by (auto simp: sub_account_def subscriberBuffer_def)

theorem subscriber_sees_subsequence_witness:
  "let e = event EventHeartbeat zero_time ''cp''; b = snd (Subscribe ''tui'' newBus) in
   \<exists>s' d. bus_store (snd (bus_run 0 [OpPublish e, OpReceive 0, OpPublish e] b)) 0 = Some s' \<and>
     \<not> sub_closed s' \<and> subseq ([e] @ sub_ch s') [e, e] \<and> length ([e] @ sub_ch s') + d = 2 \<and>
     sub_drops s' = 0 + of_nat d \<and> length (sub_ch s') \<le> 256"
proof -
  let ?e = "event EventHeartbeat zero_time ''cp''" and ?b = "snd (Subscribe ''tui'' newBus)"
  let ?xs = "[OpPublish ?e, OpReceive 0, OpPublish ?e]"
  let ?s = "\<lparr>sub_name = ''tui'', sub_ch = [], sub_closed = False, sub_drops = 0\<rparr>"
  have r: "reachable (\<lambda>b. b = newBus) bus_step ?b"
    by (rule reach_subscribed)
  have p: "0 \<in> set (bus_subs ?b)" "bus_store ?b 0 = Some ?s"
    by (simp_all add: Subscribe_def newBus_def Let_def)
  have run: "bus_run 0 ?xs ?b = ([?e], snd (bus_run 0 ?xs ?b))"
    by (simp add: Subscribe_def newBus_def Let_def publish_def receive_def receive_sub_def
        deliver_event_def subscriberBuffer_def)
  have "OpCancel 0 \<notin> set ?xs" by simp
  from subscriber_sees_subsequence [OF r p this run] show ?thesis
    by (simp only: Let_def published.simps subscriber.simps append_Nil list.size) simp
qed

end
