(* ===== verification/Core_Service.thy ===== *)
theory Core_Service
  imports Core_Event Config_Types
begin

text \<open>
  The domain state (\<open>internal/core/service.go\<close>): which charge points are connected, what every
  EVSE is doing and which transactions are open. Each operation of \<open>Service\<close> is a definition
  in two layers: the section the code runs under \<open>Service.mu\<close>, which yields the events it will
  publish, and the operation, which publishes them after the lock is released. The clock is an
  argument: \<open>at\<close> is what \<open>s.now()\<close> returned.
\<close>

subsection \<open>State\<close>

record BootInfo =
  Vendor :: string
  Model :: string
  SerialNumber :: string
  FirmwareVersion :: string
  boot_At :: go_time

definition BootInfo_String :: "BootInfo \<Rightarrow> string" where
  "BootInfo_String b =
     Vendor b @ (if Model b \<noteq> [] then '' '' @ Model b else []) @
     (if FirmwareVersion b \<noteq> [] then '' fw '' @ FirmwareVersion b else [])"

definition zero_boot :: BootInfo where
  "zero_boot = \<lparr>Vendor = [], Model = [], SerialNumber = [], FirmwareVersion = [], boot_At = zero_time\<rparr>"

record Transaction =
  tx_ID :: int
  tx_EVSEUID :: string
  tx_ConnectorID :: int
  tx_IDTag :: string
  MeterStart :: int
  StartedAt :: go_time
  StoppedAt :: go_time
  MeterStop :: int
  Reason :: string

definition Active :: "Transaction \<Rightarrow> bool" where
  "Active t = is_zero (StoppedAt t)"

record chargePointState =
  cp_id :: string
  online :: bool
  boot :: BootInfo
  lastSeen :: go_time
  station :: EVSEStatus
  order :: "string list"
  connectorIDs :: "string \<rightharpoonup> int"
  reported :: "string \<rightharpoonup> EVSEStatus"
  errorCode :: "string \<rightharpoonup> string"
  effective :: "string \<rightharpoonup> EVSEStatus"
  transactions :: "int \<rightharpoonup> Transaction"

text \<open>A nil configuration is \<^term>\<open>None\<close>.\<close>

record Service =
  cfg :: "Config option"
  svc_bus :: bus
  cps :: "string \<rightharpoonup> chargePointState"
  nextTxID :: int

subsection \<open>Construction and the charge point's own operations\<close>

definition newChargePoint :: "string \<Rightarrow> chargePointState" where
  "newChargePoint i =
     \<lparr>cp_id = i, online = False, boot = zero_boot, lastSeen = zero_time, station = StatusAvailable,
      order = [], connectorIDs = Map.empty, reported = Map.empty, errorCode = Map.empty,
      effective = Map.empty, transactions = Map.empty\<rparr>"

definition addEVSE :: "string \<Rightarrow> int \<Rightarrow> chargePointState \<Rightarrow> chargePointState" where
  "addEVSE uid connectorID cp =
     (if effective cp uid \<noteq> None then cp
      else cp\<lparr>order := order cp @ [uid],
              connectorIDs := (connectorIDs cp)(uid \<mapsto> connectorID),
              effective := (effective cp)(uid \<mapsto> StatusUnknown)\<rparr>)"

fun recompute_loop :: "go_time \<Rightarrow> string list \<Rightarrow> chargePointState \<Rightarrow> Event list \<times> chargePointState" where
  "recompute_loop at [] cp = ([], cp)"
| "recompute_loop at (uid # uids) cp =
     (let want = effectiveStatus (online cp) (station cp) (mget (reported cp) uid StatusUnset);
          got = mget (effective cp) uid StatusUnset
      in if got = want then recompute_loop at uids cp
         else let e = (event EventEVSEStatusChanged at (cp_id cp))
                        \<lparr>EVSEUID := uid, From := got, To := want,
                         ErrorCode := mget (errorCode cp) uid []\<rparr>;
                  (es, cp') = recompute_loop at uids (cp\<lparr>effective := (effective cp)(uid \<mapsto> want)\<rparr>)
              in (e # es, cp'))"

definition recompute :: "go_time \<Rightarrow> chargePointState \<Rightarrow> Event list \<times> chargePointState" where
  "recompute at cp = recompute_loop at (order cp) cp"

definition New :: "Config option \<Rightarrow> Service" where
  "New c =
     (let s = \<lparr>cfg = c, svc_bus = newBus, cps = Map.empty, nextTxID = 1\<rparr>
      in case c of
           None \<Rightarrow> s
         | Some conf \<Rightarrow>
             let cp = fold (\<lambda>e. addEVSE (ev_UID e) (ev_OCPPConnectorID e))
                        (lo_EVSEs (cf_Location conf)) (newChargePoint (ch_ID (cf_Charger conf)))
             in s\<lparr>cps := [cp_id cp \<mapsto> cp]\<rparr>)"

text \<open>\<open>ensure\<close> returns a pointer into \<open>Service.cps\<close>; \<open>put_cp\<close> writes through it.\<close>

definition ensure :: "string \<Rightarrow> Service \<Rightarrow> chargePointState" where
  "ensure i s = (case cps s i of None \<Rightarrow> newChargePoint i | Some cp \<Rightarrow> cp)"

definition put_cp :: "string \<Rightarrow> chargePointState \<Rightarrow> Service \<Rightarrow> Service" where
  "put_cp i cp s = s\<lparr>cps := (cps s)(i \<mapsto> cp)\<rparr>"

definition evseUID :: "Service \<Rightarrow> string \<Rightarrow> int \<Rightarrow> string" where
  "evseUID s cpID connectorID =
     (case cfg s of
        Some c \<Rightarrow>
          (if cpID = ch_ID (cf_Charger c)
           then case EVSEByConnectorID c connectorID of
                  Some e \<Rightarrow> ev_UID e
                | None \<Rightarrow> cpID @ ''-'' @ itoa connectorID
           else cpID @ ''-'' @ itoa connectorID)
      | None \<Rightarrow> cpID @ ''-'' @ itoa connectorID)"

definition publishAll :: "Event list \<Rightarrow> Service \<Rightarrow> Service" where
  "publishAll es s = s\<lparr>svc_bus := publish_all es (svc_bus s)\<rparr>"

subsection \<open>Sections under the lock\<close>

definition Connected_locked :: "go_time \<Rightarrow> string \<Rightarrow> Service \<Rightarrow> Event list \<times> Service" where
  "Connected_locked at cpID s =
     (let cp = (ensure cpID s)\<lparr>online := True, lastSeen := at\<rparr>;
          (es, cp) = recompute at cp
      in (event EventChargePointConnected at cpID # es, put_cp cpID cp s))"

definition Disconnected_locked :: "go_time \<Rightarrow> string \<Rightarrow> string \<Rightarrow> Service \<Rightarrow> Event list \<times> Service" where
  "Disconnected_locked at cpID reason s =
     (let cp = ensure cpID s
      in if \<not> online cp then ([], put_cp cpID cp s)
         else let (es, cp) = recompute at (cp\<lparr>online := False\<rparr>)
              in ((event EventChargePointDisconnected at cpID)\<lparr>Detail := reason\<rparr> # es,
                  put_cp cpID cp s))"

definition Booted_locked :: "go_time \<Rightarrow> string \<Rightarrow> BootInfo \<Rightarrow> Service \<Rightarrow> Event list \<times> Service" where
  "Booted_locked at cpID info s =
     (let info = info\<lparr>boot_At := at\<rparr>
      in ([(event EventBootNotified at cpID)\<lparr>Detail := BootInfo_String info\<rparr>],
          put_cp cpID ((ensure cpID s)\<lparr>boot := info, lastSeen := at\<rparr>) s))"

definition Seen_locked :: "go_time \<Rightarrow> string \<Rightarrow> Service \<Rightarrow> Service" where
  "Seen_locked at cpID s = put_cp cpID ((ensure cpID s)\<lparr>lastSeen := at\<rparr>) s"

definition Heartbeat_locked :: "go_time \<Rightarrow> string \<Rightarrow> Service \<Rightarrow> Event list \<times> Service" where
  "Heartbeat_locked at cpID s = ([event EventHeartbeat at cpID], Seen_locked at cpID s)"

definition SetConnectorStatus_locked ::
  "go_time \<Rightarrow> string \<Rightarrow> int \<Rightarrow> EVSEStatus \<Rightarrow> string \<Rightarrow> Service \<Rightarrow> Event list \<times> Service" where
  "SetConnectorStatus_locked at cpID connectorID status code s =
     (let cp = (ensure cpID s)\<lparr>lastSeen := at\<rparr>;
          (es, cp) =
            (if connectorID = 0
             then if station cp \<noteq> status
                  then ([(event EventStationStatusChanged at cpID)
                           \<lparr>From := station cp, To := status, ErrorCode := code\<rparr>],
                        cp\<lparr>station := status\<rparr>)
                  else ([], cp)
             else let uid = evseUID s cpID connectorID;
                      cp = addEVSE uid connectorID cp
                  in ([], cp\<lparr>reported := (reported cp)(uid \<mapsto> status),
                             errorCode := (errorCode cp)(uid \<mapsto> code)\<rparr>));
          (es', cp) = recompute at cp
      in (es @ es', put_cp cpID cp s))"

text \<open>\<open>at\<close> is the charger's timestamp, \<open>now\<close> and \<open>now'\<close> the two readings of the clock.\<close>

definition StartTransaction_locked ::
  "go_time \<Rightarrow> go_time \<Rightarrow> string \<Rightarrow> int \<Rightarrow> string \<Rightarrow> int \<Rightarrow> go_time \<Rightarrow> Service \<Rightarrow> int \<times> Event list \<times> Service" where
  "StartTransaction_locked now now' cpID connectorID idTag meterStart at s =
     (let at = (if is_zero at then now else at);
          uid = evseUID s cpID connectorID;
          cp = addEVSE uid connectorID (ensure cpID s);
          id = nextTxID s;
          tx = \<lparr>tx_ID = id, tx_EVSEUID = uid, tx_ConnectorID = connectorID, tx_IDTag = idTag,
                MeterStart = meterStart, StartedAt = at, StoppedAt = zero_time, MeterStop = 0,
                Reason = []\<rparr>;
          cp = cp\<lparr>transactions := (transactions cp)(id \<mapsto> tx), lastSeen := now'\<rparr>
      in (id,
          [(event EventTransactionStarted at cpID)\<lparr>EVSEUID := uid, TransactionID := id, IDTag := idTag\<rparr>],
          (put_cp cpID cp s)\<lparr>nextTxID := wrap64 (nextTxID s + 1)\<rparr>))"

definition StopTransaction_locked ::
  "go_time \<Rightarrow> go_time \<Rightarrow> string \<Rightarrow> int \<Rightarrow> int \<Rightarrow> string \<Rightarrow> go_time \<Rightarrow> Service \<Rightarrow>
     Transaction option \<times> Event list \<times> Service" where
  "StopTransaction_locked now now' cpID txID meterStop reason at s =
     (let at = (if is_zero at then now else at);
          cp = ensure cpID s
      in case transactions cp txID of
           None \<Rightarrow> (None, [], put_cp cpID cp s)
         | Some tx \<Rightarrow>
             if \<not> Active tx then (None, [], put_cp cpID cp s)
             else let tx = tx\<lparr>StoppedAt := at, MeterStop := meterStop, Reason := reason\<rparr>;
                      cp = cp\<lparr>transactions := (transactions cp)(txID \<mapsto> tx), lastSeen := now'\<rparr>
                  in (Some tx,
                      [(event EventTransactionStopped at cpID)
                         \<lparr>EVSEUID := tx_EVSEUID tx, TransactionID := txID, IDTag := tx_IDTag tx,
                          Detail := reason\<rparr>],
                      put_cp cpID cp s))"

definition RecordMeterValues_locked ::
  "go_time \<Rightarrow> string \<Rightarrow> int \<Rightarrow> string \<Rightarrow> Service \<Rightarrow> Event list \<times> Service" where
  "RecordMeterValues_locked at cpID connectorID summary s =
     (let uid = evseUID s cpID connectorID;
          cp = (addEVSE uid connectorID (ensure cpID s))\<lparr>lastSeen := at\<rparr>
      in ([(event EventMeterValues at cpID)\<lparr>EVSEUID := uid, Detail := summary\<rparr>], put_cp cpID cp s))"

subsection \<open>Operations\<close>

definition commit :: "Event list \<times> Service \<Rightarrow> Service" where
  "commit r = publishAll (fst r) (snd r)"

definition Connected :: "go_time \<Rightarrow> string \<Rightarrow> Service \<Rightarrow> Service" where
  "Connected at cpID s = commit (Connected_locked at cpID s)"

definition Disconnected :: "go_time \<Rightarrow> string \<Rightarrow> string \<Rightarrow> Service \<Rightarrow> Service" where
  "Disconnected at cpID reason s = commit (Disconnected_locked at cpID reason s)"

definition Booted :: "go_time \<Rightarrow> string \<Rightarrow> BootInfo \<Rightarrow> Service \<Rightarrow> Service" where
  "Booted at cpID info s = commit (Booted_locked at cpID info s)"

definition Seen :: "go_time \<Rightarrow> string \<Rightarrow> Service \<Rightarrow> Service" where
  "Seen at cpID s = Seen_locked at cpID s"

definition Heartbeat :: "go_time \<Rightarrow> string \<Rightarrow> Service \<Rightarrow> Service" where
  "Heartbeat at cpID s = commit (Heartbeat_locked at cpID s)"

definition SetConnectorStatus :: "go_time \<Rightarrow> string \<Rightarrow> int \<Rightarrow> EVSEStatus \<Rightarrow> string \<Rightarrow> Service \<Rightarrow> Service" where
  "SetConnectorStatus at cpID connectorID status code s =
     commit (SetConnectorStatus_locked at cpID connectorID status code s)"

definition StartTransaction ::
  "go_time \<Rightarrow> go_time \<Rightarrow> string \<Rightarrow> int \<Rightarrow> string \<Rightarrow> int \<Rightarrow> go_time \<Rightarrow> Service \<Rightarrow> int \<times> Service" where
  "StartTransaction now now' cpID connectorID idTag meterStart at s =
     (let (id, r) = StartTransaction_locked now now' cpID connectorID idTag meterStart at s
      in (id, commit r))"

definition StopTransaction ::
  "go_time \<Rightarrow> go_time \<Rightarrow> string \<Rightarrow> int \<Rightarrow> int \<Rightarrow> string \<Rightarrow> go_time \<Rightarrow> Service \<Rightarrow> Transaction option \<times> Service" where
  "StopTransaction now now' cpID txID meterStop reason at s =
     (let (tx, r) = StopTransaction_locked now now' cpID txID meterStop reason at s
      in (tx, commit r))"

definition RecordMeterValues :: "go_time \<Rightarrow> string \<Rightarrow> int \<Rightarrow> string \<Rightarrow> Service \<Rightarrow> Service" where
  "RecordMeterValues at cpID connectorID summary s =
     commit (RecordMeterValues_locked at cpID connectorID summary s)"

definition IsOnline :: "Service \<Rightarrow> string \<Rightarrow> bool" where
  "IsOnline s cpID = (case cps s cpID of None \<Rightarrow> False | Some cp \<Rightarrow> online cp)"

text \<open>Readers that range over \<open>Service.cps\<close> take the order of the iteration as an argument.\<close>

fun EVSEStatus_of :: "string list \<Rightarrow> Service \<Rightarrow> string \<Rightarrow> EVSEStatus option" where
  "EVSEStatus_of [] s uid = None"
| "EVSEStatus_of (i # is) s uid =
     (case cps s i of
        None \<Rightarrow> EVSEStatus_of is s uid
      | Some cp \<Rightarrow> (case effective cp uid of None \<Rightarrow> EVSEStatus_of is s uid | Some st \<Rightarrow> Some st))"

record EVSESnapshot =
  es_UID :: string
  es_ConnectorID :: int
  es_Status :: EVSEStatus
  es_ErrorCode :: string

record ChargePointSnapshot =
  cs_ID :: string
  cs_Online :: bool
  cs_Boot :: BootInfo
  cs_LastSeen :: go_time
  cs_StationStatus :: EVSEStatus
  cs_EVSEs :: "EVSESnapshot list"
  cs_Transactions :: "Transaction list"

definition evse_snapshot :: "chargePointState \<Rightarrow> string \<Rightarrow> EVSESnapshot" where
  "evse_snapshot cp uid =
     \<lparr>es_UID = uid, es_ConnectorID = mget (connectorIDs cp) uid 0,
      es_Status = mget (effective cp) uid StatusUnset, es_ErrorCode = mget (errorCode cp) uid []\<rparr>"

definition cp_snapshot :: "int list \<Rightarrow> chargePointState \<Rightarrow> ChargePointSnapshot" where
  "cp_snapshot txs cp =
     \<lparr>cs_ID = cp_id cp, cs_Online = online cp, cs_Boot = boot cp, cs_LastSeen = lastSeen cp,
      cs_StationStatus = station cp, cs_EVSEs = map (evse_snapshot cp) (order cp),
      cs_Transactions = sort_key tx_ID (List.map_filter (transactions cp) txs)\<rparr>"

definition Snapshot :: "string list \<Rightarrow> (string \<Rightarrow> int list) \<Rightarrow> Service \<Rightarrow> ChargePointSnapshot list" where
  "Snapshot ids txs s =
     sort_key cs_ID (map (\<lambda>(i, cp). cp_snapshot (txs i) cp)
       (List.map_filter (\<lambda>i. map_option (Pair i) (cps s i)) ids))"

definition Snapshot_ChargePoint :: "ChargePointSnapshot list \<Rightarrow> string \<Rightarrow> ChargePointSnapshot option" where
  "Snapshot_ChargePoint snap i = List.find (\<lambda>c. cs_ID c = i) snap"

subsection \<open>Recomputation in closed form\<close>

definition want :: "chargePointState \<Rightarrow> string \<Rightarrow> EVSEStatus" where
  "want cp uid = effectiveStatus (online cp) (station cp) (mget (reported cp) uid StatusUnset)"

definition change_event :: "go_time \<Rightarrow> chargePointState \<Rightarrow> string \<Rightarrow> Event" where
  "change_event at cp uid =
     (event EventEVSEStatusChanged at (cp_id cp))
       \<lparr>EVSEUID := uid, From := mget (effective cp) uid StatusUnset, To := want cp uid,
        ErrorCode := mget (errorCode cp) uid []\<rparr>"

definition settle :: "chargePointState \<Rightarrow> chargePointState" where
  "settle cp = cp\<lparr>effective := (\<lambda>u. if u \<in> set (order cp) then Some (want cp u) else effective cp u)\<rparr>"

definition moved :: "chargePointState \<Rightarrow> string list" where
  "moved cp = filter (\<lambda>u. effective cp u \<noteq> Some (want cp u)) (order cp)"

lemma want_not_unset [simp]: "want cp u \<noteq> StatusUnset"
  by (simp add: want_def)

lemma mget_eq_want: "mget (effective cp) u StatusUnset = want cp u \<longleftrightarrow> effective cp u = Some (want cp u)"
  by (cases "effective cp u") (auto simp: mget_def dest: sym)

lemma want_effective [simp]: "want (cp\<lparr>effective := f\<rparr>) u = want cp u"
  by (simp add: want_def)

lemma change_event_effective:
  "f u = effective cp u \<Longrightarrow> change_event at (cp\<lparr>effective := f\<rparr>) u = change_event at cp u"
  by (simp add: change_event_def mget_def)

lemma recompute_loop_Cons:
  "recompute_loop at (u # us) cp =
     (if effective cp u = Some (want cp u) then recompute_loop at us cp
      else let (es, cp') = recompute_loop at us (cp\<lparr>effective := (effective cp)(u \<mapsto> want cp u)\<rparr>)
           in (change_event at cp u # es, cp'))"
  by (simp add: Let_def mget_eq_want [symmetric] want_def [symmetric] change_event_def)

lemma recompute_loop_eq:
  "distinct us \<Longrightarrow>
   recompute_loop at us cp =
     (map (change_event at cp) (filter (\<lambda>u. effective cp u \<noteq> Some (want cp u)) us),
      cp\<lparr>effective := (\<lambda>u. if u \<in> set us then Some (want cp u) else effective cp u)\<rparr>)"
proof (induction us arbitrary: cp)
  case Nil
  then show ?case by simp
next
  case (Cons u us)
  show ?case
  proof (cases "effective cp u = Some (want cp u)")
    case True
    then have "(\<lambda>v. if v \<in> set us then Some (want cp v) else effective cp v) =
               (\<lambda>v. if v \<in> set (u # us) then Some (want cp v) else effective cp v)" by auto
    then show ?thesis using Cons True by (simp add: recompute_loop_Cons del: recompute_loop.simps)
  next
    case False
    let ?cp = "cp\<lparr>effective := (effective cp)(u \<mapsto> want cp u)\<rparr>"
    have "filter (\<lambda>v. effective ?cp v \<noteq> Some (want ?cp v)) us =
          filter (\<lambda>v. effective cp v \<noteq> Some (want cp v)) us"
      using Cons.prems by (intro filter_cong) auto
    moreover have "\<forall>x \<in> set us. change_event at ?cp x = change_event at cp x"
      using Cons.prems by (intro ballI change_event_effective) auto
    moreover have "(\<lambda>v. if v \<in> set us then Some (want ?cp v) else effective ?cp v) =
                   (\<lambda>v. if v \<in> set (u # us) then Some (want cp v) else effective cp v)" by auto
    ultimately show ?thesis
      using Cons.prems Cons.IH [of ?cp] False
      by (simp add: recompute_loop_Cons del: recompute_loop.simps)
  qed
qed

lemma recompute_eq:
  "distinct (order cp) \<Longrightarrow> recompute at cp = (map (change_event at cp) (moved cp), settle cp)"
  by (simp add: recompute_def recompute_loop_eq moved_def settle_def)

lemma settle_simps [simp]:
  "cp_id (settle cp) = cp_id cp" "online (settle cp) = online cp" "boot (settle cp) = boot cp"
  "lastSeen (settle cp) = lastSeen cp" "station (settle cp) = station cp" "order (settle cp) = order cp"
  "connectorIDs (settle cp) = connectorIDs cp" "reported (settle cp) = reported cp"
  "errorCode (settle cp) = errorCode cp" "transactions (settle cp) = transactions cp"
  "want (settle cp) u = want cp u"
  by (simp_all add: settle_def)

lemma effective_settle: "u \<in> set (order cp) \<Longrightarrow> effective (settle cp) u = Some (want cp u)"
  by (simp add: settle_def)

subsection \<open>The invariant\<close>

text \<open>
  Of one charge point: the EVSE order has no repetition and lists exactly the keys of
  \<open>effective\<close> and \<open>connectorIDs\<close>; only listed EVSEs have reported; every effective status is
  the one derived from the station and the report, or UNKNOWN for an EVSE that was added
  without a report; transactions are stored under their own id and on a listed EVSE.
\<close>

definition cp_inv :: "string \<Rightarrow> chargePointState \<Rightarrow> bool" where
  "cp_inv i cp \<longleftrightarrow>
     cp_id cp = i \<and> distinct (order cp) \<and>
     dom (effective cp) = set (order cp) \<and> dom (connectorIDs cp) = set (order cp) \<and>
     dom (reported cp) \<subseteq> set (order cp) \<and> dom (errorCode cp) = dom (reported cp) \<and>
     (\<forall>u \<in> set (order cp).
        effective cp u = Some (want cp u) \<or> effective cp u = Some StatusUnknown \<and> reported cp u = None) \<and>
     finite (dom (transactions cp)) \<and>
     (\<forall>k tx. transactions cp k = Some tx \<longrightarrow> tx_ID tx = k \<and> tx_EVSEUID tx \<in> set (order cp))"

text \<open>Of the service: every charge point is well-formed, the bus is, and the registered
  charge points are finitely many.\<close>

definition svc_inv :: "Service \<Rightarrow> bool" where
  "svc_inv s \<longleftrightarrow>
     finite (dom (cps s)) \<and> bus_inv (svc_bus s) \<and> in_int64 (nextTxID s) \<and>
     (\<forall>i cp. cps s i = Some cp \<longrightarrow> cp_inv i cp)"

text \<open>A coherent charge point: every effective status is the derived one.\<close>

definition coherent :: "chargePointState \<Rightarrow> bool" where
  "coherent cp \<longleftrightarrow> (\<forall>u \<in> set (order cp). effective cp u = Some (want cp u))"

lemma cp_inv_order: "cp_inv i cp \<Longrightarrow> distinct (order cp)"
  by (simp add: cp_inv_def)

lemma cp_inv_new: "cp_inv i (newChargePoint i)"
  by (simp add: cp_inv_def newChargePoint_def)

lemma cp_inv_addEVSE:
  assumes "cp_inv i cp"
  shows "cp_inv i (addEVSE u n cp)"
proof (cases "effective cp u")
  case None
  have o: "u \<notin> set (order cp)" using None assms by (auto simp: cp_inv_def)
  then have "reported cp u = None" using assms by (auto simp: cp_inv_def)
  with o show ?thesis using None assms by (auto simp: cp_inv_def addEVSE_def want_def domIff)
next
  case (Some st)
  then show ?thesis using assms by (simp add: addEVSE_def)
qed

lemma addEVSE_order: "dom (effective cp) = set (order cp) \<Longrightarrow> set (order (addEVSE u n cp)) = insert u (set (order cp))"
  by (auto simp: addEVSE_def)

lemma cp_inv_in_order: "cp_inv i cp \<Longrightarrow> u \<in> set (order (addEVSE u n cp))"
  by (subst addEVSE_order) (simp_all add: cp_inv_def)

lemma cp_inv_lastSeen [simp]: "cp_inv i (cp\<lparr>lastSeen := t\<rparr>) = cp_inv i cp"
  by (simp add: cp_inv_def want_def)

lemma cp_inv_boot [simp]: "cp_inv i (cp\<lparr>boot := t\<rparr>) = cp_inv i cp"
  by (simp add: cp_inv_def want_def)

text \<open>\<open>recompute\<close> restores the last part of the invariant, so it may be broken before it.\<close>

definition cp_pre :: "string \<Rightarrow> chargePointState \<Rightarrow> bool" where
  "cp_pre i cp \<longleftrightarrow>
     cp_id cp = i \<and> distinct (order cp) \<and>
     dom (effective cp) = set (order cp) \<and> dom (connectorIDs cp) = set (order cp) \<and>
     dom (reported cp) \<subseteq> set (order cp) \<and> dom (errorCode cp) = dom (reported cp) \<and>
     finite (dom (transactions cp)) \<and>
     (\<forall>k tx. transactions cp k = Some tx \<longrightarrow> tx_ID tx = k \<and> tx_EVSEUID tx \<in> set (order cp))"

lemma cp_inv_pre: "cp_inv i cp \<Longrightarrow> cp_pre i cp"
  by (auto simp: cp_inv_def cp_pre_def)

lemma cp_pre_settle: "cp_pre i cp \<Longrightarrow> cp_inv i (settle cp) \<and> coherent (settle cp)"
  by (auto simp: cp_inv_def cp_pre_def coherent_def settle_def domIff split: if_splits)

lemma cp_pre_upd [simp]:
  "cp_pre i (cp\<lparr>online := b\<rparr>) = cp_pre i cp" "cp_pre i (cp\<lparr>lastSeen := t\<rparr>) = cp_pre i cp"
  "cp_pre i (cp\<lparr>station := st\<rparr>) = cp_pre i cp"
  by (simp_all add: cp_pre_def)

lemma cp_pre_report:
  "cp_pre i cp \<Longrightarrow> u \<in> set (order cp) \<Longrightarrow>
   cp_pre i (cp\<lparr>reported := (reported cp)(u \<mapsto> st), errorCode := (errorCode cp)(u \<mapsto> c)\<rparr>)"
  by (auto simp: cp_pre_def)

lemma cp_pre_recompute:
  "cp_pre i cp \<Longrightarrow> recompute at cp = (map (change_event at cp) (moved cp), settle cp)"
  by (simp add: recompute_eq cp_pre_def)

lemma cp_inv_ensure: "svc_inv s \<Longrightarrow> cp_inv i (ensure i s)"
  by (simp add: svc_inv_def ensure_def cp_inv_new split: option.split)

lemma svc_inv_put: "svc_inv s \<Longrightarrow> cp_inv i cp \<Longrightarrow> svc_inv (put_cp i cp s)"
  by (simp add: svc_inv_def put_cp_def)

lemma svc_inv_publishAll: "svc_inv s \<Longrightarrow> svc_inv (publishAll es s)"
  by (simp add: svc_inv_def publishAll_def bus_inv_publish_all)

lemma svc_inv_commit: "svc_inv (snd r) \<Longrightarrow> svc_inv (commit r)"
  by (simp add: commit_def svc_inv_publishAll)

subsection \<open>Calls and their common shape\<close>

text \<open>The calls the protocol layer makes on the service, with the clock readings they see.\<close>

datatype svc_op =
    Op_Connected go_time string
  | Op_Disconnected go_time string string
  | Op_Booted go_time string BootInfo
  | Op_Seen go_time string
  | Op_Heartbeat go_time string
  | Op_SetConnectorStatus go_time string int EVSEStatus string
  | Op_StartTransaction go_time go_time string int string int go_time
  | Op_StopTransaction go_time go_time string int int string go_time
  | Op_RecordMeterValues go_time string int string

fun locked_op :: "svc_op \<Rightarrow> Service \<Rightarrow> Event list \<times> Service" where
  "locked_op (Op_Connected at i) s = Connected_locked at i s"
| "locked_op (Op_Disconnected at i r) s = Disconnected_locked at i r s"
| "locked_op (Op_Booted at i b) s = Booted_locked at i b s"
| "locked_op (Op_Seen at i) s = ([], Seen_locked at i s)"
| "locked_op (Op_Heartbeat at i) s = Heartbeat_locked at i s"
| "locked_op (Op_SetConnectorStatus at i n st c) s = SetConnectorStatus_locked at i n st c s"
| "locked_op (Op_StartTransaction t t' i n tag m at) s =
     snd (StartTransaction_locked t t' i n tag m at s)"
| "locked_op (Op_StopTransaction t t' i k m r at) s =
     snd (StopTransaction_locked t t' i k m r at s)"
| "locked_op (Op_RecordMeterValues at i n d) s = RecordMeterValues_locked at i n d s"

fun op_cp :: "svc_op \<Rightarrow> string" where
  "op_cp (Op_Connected at i) = i"
| "op_cp (Op_Disconnected at i r) = i"
| "op_cp (Op_Booted at i b) = i"
| "op_cp (Op_Seen at i) = i"
| "op_cp (Op_Heartbeat at i) = i"
| "op_cp (Op_SetConnectorStatus at i n st c) = i"
| "op_cp (Op_StartTransaction t t' i n tag m at) = i"
| "op_cp (Op_StopTransaction t t' i k m r at) = i"
| "op_cp (Op_RecordMeterValues at i n d) = i"

text \<open>
  Every call changes one charge point, and its events are those of its own kind followed by the
  status changes: either the charge point was settled, with one event for every EVSE that moved,
  or no effective status of a known EVSE changed.
\<close>

definition is_change :: "Event \<Rightarrow> bool" where
  "is_change e \<longleftrightarrow> Kind e = EventEVSEStatusChanged"

definition op_shape :: "string \<Rightarrow> Service \<Rightarrow> Event list \<Rightarrow> Service \<Rightarrow> bool" where
  "op_shape i s es s' \<longleftrightarrow>
     (\<exists>cp0 cp' at own.
        cps s' = (cps s)(i \<mapsto> cp') \<and> cfg s' = cfg s \<and> svc_bus s' = svc_bus s \<and>
        list_all (\<lambda>e. \<not> is_change e) own \<and>
        cp_inv i cp' \<and> cp_pre i cp0 \<and>
        (\<forall>u. mget (effective cp0) u StatusUnknown = mget (effective (ensure i s)) u StatusUnknown) \<and>
        (es = own @ map (change_event at cp0) (moved cp0) \<and> cp' = settle cp0 \<or>
         es = own \<and> cp' = cp0))"

lemma op_shapeI_settle:
  assumes "cp_pre i cp0" "list_all (\<lambda>e. \<not> is_change e) own"
    "\<forall>u. mget (effective cp0) u StatusUnknown = mget (effective (ensure i s)) u StatusUnknown"
  shows "op_shape i s (own @ map (change_event at cp0) (moved cp0)) (put_cp i (settle cp0) s)"
  unfolding op_shape_def put_cp_def
  by (rule exI [of _ cp0], rule exI [of _ "settle cp0"], rule exI [of _ at], rule exI [of _ own])
    (use assms cp_pre_settle [OF assms(1)] in simp)

lemma op_shapeI_keep:
  assumes "cp_inv i cp'" "list_all (\<lambda>e. \<not> is_change e) own"
    "\<forall>u. mget (effective cp') u StatusUnknown = mget (effective (ensure i s)) u StatusUnknown"
  shows "op_shape i s own (put_cp i cp' s)"
  unfolding op_shape_def put_cp_def
  by (rule exI [of _ cp'], rule exI [of _ cp'], rule exI, rule exI [of _ own])
    (use assms cp_inv_pre [OF assms(1)] in simp)

lemma op_shape_nextTxID: "op_shape i s es s' \<Longrightarrow> op_shape i s es (s'\<lparr>nextTxID := n\<rparr>)"
  by (simp add: op_shape_def)

lemma effective_addEVSE:
  "mget (effective (addEVSE u n cp)) v StatusUnknown = mget (effective cp) v StatusUnknown"
  by (auto simp: addEVSE_def mget_def)

lemma kinds_not_change [simp]:
  "is_change (event k at i) \<longleftrightarrow> k = EventEVSEStatusChanged"
  "is_change (e\<lparr>Detail := d\<rparr>) = is_change e" "is_change (e\<lparr>EVSEUID := u\<rparr>) = is_change e"
  "is_change (e\<lparr>From := x\<rparr>) = is_change e" "is_change (e\<lparr>To := x\<rparr>) = is_change e"
  "is_change (e\<lparr>ErrorCode := d\<rparr>) = is_change e" "is_change (e\<lparr>TransactionID := n\<rparr>) = is_change e"
  "is_change (e\<lparr>IDTag := d\<rparr>) = is_change e"
  by (simp_all add: is_change_def event_def)

lemma shape_Connected:
  assumes "svc_inv s"
  shows "op_shape i s (fst (Connected_locked at i s)) (snd (Connected_locked at i s))"
proof -
  let ?cp = "(ensure i s)\<lparr>online := True, lastSeen := at\<rparr>"
  have p: "cp_pre i ?cp" using cp_inv_ensure [OF assms] cp_inv_pre by simp
  from op_shapeI_settle [OF p, of "[event EventChargePointConnected at i]"]
  show ?thesis by (simp add: Connected_locked_def Let_def cp_pre_recompute [OF p])
qed

lemma shape_Disconnected:
  assumes "svc_inv s"
  shows "op_shape i s (fst (Disconnected_locked at i r s)) (snd (Disconnected_locked at i r s))"
proof (cases "online (ensure i s)")
  case True
  let ?cp = "(ensure i s)\<lparr>online := False\<rparr>"
  have p: "cp_pre i ?cp" using cp_inv_ensure [OF assms] cp_inv_pre by simp
  from op_shapeI_settle [OF p, of "[(event EventChargePointDisconnected at i)\<lparr>Detail := r\<rparr>]"] True
  show ?thesis by (simp add: Disconnected_locked_def Let_def cp_pre_recompute [OF p])
next
  case False
  then show ?thesis
    using op_shapeI_keep [OF cp_inv_ensure [OF assms]] by (simp add: Disconnected_locked_def)
qed

text \<open>The charge point \<open>SetConnectorStatus\<close> hands to \<open>recompute\<close>, and its own event.\<close>

definition status_cp :: "go_time \<Rightarrow> string \<Rightarrow> int \<Rightarrow> EVSEStatus \<Rightarrow> string \<Rightarrow> Service \<Rightarrow> chargePointState" where
  "status_cp at i n st c s =
     (let cp = (ensure i s)\<lparr>lastSeen := at\<rparr>; u = evseUID s i n; cp' = addEVSE u n cp
      in if n = 0 then cp\<lparr>station := st\<rparr>
         else cp'\<lparr>reported := (reported cp')(u \<mapsto> st), errorCode := (errorCode cp')(u \<mapsto> c)\<rparr>)"

definition status_own :: "go_time \<Rightarrow> string \<Rightarrow> int \<Rightarrow> EVSEStatus \<Rightarrow> string \<Rightarrow> Service \<Rightarrow> Event list" where
  "status_own at i n st c s =
     (if n = 0 \<and> station (ensure i s) \<noteq> st
      then [(event EventStationStatusChanged at i)
              \<lparr>From := station (ensure i s), To := st, ErrorCode := c\<rparr>]
      else [])"

lemma cp_pre_status_cp:
  assumes "svc_inv s"
  shows "cp_pre i (status_cp at i n st c s)"
proof -
  let ?cp = "(ensure i s)\<lparr>lastSeen := at\<rparr>" and ?u = "evseUID s i n"
  have inv: "cp_inv i ?cp" using cp_inv_ensure [OF assms] by simp
  then have "cp_pre i (addEVSE ?u n ?cp)" and "?u \<in> set (order (addEVSE ?u n ?cp))"
    by (simp_all add: cp_inv_addEVSE cp_inv_pre cp_inv_in_order)
  then show ?thesis
    using inv by (simp add: status_cp_def Let_def cp_pre_report cp_inv_pre)
qed

lemma SetConnectorStatus_eq:
  assumes "svc_inv s"
  shows "SetConnectorStatus_locked at i n st c s =
    (status_own at i n st c s @
       map (change_event at (status_cp at i n st c s)) (moved (status_cp at i n st c s)),
     put_cp i (settle (status_cp at i n st c s)) s)"
proof -
  have "SetConnectorStatus_locked at i n st c s =
    (let (es', cp) = recompute at (status_cp at i n st c s)
     in (status_own at i n st c s @ es', put_cp i cp s))"
    by (auto simp: SetConnectorStatus_locked_def status_cp_def status_own_def Let_def)
  then show ?thesis using cp_pre_recompute [OF cp_pre_status_cp [OF assms]] by simp
qed

lemma shape_SetConnectorStatus:
  assumes "svc_inv s"
  shows "op_shape i s (fst (SetConnectorStatus_locked at i n st c s))
           (snd (SetConnectorStatus_locked at i n st c s))"
  unfolding SetConnectorStatus_eq [OF assms] fst_conv snd_conv
  by (rule op_shapeI_settle [OF cp_pre_status_cp [OF assms]])
    (auto simp: status_own_def status_cp_def Let_def effective_addEVSE)

lemma cp_inv_start:
  "cp_inv i cp \<Longrightarrow> tx_ID tx = k \<Longrightarrow> tx_EVSEUID tx \<in> set (order cp) \<Longrightarrow>
   cp_inv i (cp\<lparr>transactions := (transactions cp)(k \<mapsto> tx)\<rparr>)"
  by (simp add: cp_inv_def want_def)

lemma shape_StartTransaction:
  assumes "svc_inv s"
  shows "op_shape i s (fst (snd (StartTransaction_locked t t' i n tag m at s)))
           (snd (snd (StartTransaction_locked t t' i n tag m at s)))"
proof -
  let ?cp = "addEVSE (evseUID s i n) n (ensure i s)"
  have inv: "cp_inv i ?cp" by (intro cp_inv_addEVSE cp_inv_ensure assms)
  have u: "evseUID s i n \<in> set (order ?cp)"
    by (rule cp_inv_in_order [OF cp_inv_ensure [OF assms]])
  show ?thesis
    unfolding StartTransaction_locked_def Let_def fst_conv snd_conv
    by (intro op_shape_nextTxID op_shapeI_keep)
      (simp_all add: cp_inv_start [OF inv] u effective_addEVSE)
qed

lemma shape_StopTransaction:
  assumes "svc_inv s"
  shows "op_shape i s (fst (snd (StopTransaction_locked t t' i k m r at s)))
           (snd (snd (StopTransaction_locked t t' i k m r at s)))"
proof -
  have inv: "cp_inv i (ensure i s)" by (rule cp_inv_ensure [OF assms])
  note keep = op_shapeI_keep [OF inv, of "[]"]
  show ?thesis
  proof (cases "transactions (ensure i s) k")
    case (Some tx)
    have tx: "tx_ID tx = k" "tx_EVSEUID tx \<in> set (order (ensure i s))"
      using inv Some by (auto simp: cp_inv_def)
    show ?thesis
      using Some keep tx inv
      by (auto simp: StopTransaction_locked_def Let_def cp_inv_start intro!: op_shapeI_keep)
  qed (use keep in \<open>simp add: StopTransaction_locked_def\<close>)
qed

lemma shape_RecordMeterValues:
  "svc_inv s \<Longrightarrow>
   op_shape i s (fst (RecordMeterValues_locked at i n d s)) (snd (RecordMeterValues_locked at i n d s))"
  unfolding RecordMeterValues_locked_def Let_def fst_conv snd_conv
  by (rule op_shapeI_keep) (simp_all add: cp_inv_addEVSE cp_inv_ensure effective_addEVSE)

lemma op_shape_locked:
  "svc_inv s \<Longrightarrow> op_shape (op_cp x) s (fst (locked_op x s)) (snd (locked_op x s))"
proof (cases x)
  case (Op_Booted at i b)
  assume "svc_inv s"
  with Op_Booted show ?thesis
    by (auto simp: Booted_locked_def Let_def cp_inv_ensure intro!: op_shapeI_keep)
next
  case (Op_Seen at i)
  assume "svc_inv s"
  with Op_Seen show ?thesis by (auto simp: Seen_locked_def cp_inv_ensure intro!: op_shapeI_keep)
next
  case (Op_Heartbeat at i)
  assume "svc_inv s"
  with Op_Heartbeat show ?thesis
    by (auto simp: Heartbeat_locked_def Seen_locked_def cp_inv_ensure intro!: op_shapeI_keep)
qed (simp_all add: shape_Connected shape_Disconnected shape_SetConnectorStatus
       shape_StartTransaction shape_StopTransaction shape_RecordMeterValues)

lemma locked_nextTxID: "svc_inv s \<Longrightarrow> in_int64 (nextTxID (snd (locked_op x s)))"
  by (cases x) (auto simp: svc_inv_def Connected_locked_def Disconnected_locked_def Booted_locked_def
      Seen_locked_def Heartbeat_locked_def SetConnectorStatus_locked_def StartTransaction_locked_def
      StopTransaction_locked_def RecordMeterValues_locked_def put_cp_def Let_def
      split: prod.splits option.splits)

lemma svc_inv_locked: "svc_inv s \<Longrightarrow> svc_inv (snd (locked_op x s))"
  using op_shape_locked [of s x] locked_nextTxID [of s x]
  by (auto simp: svc_inv_def op_shape_def split: if_splits)

lemma cp_inv_fold_addEVSE:
  "cp_inv i cp \<Longrightarrow> cp_inv i (fold (\<lambda>e. addEVSE (ev_UID e) (ev_OCPPConnectorID e)) es cp)"
  by (induction es arbitrary: cp) (simp_all add: cp_inv_addEVSE)

lemma svc_inv_New: "svc_inv (New c)"
proof (cases c)
  case (Some conf)
  let ?cp = "fold (\<lambda>e. addEVSE (ev_UID e) (ev_OCPPConnectorID e)) (lo_EVSEs (cf_Location conf))
               (newChargePoint (ch_ID (cf_Charger conf)))"
  have "cp_inv (ch_ID (cf_Charger conf)) ?cp" by (intro cp_inv_fold_addEVSE cp_inv_new)
  moreover from this have "cp_id ?cp = ch_ID (cf_Charger conf)" by (simp add: cp_inv_def)
  ultimately show ?thesis
    using Some by (simp add: New_def svc_inv_def bus_inv_new in_int64_def int64_min_def int64_max_def)
qed (simp add: New_def svc_inv_def bus_inv_new in_int64_def int64_min_def int64_max_def)

subsection \<open>The service under concurrent callers\<close>

text \<open>
  Goroutines that have left the critical section and still have to publish are kept in
  \<open>inflight\<close>. A call enters with its section under the lock; every further step publishes one
  event of one goroutine; subscribers act on the bus in between.
\<close>

record core_sys =
  sys_svc :: Service
  inflight :: "Event list list"

inductive core_step :: "core_sys \<Rightarrow> core_sys \<Rightarrow> bool" where
  core_call: "core_step c \<lparr>sys_svc = snd (locked_op x (sys_svc c)),
                           inflight = inflight c @ [fst (locked_op x (sys_svc c))]\<rparr>"
| core_publish: "k < length (inflight c) \<Longrightarrow> inflight c ! k = e # es \<Longrightarrow>
     core_step c \<lparr>sys_svc = publishAll [e] (sys_svc c), inflight = (inflight c)[k := es]\<rparr>"
| core_bus: "bus_step (svc_bus (sys_svc c)) b \<Longrightarrow>
     core_step c (c\<lparr>sys_svc := (sys_svc c)\<lparr>svc_bus := b\<rparr>\<rparr>)"

definition core_init :: "core_sys \<Rightarrow> bool" where
  "core_init c \<longleftrightarrow> inflight c = [] \<and> (\<exists>conf. sys_svc c = New conf)"

lemma core_step_inv: "core_step c c' \<Longrightarrow> svc_inv (sys_svc c) \<Longrightarrow> svc_inv (sys_svc c')"
proof (induction rule: core_step.induct)
  case (core_bus c b)
  then show ?case using bus_inv_step by (auto simp: svc_inv_def)
qed (simp_all add: svc_inv_locked svc_inv_publishAll)

interpretation core: invariant_system core_init core_step "\<lambda>c. svc_inv (sys_svc c)"
  by unfold_locales (auto simp: core_init_def svc_inv_New intro: core_step_inv)

subsection \<open>The event stream as a log of the effective statuses\<close>

text \<open>
  A consumer that keeps its own copy of every EVSE's status, UNKNOWN where it has seen nothing,
  and applies the status-change events to it. It rejects an event whose \<open>From\<close> is not the
  status it has, or that changes nothing.
\<close>

type_synonym view = "string \<times> string \<Rightarrow> EVSEStatus"

fun replay :: "Event list \<Rightarrow> view \<Rightarrow> view option" where
  "replay [] v = Some v"
| "replay (e # es) v =
     (if is_change e
      then if From e = v (ChargePointID e, EVSEUID e) \<and> To e \<noteq> From e
           then replay es (v((ChargePointID e, EVSEUID e) := To e)) else None
      else replay es v)"

definition evse_view :: "Service \<Rightarrow> view" where
  "evse_view s = (\<lambda>(i, u). case cps s i of None \<Rightarrow> StatusUnknown | Some cp \<Rightarrow> mget (effective cp) u StatusUnknown)"

fun run_ops :: "svc_op list \<Rightarrow> Service \<Rightarrow> Event list \<times> Service" where
  "run_ops [] s = ([], s)"
| "run_ops (x # xs) s =
     (let (es, s') = run_ops xs (commit (locked_op x s)) in (fst (locked_op x s) @ es, s'))"

lemma replay_append:
  "replay (es @ es') v = (case replay es v of None \<Rightarrow> None | Some v' \<Rightarrow> replay es' v')"
  by (induction es arbitrary: v) auto

lemma replay_no_change: "list_all (\<lambda>e. \<not> is_change e) es \<Longrightarrow> replay es v = Some v"
  by (induction es) simp_all

lemma change_event_simps [simp]:
  "is_change (change_event at cp u)" "ChargePointID (change_event at cp u) = cp_id cp"
  "EVSEUID (change_event at cp u) = u" "From (change_event at cp u) = mget (effective cp) u StatusUnset"
  "To (change_event at cp u) = want cp u"
  by (simp_all add: change_event_def is_change_def event_def)

lemma replay_changes:
  assumes "distinct us"
    "\<forall>u \<in> set us. v (cp_id cp, u) = mget (effective cp) u StatusUnset \<and> effective cp u \<noteq> Some (want cp u)"
  shows "replay (map (change_event at cp) us) v =
    Some (\<lambda>k. if fst k = cp_id cp \<and> snd k \<in> set us then want cp (snd k) else v k)"
  using assms
proof (induction us arbitrary: v)
  case (Cons u us)
  let ?v = "v((cp_id cp, u) := want cp u)"
  have "replay (map (change_event at cp) (u # us)) v = replay (map (change_event at cp) us) ?v"
    using Cons.prems by (auto simp: mget_eq_want [symmetric])
  also have "\<dots> = Some (\<lambda>k. if fst k = cp_id cp \<and> snd k \<in> set us then want cp (snd k) else ?v k)"
    using Cons.prems by (intro Cons.IH) auto
  also have "(\<lambda>k. if fst k = cp_id cp \<and> snd k \<in> set us then want cp (snd k) else ?v k) =
             (\<lambda>k. if fst k = cp_id cp \<and> snd k \<in> set (u # us) then want cp (snd k) else v k)"
    by auto
  finally show ?case .
qed simp

lemma evse_view_ensure: "evse_view s (i, u) = mget (effective (ensure i s)) u StatusUnknown"
  by (simp add: evse_view_def ensure_def newChargePoint_def split: option.split)

lemma evse_view_upd:
  "cps s' = (cps s)(i \<mapsto> cp) \<Longrightarrow>
   evse_view s' = (\<lambda>k. if fst k = i then mget (effective cp) (snd k) StatusUnknown else evse_view s k)"
  by (auto simp: evse_view_def)

lemma replay_settle:
  assumes "cp_pre i cp"
    "\<forall>u. mget (effective cp) u StatusUnknown = evse_view s (i, u)"
  shows "replay (map (change_event at cp) (moved cp)) (evse_view s) =
    Some (\<lambda>k. if fst k = i then mget (effective (settle cp)) (snd k) StatusUnknown else evse_view s k)"
proof -
  have cp: "cp_id cp = i" "distinct (order cp)" "dom (effective cp) = set (order cp)"
    using assms(1) by (simp_all add: cp_pre_def)
  have d: "distinct (moved cp)" using cp by (simp add: moved_def)
  have m: "evse_view s (cp_id cp, u) = mget (effective cp) u StatusUnset \<and> effective cp u \<noteq> Some (want cp u)"
    if "u \<in> set (moved cp)" for u
  proof -
    have "u \<in> dom (effective cp)" using that cp by (auto simp: moved_def)
    then obtain y where "effective cp u = Some y" by blast
    then show ?thesis using that assms(2) [rule_format, of u] cp(1) by (simp add: moved_def)
  qed
  have "replay (map (change_event at cp) (moved cp)) (evse_view s) =
        Some (\<lambda>k. if fst k = cp_id cp \<and> snd k \<in> set (moved cp) then want cp (snd k) else evse_view s k)"
    by (rule replay_changes [OF d], rule ballI, erule m)
  also have "(\<lambda>k. if fst k = cp_id cp \<and> snd k \<in> set (moved cp) then want cp (snd k) else evse_view s k) =
    (\<lambda>k. if fst k = i then mget (effective (settle cp)) (snd k) StatusUnknown else evse_view s k)"
  proof
    fix k :: "string \<times> string"
    obtain j u where k: "k = (j, u)" by (cases k)
    show "(if fst k = cp_id cp \<and> snd k \<in> set (moved cp) then want cp (snd k) else evse_view s k) =
          (if fst k = i then mget (effective (settle cp)) (snd k) StatusUnknown else evse_view s k)"
      using assms(2) cp(1) by (cases "u \<in> set (order cp)") (auto simp: k settle_def moved_def mget_def split: option.splits)
  qed
  finally show ?thesis .
qed

lemma replay_shape:
  assumes "op_shape i s es s'"
  shows "replay es (evse_view s) = Some (evse_view s')"
proof -
  obtain cp0 cp' at own where *: "cps s' = (cps s)(i \<mapsto> cp')" "list_all (\<lambda>e. \<not> is_change e) own"
      "cp_pre i cp0"
      "\<forall>u. mget (effective cp0) u StatusUnknown = mget (effective (ensure i s)) u StatusUnknown"
      "es = own @ map (change_event at cp0) (moved cp0) \<and> cp' = settle cp0 \<or> es = own \<and> cp' = cp0"
    using assms by (auto simp: op_shape_def)
  from *(5) show ?thesis
  proof
    assume "es = own @ map (change_event at cp0) (moved cp0) \<and> cp' = settle cp0"
    then show ?thesis
      using * replay_settle [OF *(3), of s at]
      by (simp add: replay_append replay_no_change evse_view_upd evse_view_ensure)
  next
    assume "es = own \<and> cp' = cp0"
    moreover have "evse_view s' = evse_view s" if "cps s' = (cps s)(i \<mapsto> cp0)"
      using *(4) evse_view_upd [OF that] by (auto simp: evse_view_ensure [symmetric])
    ultimately show ?thesis using * by (simp add: replay_no_change)
  qed
qed

lemma evse_view_commit [simp]: "evse_view (commit r) = evse_view (snd r)"
  by (simp add: evse_view_def commit_def publishAll_def)

lemma replay_run:
  "svc_inv s \<Longrightarrow> replay (fst (run_ops xs s)) (evse_view s) = Some (evse_view (snd (run_ops xs s)))"
proof (induction xs arbitrary: s)
  case (Cons x xs)
  have "svc_inv (commit (locked_op x s))" by (intro svc_inv_commit svc_inv_locked Cons.prems)
  from Cons.IH [OF this] replay_shape [OF op_shape_locked [OF Cons.prems, of x]]
  show ?case by (simp add: replay_append case_prod_beta)
qed simp

lemma evse_view_New: "evse_view (New c) = (\<lambda>_. StatusUnknown)"
proof -
  have unk: "mget (effective (fold (\<lambda>e. addEVSE (ev_UID e) (ev_OCPPConnectorID e)) es cp)) u StatusUnknown
      = mget (effective cp) u StatusUnknown" for es cp u
    by (induction es arbitrary: cp) (simp_all add: effective_addEVSE)
  show ?thesis
    by (rule ext) (auto simp: evse_view_def New_def Let_def unk newChargePoint_def split: option.split)
qed

end
