(* ===== verification/Core_Props.thy ===== *)
theory Core_Props
  imports Core_Service
begin

text \<open>
  What the domain core promises its readers: which effective status an EVSE may show, that the
  event stream is an exact log of the effective statuses, that transaction ids are fresh and a
  transaction ends once, and that a snapshot does not depend on map iteration order. The last
  section proves three places where the core falls short of what its comments promise.
\<close>

subsection \<open>Effective statuses\<close>

lemma effectiveStatus_cases:
  "effectiveStatus on st c \<notin> {StatusUnknown, StatusOutOfOrder, StatusInoperative} \<Longrightarrow>
   on \<and> st \<notin> {StatusOutOfOrder, StatusInoperative} \<and> c = effectiveStatus on st c"
  by (auto simp: effectiveStatus_def split: if_splits)

text \<open>
  Property C1. In every state the service can reach under concurrent callers, an EVSE of an
  offline charge point reads UNKNOWN, and an EVSE reads anything other than UNKNOWN, OUTOFORDER
  or INOPERATIVE only if its charge point is online, the station as a whole is in service and the
  charger last reported exactly that status for it.
\<close>

theorem effective_status_safe:
  assumes "reachable core_init core_step c" "cps (sys_svc c) i = Some cp" "effective cp u = Some st"
  shows "(\<not> online cp \<longrightarrow> st = StatusUnknown) \<and>
         (st \<notin> {StatusUnknown, StatusOutOfOrder, StatusInoperative} \<longrightarrow>
            online cp \<and> station cp \<notin> {StatusOutOfOrder, StatusInoperative} \<and> reported cp u = Some st)"
proof -
  have inv: "cp_inv i cp"
    using core.reachable_inv [OF assms(1)] assms(2) by (simp add: svc_inv_def)
  then have "u \<in> set (order cp)" using assms(3) by (auto simp: cp_inv_def)
  then have "st = want cp u \<or> st = StatusUnknown" using inv assms(3) by (auto simp: cp_inv_def)
  then show ?thesis
  proof
    assume st: "st = want cp u"
    show ?thesis
      using effectiveStatus_cases [of "online cp" "station cp" "mget (reported cp) u StatusUnset"] st
        want_not_unset [of cp u]
      by (cases "reported cp u") (auto simp: want_def effectiveStatus_not_unset [symmetric])
  qed simp
qed

text \<open>A run of the concurrent service for the witnesses: a charger connects and its connector 1
  reports AVAILABLE.\<close>

definition demo_sys :: core_sys where
  "demo_sys =
     (let s0 = New None;
          r1 = locked_op (Op_Connected (Time 1 0 None) ''CP'') s0;
          r2 = locked_op (Op_SetConnectorStatus (Time 2 0 None) ''CP'' 1 StatusAvailable ''NoError'') (snd r1)
      in \<lparr>sys_svc = snd r2, inflight = [fst r1, fst r2]\<rparr>)"

lemma reach_call:
  "reachable core_init core_step \<lparr>sys_svc = s, inflight = f\<rparr> \<Longrightarrow>
   reachable core_init core_step
     \<lparr>sys_svc = snd (locked_op x s), inflight = f @ [fst (locked_op x s)]\<rparr>"
  using core_call [of "\<lparr>sys_svc = s, inflight = f\<rparr>" x] by (auto elim: reach_step)

lemma reach_New: "reachable core_init core_step \<lparr>sys_svc = New c, inflight = []\<rparr>"
  by (rule reach_init) (auto simp: core_init_def)

lemma demo_reachable: "reachable core_init core_step demo_sys"
  unfolding demo_sys_def Let_def
  using reach_call [OF reach_call [OF reach_New]] by (simp del: locked_op.simps)

lemma demo_effective:
  "map_option (\<lambda>cp. (online cp, effective cp ''CP-1'')) (cps (sys_svc demo_sys) ''CP'') =
     Some (True, Some StatusAvailable)"
  by code_simp

theorem effective_status_safe_witness:
  "\<exists>cp. cps (sys_svc demo_sys) ''CP'' = Some cp \<and> effective cp ''CP-1'' = Some StatusAvailable \<and>
        online cp \<and> station cp \<notin> {StatusOutOfOrder, StatusInoperative} \<and>
        reported cp ''CP-1'' = Some StatusAvailable"
proof -
  obtain cp where cp: "cps (sys_svc demo_sys) ''CP'' = Some cp" "effective cp ''CP-1'' = Some StatusAvailable"
    using demo_effective by auto
  from effective_status_safe [OF demo_reachable this] cp show ?thesis by auto
qed

text \<open>
  After a StatusNotification was recorded, every EVSE of that charge point shows
  exactly the status derived from the connection, the station status and its own last report
  (a report for connector 0 is the station status, any other connector's report is stored under
  the EVSE it maps to), and the other charge points are untouched.
\<close>

theorem SetConnectorStatus_settles:
  assumes "svc_inv s"
  shows "\<exists>cp. cps (SetConnectorStatus at i n st c s) i = Some cp \<and>
     (\<forall>u \<in> set (order cp). effective cp u =
        Some (effectiveStatus (online (ensure i s))
          (if n = 0 then st else station (ensure i s))
          (if n \<noteq> 0 \<and> u = evseUID s i n then st else mget (reported (ensure i s)) u StatusUnset))) \<and>
     (n \<noteq> 0 \<longrightarrow> evseUID s i n \<in> set (order cp)) \<and>
     (\<forall>j. j \<noteq> i \<longrightarrow> cps (SetConnectorStatus at i n st c s) j = cps s j)"
proof -
  let ?cp = "status_cp at i n st c s"
  have pre: "cp_pre i ?cp" by (rule cp_pre_status_cp [OF assms])
  have 1: "cps (SetConnectorStatus at i n st c s) = (cps s)(i \<mapsto> settle ?cp)"
    by (simp add: SetConnectorStatus_def SetConnectorStatus_eq [OF assms] commit_def publishAll_def put_cp_def)
  have add: "online (addEVSE u m cp) = online cp" "station (addEVSE u m cp) = station cp"
    "reported (addEVSE u m cp) = reported cp" for u m and cp :: chargePointState
    by (simp_all add: addEVSE_def)
  have 2: "effective (settle ?cp) u = Some (effectiveStatus (online (ensure i s))
          (if n = 0 then st else station (ensure i s))
          (if n \<noteq> 0 \<and> u = evseUID s i n then st else mget (reported (ensure i s)) u StatusUnset))"
    if "u \<in> set (order ?cp)" for u
    using that by (simp add: effective_settle want_def status_cp_def Let_def add mget_upd)
  have 3: "n \<noteq> 0 \<Longrightarrow> evseUID s i n \<in> set (order (settle ?cp))"
    using cp_inv_in_order [of i "(ensure i s)\<lparr>lastSeen := at\<rparr>"] cp_inv_ensure [OF assms, of i]
    by (simp add: status_cp_def Let_def)
  show ?thesis
    by (rule exI [of _ "settle ?cp"]) (use 1 2 3 in simp)
qed

theorem SetConnectorStatus_settles_witness:
  "\<exists>cp. cps (SetConnectorStatus (Time 1 0 None) ''CP'' 2 StatusCharging [] (New None)) ''CP'' = Some cp \<and>
     evseUID (New None) ''CP'' 2 \<in> set (order cp)"
  using SetConnectorStatus_settles [OF svc_inv_New [of None], of "Time 1 0 None" "''CP''" 2 StatusCharging "[]"]
  by auto

text \<open>
  Repeating a StatusNotification is silent: the second call publishes nothing, so
  chargers that re-send their status do not cause status-change events.
\<close>

theorem repeated_status_silent:
  assumes "svc_inv s"
  shows "fst (SetConnectorStatus_locked at' i n st c' (SetConnectorStatus at i n st c s)) = []"
proof -
  let ?s = "SetConnectorStatus at i n st c s" and ?cp = "status_cp at i n st c s"
  have inv: "svc_inv ?s"
    using svc_inv_commit [OF svc_inv_locked [OF assms, of "Op_SetConnectorStatus at i n st c"]]
    by (simp add: SetConnectorStatus_def)
  have pre: "cp_pre i ?cp" by (rule cp_pre_status_cp [OF assms])
  have cps: "cps ?s = (cps s)(i \<mapsto> settle ?cp)" and cfg: "cfg ?s = cfg s"
    by (simp_all add: SetConnectorStatus_def SetConnectorStatus_eq [OF assms] commit_def publishAll_def put_cp_def)
  have ens: "ensure i ?s = settle ?cp" by (simp add: ensure_def cps)
  have uid: "evseUID ?s i n = evseUID s i n" by (simp add: evseUID_def cfg)
  have coh: "effective (settle ?cp) u = Some (want ?cp u)" if "u \<in> set (order ?cp)" for u
    using that by (rule effective_settle)
  have known: "n \<noteq> 0 \<Longrightarrow> effective (settle ?cp) (evseUID s i n) \<noteq> None"
    using cp_inv_in_order [of i "(ensure i s)\<lparr>lastSeen := at\<rparr>"] cp_inv_ensure [OF assms, of i]
    by (subst coh) (simp_all add: status_cp_def Let_def)
  have rep: "n \<noteq> 0 \<Longrightarrow> reported ?cp (evseUID s i n) = Some st" "n = 0 \<Longrightarrow> station ?cp = st"
    by (simp_all add: status_cp_def Let_def)
  have order: "order (status_cp at' i n st c' ?s) = order ?cp"
    using known by (auto simp: status_cp_def [of at'] Let_def ens uid addEVSE_def)
  have eff: "effective (status_cp at' i n st c' ?s) = effective (settle ?cp)"
    using known by (auto simp: status_cp_def [of at'] Let_def ens uid addEVSE_def)
  have want: "want (status_cp at' i n st c' ?s) u = want ?cp u" for u
    using known rep by (auto simp: status_cp_def [of at'] Let_def ens uid addEVSE_def want_def mget_def)
  have "moved (status_cp at' i n st c' ?s) = []"
    using coh by (auto simp: moved_def order eff want filter_empty_conv)
  moreover have "status_own at' i n st c' ?s = []" using rep by (simp add: status_own_def ens)
  ultimately show ?thesis by (simp add: SetConnectorStatus_eq [OF inv])
qed

theorem repeated_status_silent_witness:
  "fst (SetConnectorStatus_locked (Time 9 0 None) ''CP'' 0 StatusOutOfOrder ''GroundFailure''
     (SetConnectorStatus (Time 1 0 None) ''CP'' 0 StatusOutOfOrder [] (New None))) = []"
  by (rule repeated_status_silent [OF svc_inv_New])

subsection \<open>The event stream\<close>


subsection \<open>Transactions\<close>

definition tx_of :: "Service \<Rightarrow> string \<Rightarrow> int \<Rightarrow> Transaction option" where
  "tx_of s i k = transactions (ensure i s) k"

text \<open>Every recorded transaction has an id the counter has passed.\<close>

definition tx_bound :: "Service \<Rightarrow> bool" where
  "tx_bound s \<longleftrightarrow> 1 \<le> nextTxID s \<and> (\<forall>i k. tx_of s i k \<noteq> None \<longrightarrow> 1 \<le> k \<and> k < nextTxID s)"

fun is_start :: "svc_op \<Rightarrow> bool" where
  "is_start (Op_StartTransaction t t' i n tag m at) = True"
| "is_start _ = False"

fun is_stop :: "svc_op \<Rightarrow> bool" where
  "is_stop (Op_StopTransaction t t' i k m r at) = True"
| "is_stop _ = False"

lemma tx_of_put: "tx_of (put_cp i cp s) j k = (if j = i then transactions cp k else tx_of s j k)"
  by (simp add: tx_of_def ensure_def put_cp_def)

lemma tx_of_simps [simp]:
  "tx_of (s\<lparr>nextTxID := n\<rparr>) j k = tx_of s j k" "tx_of (commit r) j k = tx_of (snd r) j k"
  "nextTxID (put_cp i cp s) = nextTxID s" "nextTxID (commit r) = nextTxID (snd r)"
  by (simp_all add: tx_of_def ensure_def put_cp_def commit_def publishAll_def)

lemma recompute_transactions:
  "distinct (order cp) \<Longrightarrow> transactions (snd (recompute at cp)) = transactions cp"
  by (simp add: recompute_eq)

lemma addEVSE_transactions [simp]: "transactions (addEVSE u n cp) = transactions cp"
  by (simp add: addEVSE_def)

lemma locked_op_tx_other:
  assumes "svc_inv s" "\<not> is_start x" "\<not> is_stop x"
  shows "tx_of (snd (locked_op x s)) j k = tx_of s j k \<and> nextTxID (snd (locked_op x s)) = nextTxID s"
proof -
  have d: "distinct (order (ensure i s))" for i
    using cp_inv_ensure [OF assms(1)] by (rule cp_inv_order)
  have tx: "transactions (status_cp at i n st c s) = transactions (ensure i s)" for at i n st c
    by (simp add: status_cp_def Let_def)
  show ?thesis
    using assms d
    by (cases x) (auto simp: Connected_locked_def Disconnected_locked_def Booted_locked_def
        Seen_locked_def Heartbeat_locked_def SetConnectorStatus_eq tx RecordMeterValues_locked_def Let_def
        tx_of_put recompute_eq tx_of_def [of s] split: if_splits)
qed

lemma start_tx:
  "tx_of (snd (snd (StartTransaction_locked t t' i n tag m at s))) j k =
     (if j = i \<and> k = nextTxID s
      then Some \<lparr>tx_ID = k, tx_EVSEUID = evseUID s i n, tx_ConnectorID = n, tx_IDTag = tag,
             MeterStart = m, StartedAt = (if is_zero at then t else at), StoppedAt = zero_time,
             MeterStop = 0, Reason = []\<rparr>
      else tx_of s j k)"
  "nextTxID (snd (snd (StartTransaction_locked t t' i n tag m at s))) = wrap64 (nextTxID s + 1)"
  by (auto simp: StartTransaction_locked_def Let_def tx_of_put) (simp_all add: tx_of_def)

definition stopped :: "go_time \<Rightarrow> go_time \<Rightarrow> int \<Rightarrow> string \<Rightarrow> Transaction \<Rightarrow> Transaction" where
  "stopped t at m r tx =
     tx\<lparr>StoppedAt := if is_zero at then t else at, MeterStop := m, Reason := r\<rparr>"

lemma stop_tx:
  "fst (StopTransaction_locked t t' i k m r at s) =
     (case tx_of s i k of Some tx \<Rightarrow> if Active tx then Some (stopped t at m r tx) else None | None \<Rightarrow> None)"
  "tx_of (snd (snd (StopTransaction_locked t t' i k m r at s))) j k' =
     (if j = i \<and> k' = k \<and> fst (StopTransaction_locked t t' i k m r at s) \<noteq> None
      then fst (StopTransaction_locked t t' i k m r at s) else tx_of s j k')"
  "nextTxID (snd (snd (StopTransaction_locked t t' i k m r at s))) = nextTxID s"
  by (auto simp: StopTransaction_locked_def Let_def stopped_def tx_of_put split: option.splits)
    (auto simp: tx_of_def)

lemma locked_op_nextTxID:
  assumes "svc_inv s"
  shows "nextTxID (snd (locked_op x s)) = (if is_start x then wrap64 (nextTxID s + 1) else nextTxID s)"
proof (cases x)
  case (Op_StartTransaction t t' i n tag m at)
  then show ?thesis by (simp add: start_tx)
next
  case (Op_StopTransaction t t' i k m r at)
  then show ?thesis by (simp add: stop_tx)
qed (use locked_op_tx_other [OF assms, of x] in auto)

lemma tx_bound_locked:
  assumes "svc_inv s" "tx_bound s" "nextTxID s < int64_max"
  shows "tx_bound (snd (locked_op x s))"
proof (cases x)
  case (Op_StartTransaction t t' i n tag m at)
  have "wrap64 (nextTxID s + 1) = nextTxID s + 1"
    using assms by (intro wrap64_id) (simp add: tx_bound_def in_int64_def int64_min_def)
  then show ?thesis
    using assms Op_StartTransaction by (force simp: tx_bound_def start_tx)
next
  case (Op_StopTransaction t t' i k m r at)
  then show ?thesis
    using assms by (auto simp: tx_bound_def stop_tx split: if_splits option.splits)
qed (use assms locked_op_tx_other [OF assms(1), of x] in \<open>auto simp: tx_bound_def\<close>)

lemma transactions_fold_addEVSE:
  "transactions (fold (\<lambda>e. addEVSE (ev_UID e) (ev_OCPPConnectorID e)) es cp) = transactions cp"
  by (induction es arbitrary: cp) simp_all

lemma tx_of_New: "tx_of (New c) i k = None"
proof (cases c)
  case None
  then show ?thesis by (simp add: New_def tx_of_def ensure_def newChargePoint_def)
next
  case (Some conf)
  let ?cp = "fold (\<lambda>e. addEVSE (ev_UID e) (ev_OCPPConnectorID e)) (lo_EVSEs (cf_Location conf))
               (newChargePoint (ch_ID (cf_Charger conf)))"
  have "transactions ?cp k = None"
    unfolding transactions_fold_addEVSE by (simp add: newChargePoint_def)
  moreover have "transactions (newChargePoint i) k = None" by (simp add: newChargePoint_def)
  ultimately show ?thesis using Some by (simp add: New_def Let_def tx_of_def ensure_def)
qed

lemma tx_bound_New: "tx_bound (New c)"
  by (simp add: tx_bound_def tx_of_New) (simp add: New_def Let_def split: option.split)

lemma run_ops_inv: "svc_inv s \<Longrightarrow> svc_inv (snd (run_ops xs s))"
  by (induction xs arbitrary: s) (simp_all add: case_prod_beta svc_inv_commit svc_inv_locked)

text \<open>No counter overflow in what follows: fewer than 2^63 transactions are started.\<close>

definition no_wrap :: "svc_op list \<Rightarrow> Service \<Rightarrow> bool" where
  "no_wrap xs s \<longleftrightarrow> nextTxID s + int (length xs) \<le> int64_max"

lemma no_wrap_Cons:
  assumes "no_wrap (x # xs) s" "svc_inv s" "tx_bound s"
  shows "no_wrap xs (commit (locked_op x s))" "nextTxID s < int64_max"
proof -
  show n: "nextTxID s < int64_max" using assms by (simp add: no_wrap_def)
  have "wrap64 (nextTxID s + 1) = nextTxID s + 1"
    using assms n by (intro wrap64_id) (simp add: tx_bound_def in_int64_def int64_min_def)
  then show "no_wrap xs (commit (locked_op x s))"
    using assms by (simp add: no_wrap_def locked_op_nextTxID)
qed

lemma run_ops_bound:
  "svc_inv s \<Longrightarrow> tx_bound s \<Longrightarrow> no_wrap xs s \<Longrightarrow> tx_bound (snd (run_ops xs s))"
proof (induction xs arbitrary: s)
  case (Cons x xs)
  have "tx_bound (commit (locked_op x s))"
    using tx_bound_locked [OF Cons.prems(1,2)] no_wrap_Cons [OF Cons.prems(3,1,2)] by (simp add: tx_bound_def)
  then show ?case
    using Cons.IH [of "commit (locked_op x s)"] no_wrap_Cons [OF Cons.prems(3,1,2)] Cons.prems
    by (simp add: case_prod_beta svc_inv_commit svc_inv_locked)
qed simp

lemma run_ops_nextTxID:
  "svc_inv s \<Longrightarrow> tx_bound s \<Longrightarrow> no_wrap xs s \<Longrightarrow>
   nextTxID (snd (run_ops xs s)) \<le> nextTxID s + int (length xs)"
proof (induction xs arbitrary: s)
  case (Cons x xs)
  have n: "nextTxID s < int64_max" by (rule no_wrap_Cons [OF Cons.prems(3,1,2)])
  then have "wrap64 (nextTxID s + 1) = nextTxID s + 1"
    using Cons.prems by (intro wrap64_id) (simp add: tx_bound_def in_int64_def int64_min_def)
  then have "nextTxID (commit (locked_op x s)) \<le> nextTxID s + 1"
    using Cons.prems by (simp add: locked_op_nextTxID)
  moreover have "tx_bound (commit (locked_op x s))"
    using tx_bound_locked [OF Cons.prems(1,2) n] by (simp add: tx_bound_def)
  ultimately show ?case
    using Cons.IH [of "commit (locked_op x s)"] no_wrap_Cons [OF Cons.prems(3,1,2)] Cons.prems
    by (simp add: case_prod_beta svc_inv_commit svc_inv_locked)
qed simp

text \<open>A stopped transaction is never touched again.\<close>

lemma run_ops_stopped:
  "svc_inv s \<Longrightarrow> tx_bound s \<Longrightarrow> no_wrap xs s \<Longrightarrow> tx_of s i k = Some tx \<Longrightarrow> \<not> Active tx \<Longrightarrow>
   tx_of (snd (run_ops xs s)) i k = Some tx"
proof (induction xs arbitrary: s)
  case (Cons x xs)
  have k: "k < nextTxID s" using Cons.prems by (force simp: tx_bound_def)
  have "tx_of (snd (locked_op x s)) i k = Some tx"
  proof (cases x)
    case (Op_StartTransaction t t' j n tag m at)
    then show ?thesis using k Cons.prems by (simp add: start_tx)
  next
    case (Op_StopTransaction t t' j k' m r at)
    then show ?thesis using Cons.prems by (auto simp: stop_tx)
  qed (use Cons.prems locked_op_tx_other [OF Cons.prems(1), of x] in auto)
  moreover have "tx_bound (commit (locked_op x s))"
    using tx_bound_locked [OF Cons.prems(1,2)] no_wrap_Cons [OF Cons.prems(3,1,2)] by (simp add: tx_bound_def)
  ultimately show ?case
    using Cons.IH [of "commit (locked_op x s)"] no_wrap_Cons [OF Cons.prems(3,1,2)] Cons.prems
    by (simp add: case_prod_beta svc_inv_commit svc_inv_locked)
qed simp

text \<open>
  Property C32. Starting a transaction gives it an id that no charge point has ever used, leaves
  every recorded transaction as it was, and records the new one as running on the EVSE its
  connector maps to, until the 64-bit counter is exhausted.
\<close>

theorem StartTransaction_fresh:
  assumes "no_wrap xs (New conf)" "s = snd (run_ops xs (New conf))"
    "StartTransaction now now' i n tag m at s = (k, s')"
  shows "(\<forall>j. tx_of s j k = None) \<and> 1 \<le> k \<and>
         (\<forall>j k'. (j, k') \<noteq> (i, k) \<longrightarrow> tx_of s' j k' = tx_of s j k') \<and>
         (\<exists>tx. tx_of s' i k = Some tx \<and> Active tx \<and> tx_ID tx = k \<and> tx_EVSEUID tx = evseUID s i n \<and>
               tx_ConnectorID tx = n \<and> tx_IDTag tx = tag \<and> MeterStart tx = m \<and>
               StartedAt tx = (if is_zero at then now else at))"
proof -
  have b: "tx_bound s" using run_ops_bound [OF svc_inv_New tx_bound_New assms(1)] assms(2) by simp
  have k: "k = nextTxID s" and s': "s' = commit (snd (StartTransaction_locked now now' i n tag m at s))"
    using assms(3) by (auto simp: StartTransaction_def StartTransaction_locked_def Let_def)
  have "\<forall>j. tx_of s j k = None" "1 \<le> k" using b k by (force simp: tx_bound_def)+
  then show ?thesis by (auto simp: s' start_tx k Active_def is_zero_def zero_time_def)
qed

theorem StartTransaction_fresh_witness:
  "\<forall>j. tx_of (New None) j (fst (StartTransaction zero_time zero_time ''CP'' 1 ''TAG'' 5 zero_time (New None))) = None"
proof -
  have "no_wrap [] (New None)" by (simp add: no_wrap_def New_def int64_max_def)
  moreover have "New None = snd (run_ops [] (New None))" by simp
  ultimately show ?thesis using StartTransaction_fresh [OF _ _ surjective_pairing] by blast
qed

text \<open>
  Property C33. Stopping a transaction succeeds exactly when it is recorded and running on that
  charge point, and then returns it with the stop data filled in. When the stop time is not the
  zero time, no later stop of it succeeds, whatever calls come in between, and the record is
  never changed again.
\<close>

theorem StopTransaction_once:
  assumes "no_wrap (xs @ ys) (New conf)" "s = snd (run_ops xs (New conf))"
    "StopTransaction now now' i k m r at s = (res, s')"
  shows "(res \<noteq> None \<longleftrightarrow> (\<exists>tx. tx_of s i k = Some tx \<and> Active tx)) \<and>
         (\<forall>tx. res = Some tx \<longrightarrow>
            (\<exists>tx0. tx_of s i k = Some tx0 \<and>
               tx = tx0\<lparr>StoppedAt := (if is_zero at then now else at), MeterStop := m, Reason := r\<rparr>) \<and>
            (\<not> is_zero now \<longrightarrow>
               tx_of (snd (run_ops ys s')) i k = Some tx \<and>
               (\<forall>t t' m' r' at'. fst (StopTransaction t t' i k m' r' at' (snd (run_ops ys s'))) = None)))"
proof -
  let ?l = "StopTransaction_locked now now' i k m r at s"
  have res: "res = fst ?l" and s': "s' = commit (snd ?l)"
    using assms(3) by (auto simp: StopTransaction_def case_prod_beta)
  have nw: "no_wrap xs (New conf)" using assms(1) by (simp add: no_wrap_def)
  have inv: "svc_inv s" and b: "tx_bound s"
    using run_ops_inv [OF svc_inv_New] run_ops_bound [OF svc_inv_New tx_bound_New nw] assms(2) by auto
  have inv': "svc_inv s'" and b': "tx_bound s'" and nw': "no_wrap ys s'"
  proof -
    show "svc_inv s'"
      using svc_inv_commit [OF svc_inv_locked [OF inv, of "Op_StopTransaction now now' i k m r at"]] s' by simp
    show "tx_bound s'" using b by (auto simp: tx_bound_def s' stop_tx split: if_splits option.splits)
    from run_ops_nextTxID [OF svc_inv_New tx_bound_New nw] show "no_wrap ys s'"
      using assms(1,2) by (simp add: no_wrap_def s' stop_tx)
  qed
  have "tx_of (snd (run_ops ys s')) i k = Some tx \<and>
        (\<forall>t t' m' r' at'. fst (StopTransaction t t' i k m' r' at' (snd (run_ops ys s'))) = None)"
    if "res = Some tx" "\<not> is_zero now" for tx
  proof -
    have "tx_of s' i k = Some tx" "\<not> Active tx"
      using that by (auto simp: s' res stop_tx stopped_def Active_def split: option.splits if_splits)
    then have st: "tx_of (snd (run_ops ys s')) i k = Some tx" "\<not> Active tx"
      using run_ops_stopped [OF inv' b' nw'] by auto
    then show ?thesis by (simp add: StopTransaction_def case_prod_beta stop_tx)
  qed
  then show ?thesis
    by (auto simp: res stop_tx stopped_def split: option.splits if_splits)
qed

theorem StopTransaction_once_witness:
  "let t = Time 1 0 None; s = snd (run_ops [Op_StartTransaction t t ''CP'' 1 ''TAG'' 5 t] (New None));
       (res, s') = StopTransaction t t ''CP'' 1 9 ''Local'' t s
   in res \<noteq> None \<and> fst (StopTransaction t t ''CP'' 1 9 ''Local'' t s') = None"
proof -
  let ?t = "Time 1 0 None"
  let ?x = "Op_StartTransaction ?t ?t ''CP'' 1 ''TAG'' 5 ?t"
  let ?s = "snd (run_ops [?x] (New None))"
  let ?r = "StopTransaction ?t ?t ''CP'' 1 9 ''Local'' ?t ?s"
  have nw: "no_wrap ([?x] @ []) (New None)" by (simp add: no_wrap_def New_def int64_max_def)
  have nz: "\<not> is_zero ?t" by code_simp
  have ok: "fst ?r \<noteq> None" by code_simp
  then obtain tx where tx: "fst ?r = Some tx" by blast
  have "fst (StopTransaction ?t ?t ''CP'' 1 9 ''Local'' ?t (snd (run_ops [] (snd ?r)))) = None"
    using StopTransaction_once [OF nw refl surjective_pairing [of ?r]] tx nz by blast
  then show ?thesis using ok by (simp only: Let_def case_prod_beta run_ops.simps snd_conv) simp
qed

subsection \<open>Snapshots\<close>

lemma map_filter_Some: "set (List.map_filter f xs) = {y. \<exists>x \<in> set xs. f x = Some y}"
  by (auto simp: List.map_filter_def image_iff) (metis option.sel)

lemma mset_map_filter: "mset xs = mset ys \<Longrightarrow> mset (List.map_filter f xs) = mset (List.map_filter f ys)"
  by (simp add: List.map_filter_def)

lemma map_filter_key:
  "distinct xs \<Longrightarrow> (\<And>x y. x \<in> set xs \<Longrightarrow> f x = Some y \<Longrightarrow> g y = x) \<Longrightarrow> distinct (map g (List.map_filter f xs))"
proof (induction xs)
  case (Cons x xs)
  have "g y \<noteq> x" if "y \<in> set (List.map_filter f xs)" for y
    using that Cons.prems by (auto simp: map_filter_Some)
  moreover have "g y = x" if "f x = Some y" for y using that Cons.prems(2) [of x y] by simp
  ultimately show ?case using Cons by (cases "f x") force+
qed simp

lemma cp_snapshot_ID: "cp_inv i cp \<Longrightarrow> cs_ID (cp_snapshot txs cp) = i"
  by (simp add: cp_snapshot_def cp_inv_def)

lemma Snapshot_pick:
  assumes "\<forall>i cp. cps s i = Some cp \<longrightarrow> cp_snapshot (xs i) cp = cp_snapshot (txs i) cp"
  shows "Snapshot ids xs s =
    sort_key cs_ID (List.map_filter (\<lambda>i. map_option (\<lambda>cp. cp_snapshot (txs i) cp) (cps s i)) ids)"
proof -
  have "map (\<lambda>(i, cp). cp_snapshot (xs i) cp) (List.map_filter (\<lambda>i. map_option (Pair i) (cps s i)) ids) =
        List.map_filter (\<lambda>i. map_option (\<lambda>cp. cp_snapshot (txs i) cp) (cps s i)) ids"
    using assms by (induction ids) (simp_all split: option.split)
  then show ?thesis by (simp add: Snapshot_def)
qed

lemma cp_snapshot_order:
  assumes "cp_inv i cp" "enumerates txs (transactions cp)" "enumerates txs' (transactions cp)"
  shows "cp_snapshot txs cp = cp_snapshot txs' cp"
proof -
  have "sort_key tx_ID (List.map_filter (transactions cp) txs) =
        sort_key tx_ID (List.map_filter (transactions cp) txs')"
    using assms
    by (intro sort_key_unique mset_map_filter enumerates_mset map_filter_key)
      (auto simp: enumerates_def cp_inv_def)
  then show ?thesis by (simp add: cp_snapshot_def)
qed

text \<open>
  A snapshot does not depend on the order in which Go happens to iterate over the
  charge points and the transactions: any two enumerations give the same value, its charge
  points are strictly ascending by id, and exactly the known charge points are in it.
\<close>

theorem Snapshot_deterministic:
  assumes "svc_inv s" "enumerates ids (cps s)" "enumerates ids' (cps s)"
    "\<forall>i cp. cps s i = Some cp \<longrightarrow> enumerates (txs i) (transactions cp) \<and> enumerates (txs' i) (transactions cp)"
  shows "Snapshot ids txs s = Snapshot ids' txs' s \<and>
         sorted_wrt (<) (map cs_ID (Snapshot ids txs s)) \<and>
         set (map cs_ID (Snapshot ids txs s)) = dom (cps s)"
proof -
  define pick where "pick = (\<lambda>i. map_option (\<lambda>cp. cp_snapshot (txs i) cp) (cps s i))"
  have inv: "cp_inv i cp" if "cps s i = Some cp" for i cp using assms(1) that by (simp add: svc_inv_def)
  have key: "cs_ID y = i" if "pick i = Some y" for i y
    using that inv [of i] cp_snapshot_ID by (cases "cps s i") (auto simp: pick_def)
  have dom: "dom pick = dom (cps s)" by (auto simp: pick_def)
  have d: "distinct (map cs_ID (List.map_filter pick ids))"
    using assms(2) by (intro map_filter_key key) (simp_all add: enumerates_def)
  have 1: "Snapshot ids txs s = sort_key cs_ID (List.map_filter pick ids)"
    unfolding pick_def by (rule Snapshot_pick) simp
  have 2: "Snapshot ids' txs' s = sort_key cs_ID (List.map_filter pick ids')"
    unfolding pick_def
    by (rule Snapshot_pick) (use assms(4) in \<open>simp add: cp_snapshot_order [OF inv]\<close>)
  have "Snapshot ids txs s = Snapshot ids' txs' s"
    unfolding 1 2 by (rule sort_key_unique [OF mset_map_filter [OF enumerates_mset [OF assms(2,3)]] d])
  moreover have "sorted_wrt (<) (map cs_ID (Snapshot ids txs s))"
    unfolding 1 strict_sorted_iff using d by (simp add: distinct_map)
  moreover have "set (map cs_ID (Snapshot ids txs s)) = dom (cps s)"
    unfolding 1 using assms(2) dom key by (auto simp: map_filter_Some enumerates_def image_iff) blast
  ultimately show ?thesis by blast
qed

theorem Snapshot_deterministic_witness:
  "sorted_wrt (<) (map cs_ID (Snapshot [''CP''] (\<lambda>_. []) (snd (locked_op (Op_Connected zero_time ''CP'') (New None)))))"
proof -
  let ?s = "snd (locked_op (Op_Connected zero_time ''CP'') (New None))"
  have inv: "svc_inv ?s" by (rule svc_inv_locked [OF svc_inv_New])
  have s: "cps ?s = [''CP'' \<mapsto> (newChargePoint ''CP'')\<lparr>online := True, lastSeen := zero_time\<rparr>]"
    by (simp add: Connected_locked_def New_def Let_def recompute_def ensure_def newChargePoint_def put_cp_def)
  have "enumerates [''CP''] (cps ?s)" unfolding s by (simp add: enumerates_def)
  moreover have "\<forall>i cp. cps ?s i = Some cp \<longrightarrow>
      enumerates ((\<lambda>_. []) i) (transactions cp) \<and> enumerates ((\<lambda>_. []) i) (transactions cp)"
    unfolding s by (simp add: enumerates_def newChargePoint_def)
  ultimately show ?thesis
    using Snapshot_deterministic [OF inv, of "[''CP'']" "[''CP'']" "\<lambda>_. []" "\<lambda>_. []"] by simp
qed

subsection \<open>EVSE uids\<close>

text \<open>
  On a configuration whose uids and connector ids are distinct, connectors of the
  configured charge point are kept apart, provided no configured uid looks like the synthetic
  uid (\<open>id-connector\<close>) of a connector without a mapping; connectors of an unconfigured charge
  point are always kept apart.
\<close>

theorem evseUID_keeps_connectors_apart:
  assumes "cfg s = Some c" "evse_mapping_ok c"
    "\<forall>k. EVSEByConnectorID c k = None \<longrightarrow>
         ch_ID (cf_Charger c) @ ''-'' @ itoa k \<notin> ev_UID ` set (lo_EVSEs (cf_Location c))"
    "evseUID s i m = evseUID s i n"
  shows "m = n"
proof (cases "i = ch_ID (cf_Charger c)")
  case True
  have conf: "evseUID s i k = (case EVSEByConnectorID c k of Some e \<Rightarrow> ev_UID e | None \<Rightarrow> i @ ''-'' @ itoa k)" for k
    using assms(1) True by (simp add: evseUID_def split: option.split)
  have mix: "ev_UID e \<noteq> i @ ''-'' @ itoa k'"
    if "EVSEByConnectorID c k = Some e" "EVSEByConnectorID c k' = None" for k k' e
    using assms(3) EVSEByConnectorID_Some [OF that(1)] that(2) True by force
  show ?thesis
  proof (cases "EVSEByConnectorID c m")
    case None
    then show ?thesis
      using assms(4) mix by (cases "EVSEByConnectorID c n") (auto simp: conf itoa_inject dest: sym)
  next
    case (Some e)
    then obtain e' where e': "EVSEByConnectorID c n = Some e'" "ev_UID e = ev_UID e'"
      using assms(4) mix by (cases "EVSEByConnectorID c n") (auto simp: conf)
    have "e = e'"
      using EVSEByUID_self [OF assms(2)] EVSEByConnectorID_Some [OF Some] EVSEByConnectorID_Some [OF e'(1)] e'(2)
      by (metis option.inject)
    then show ?thesis
      using EVSEByConnectorID_Some [OF Some] EVSEByConnectorID_Some [OF e'(1)] by simp
  qed
next
  case False
  then show ?thesis using assms(1,4) by (simp add: evseUID_def itoa_inject)
qed

text \<open>A station with one EVSE, on connector 1, whose uid is a parameter.\<close>

definition one_evse :: "string \<Rightarrow> Config" where
  "one_evse uid =
     (let d = \<lparr>raw = [], dur = 0\<rparr> in
      \<lparr>cf_Charger = \<lparr>ch_ID = ''CP1'', ch_IP = [], ch_OCPPVersion = ''1.6'', ch_HeartbeatInterval = d,
                     ch_HeartbeatTimeout = d, ch_CallTimeout = d\<rparr>,
       cf_Server = \<lparr>sv_OCPPBind = [], sv_OCPIBind = []\<rparr>,
       cf_Auth = \<lparr>DefaultIDTag = ''TAG''\<rparr>,
       cf_OCPI = \<lparr>oc_CountryCode = ''DE'', oc_PartyID = ''ABC'', oc_PublicBaseURL = [], oc_TokenA = [],
                  oc_TokenC = [], oc_Push = \<lparr>pu_Debounce = d, pu_MaxRetries = 0\<rparr>\<rparr>,
       cf_Location = \<lparr>lo_ID = ''L'', lo_Name = [], lo_Address = [], lo_City = [], lo_PostalCode = [],
                      lo_Country = ''DEU'', lo_Coordinates = \<lparr>co_Latitude = [], co_Longitude = []\<rparr>,
                      lo_EVSEs = [\<lparr>ev_UID = uid, ev_EVSEID = ''DE*ABC*E1'', ev_OCPPConnectorID = 1,
                                   ev_Connectors = []\<rparr>]\<rparr>\<rparr>)"

theorem evseUID_keeps_connectors_apart_witness:
  "\<not> evseUID (New (Some (one_evse ''EVSE1''))) ''CP1'' 1 = evseUID (New (Some (one_evse ''EVSE1''))) ''CP1'' 2"
proof
  let ?c = "one_evse ''EVSE1''"
  assume eq: "evseUID (New (Some ?c)) ''CP1'' 1 = evseUID (New (Some ?c)) ''CP1'' 2"
  have "cfg (New (Some ?c)) = Some ?c" by (simp add: New_def Let_def)
  moreover have "evse_mapping_ok ?c" by (simp add: evse_mapping_ok_def one_evse_def Let_def)
  moreover have "\<forall>k. EVSEByConnectorID ?c k = None \<longrightarrow>
      ch_ID (cf_Charger ?c) @ ''-'' @ itoa k \<notin> ev_UID ` set (lo_EVSEs (cf_Location ?c))"
    by (simp add: one_evse_def Let_def)
  ultimately have "(1::int) = 2" using evseUID_keeps_connectors_apart eq by blast
  then show False by simp
qed

subsection \<open>Shortcomings\<close>

text \<open>
  The proviso above is needed: a valid configuration can name an EVSE like the synthetic uid of
  another connector, and then a report for that connector overwrites the configured EVSE's
  status. Here connector 1 is AVAILABLE, and a fault on the unmapped connector 2 takes it over.
\<close>

theorem synthetic_uid_collision:
  "evse_mapping_ok (one_evse ''CP1-2'') \<and>
   (let t = Time 1 0 None; s0 = New (Some (one_evse ''CP1-2''));
        s1 = SetConnectorStatus t ''CP1'' 1 StatusAvailable [] (Connected t ''CP1'' s0);
        s2 = SetConnectorStatus t ''CP1'' 2 StatusOutOfOrder [] s1
    in EVSEStatus_of [''CP1''] s1 ''CP1-2'' = Some StatusAvailable \<and>
       EVSEStatus_of [''CP1''] s2 ''CP1-2'' = Some StatusOutOfOrder)"
  by (rule conjI, simp add: evse_mapping_ok_def one_evse_def Let_def, code_simp)

text \<open>
  An EVSE that first appears in a StartTransaction (or MeterValues) is added as UNKNOWN and not
  recomputed, so on a faulted station it does not show the station-wide override until the next
  status change.
\<close>

theorem late_evse_misses_override:
  "let t = Time 1 0 None;
       s1 = SetConnectorStatus t ''CP'' 0 StatusOutOfOrder [] (Connected t ''CP'' (New None));
       s2 = snd (StartTransaction t t ''CP'' 1 ''TAG'' 0 t s1)
   in EVSEStatus_of [''CP''] s2 ''CP-1'' = Some StatusUnknown \<and>
      map_option (\<lambda>cp. want cp ''CP-1'') (cps s2 ''CP'') = Some StatusOutOfOrder"
  by code_simp

text \<open>
  Events are published after the lock is released, so two callers can publish in the other order
  than they changed the state. \<open>core_exec\<close> runs a given schedule of the concurrent service.
\<close>

datatype core_act = ACall svc_op | APublish nat | ASubscribe string

fun core_exec :: "core_act list \<Rightarrow> core_sys \<Rightarrow> core_sys" where
  "core_exec [] c = c"
| "core_exec (ACall x # as) c =
     core_exec as \<lparr>sys_svc = snd (locked_op x (sys_svc c)),
                   inflight = inflight c @ [fst (locked_op x (sys_svc c))]\<rparr>"
| "core_exec (APublish k # as) c =
     core_exec as
       (if k < length (inflight c)
        then case inflight c ! k of
               [] \<Rightarrow> c
             | e # es \<Rightarrow> \<lparr>sys_svc = publishAll [e] (sys_svc c), inflight = (inflight c)[k := es]\<rparr>
        else c)"
| "core_exec (ASubscribe name # as) c =
     core_exec as (c\<lparr>sys_svc := (sys_svc c)\<lparr>svc_bus := snd (Subscribe name (svc_bus (sys_svc c)))\<rparr>\<rparr>)"

lemma core_exec_reachable:
  "reachable core_init core_step c \<Longrightarrow> reachable core_init core_step (core_exec as c)"
proof (induction as c rule: core_exec.induct)
  case (3 k as c)
  have "reachable core_init core_step
      (if k < length (inflight c)
       then case inflight c ! k of [] \<Rightarrow> c
            | e # es \<Rightarrow> \<lparr>sys_svc = publishAll [e] (sys_svc c), inflight = (inflight c)[k := es]\<rparr>
       else c)"
    using "3.prems" core_publish [of k c] by (cases "inflight c ! k") (auto intro: reach_step)
  from "3.IH" [OF this] show ?case by simp
next
  case (2 x as c)
  show ?case unfolding core_exec.simps by (rule "2.IH", rule reach_step [OF "2.prems"], rule core_call)
next
  case (4 name as c)
  show ?case
    unfolding core_exec.simps by (rule "4.IH", rule reach_step [OF "4.prems"], intro core_bus bus_subscribe)
qed simp

text \<open>A schedule: connector 1 reports AVAILABLE; CHARGING and AVAILABLE are then recorded by two
  callers, of which the second publishes first.\<close>

definition race_sys :: core_sys where
  "race_sys =
     (let t = Time 1 0 None in
      core_exec
        [ASubscribe ''tui'', ACall (Op_Connected t ''CP''), APublish 0,
         ACall (Op_SetConnectorStatus t ''CP'' 1 StatusAvailable []), APublish 1,
         ACall (Op_SetConnectorStatus t ''CP'' 1 StatusCharging []),
         ACall (Op_SetConnectorStatus t ''CP'' 1 StatusAvailable []), APublish 3, APublish 2]
        \<lparr>sys_svc = New None, inflight = []\<rparr>)"

text \<open>
  Publication after the lock is released can reorder events: under that schedule
  every event has been published and none was dropped, the EVSE is AVAILABLE, and the last event
  the subscriber has says CHARGING.
\<close>

theorem publication_order_race:
  "reachable core_init core_step race_sys \<and> concat (inflight race_sys) = [] \<and>
   EVSEStatus_of [''CP''] (sys_svc race_sys) ''CP-1'' = Some StatusAvailable \<and>
   map_option (\<lambda>s. (To (last (sub_ch s)), sub_drops s)) (bus_store (svc_bus (sys_svc race_sys)) 0) =
     Some (StatusCharging, 0)"
proof (intro conjI)
  show "reachable core_init core_step race_sys"
    unfolding race_sys_def Let_def by (rule core_exec_reachable [OF reach_New])
qed code_simp+

end
