(* ===== verification/V16_Handler.thy ===== *)
theory V16_Handler
  imports V16_Commands Core_Props
begin

text \<open>
  The OCPP 1.6 adapter for inbound messages (\<open>internal/ocpp/v16/handler.go\<close> and \<open>status.go\<close>):
  every message of a charge point is decoded, validated and turned into a call of the domain
  core, and answered. A handler's result is a \<^typ>\<open>RPCError + json\<close>, \<open>Inl\<close> the CALLERROR,
  together with the new state of the core. Logging is left out.
\<close>

subsection \<open>Status tables\<close>

definition statusMap :: "string \<rightharpoonup> EVSEStatus" where
  "statusMap = map_of
     [(''Available'', StatusAvailable), (''Preparing'', StatusAvailable), (''Finishing'', StatusAvailable),
      (''Charging'', StatusCharging), (''SuspendedEV'', StatusCharging), (''SuspendedEVSE'', StatusCharging),
      (''Reserved'', StatusReserved), (''Unavailable'', StatusInoperative), (''Faulted'', StatusOutOfOrder)]"

definition MapStatus :: "string \<Rightarrow> EVSEStatus" where
  "MapStatus s = (case statusMap s of Some st \<Rightarrow> st | None \<Rightarrow> StatusUnknown)"

definition commandStatusMap :: "string \<Rightarrow> string \<rightharpoonup> CommandStatus" where
  "commandStatusMap action =
     (if action = ActionReserveNow then map_of
        [(ReservationAccepted, CommandAccepted), (ReservationFaulted, CommandFaulted),
         (ReservationOccupied, CommandOccupied), (ReservationRejected, CommandRejected),
         (ReservationUnavailable, CommandUnavailable)]
      else if action = ActionCancelReservation then map_of
        [(CmdAccepted, CommandAccepted), (CmdRejected, CommandRejected)]
      else if action = ActionRemoteStartTransaction then map_of
        [(CmdAccepted, CommandAccepted), (CmdRejected, CommandRejected)]
      else if action = ActionRemoteStopTransaction then map_of
        [(CmdAccepted, CommandAccepted), (CmdRejected, CommandRejected)]
      else if action = ActionUnlockConnector then map_of
        [(UnlockUnlocked, CommandUnlocked), (UnlockFailed, CommandUnlockFailed),
         (UnlockNotSupported, CommandNotSupported)]
      else if action = ActionTriggerMessage then map_of
        [(TriggerAccepted, CommandAccepted), (TriggerRejected, CommandRejected),
         (TriggerNotImplemented, CommandNotImplemented)]
      else Map.empty)"

definition MapCommandStatus :: "string \<Rightarrow> string \<Rightarrow> CommandStatus" where
  "MapCommandStatus action status =
     (case commandStatusMap action status of Some c \<Rightarrow> c | None \<Rightarrow> CommandUnknown)"

subsection \<open>Handlers\<close>

text \<open>The clock readings of one call: the handler's own, and the two the core may take.\<close>

record clocks =
  h_now :: go_time
  s_now :: go_time
  s_now' :: go_time

type_synonym response = "RPCError + json"

definition knownTag :: "Config \<Rightarrow> string \<Rightarrow> bool" where
  "knownTag c tag = equal_fold tag (DefaultIDTag (cf_Auth c))"

definition bootNotification ::
  "Config \<Rightarrow> clocks \<Rightarrow> string \<Rightarrow> json option \<Rightarrow> Service \<Rightarrow> response \<times> Service" where
  "bootNotification c t cpID payload s =
     (case decode ''BootNotificationReq'' BootNotificationReq_fields BootNotificationReq_zero payload of
        Inl e \<Rightarrow> (Inl e, s)
      | Inr req \<Rightarrow>
          (case BootNotificationReq_validate req of
             Some e \<Rightarrow> (Inl e, s)
           | None \<Rightarrow>
               let serial = (if bnr_ChargePointSerialNumber req = [] then bnr_ChargeBoxSerialNumber req
                             else bnr_ChargePointSerialNumber req);
                   info = \<lparr>Vendor = bnr_ChargePointVendor req, Model = bnr_ChargePointModel req,
                           SerialNumber = serial, FirmwareVersion = bnr_FirmwareVersion req,
                           boot_At = zero_time\<rparr>
               in (Inr (BootNotificationConf_json
                     \<lparr>bnc_Status = ''Accepted'', bnc_CurrentTime = formatTime (h_now t),
                      bnc_Interval = whole_seconds (dur (ch_HeartbeatInterval (cf_Charger c)))\<rparr>),
                   Booted (s_now t) cpID info s)))"

definition heartbeat :: "clocks \<Rightarrow> string \<Rightarrow> Service \<Rightarrow> response \<times> Service" where
  "heartbeat t cpID s =
     (Inr (HeartbeatConf_json \<lparr>hbc_CurrentTime = formatTime (h_now t)\<rparr>), Heartbeat (s_now t) cpID s)"

definition statusNotification ::
  "clocks \<Rightarrow> string \<Rightarrow> json option \<Rightarrow> Service \<Rightarrow> response \<times> Service" where
  "statusNotification t cpID payload s =
     (case decode ''StatusNotificationReq'' StatusNotificationReq_fields StatusNotificationReq_zero payload of
        Inl e \<Rightarrow> (Inl e, s)
      | Inr req \<Rightarrow>
          (case StatusNotificationReq_validate statusMap req of
             Some e \<Rightarrow> (Inl e, s)
           | None \<Rightarrow>
               (Inr emptyConf,
                SetConnectorStatus (s_now t) cpID (snr_ConnectorID req) (MapStatus (snr_Status req))
                  (snr_ErrorCode req) s)))"

definition authorize ::
  "Config \<Rightarrow> clocks \<Rightarrow> string \<Rightarrow> json option \<Rightarrow> Service \<Rightarrow> response \<times> Service" where
  "authorize c t cpID payload s =
     (case decode ''AuthorizeReq'' AuthorizeReq_fields AuthorizeReq_zero payload of
        Inl e \<Rightarrow> (Inl e, s)
      | Inr req \<Rightarrow>
          if aur_IDTag req = [] then (Inl (missing ''idTag''), s)
          else let status = (if knownTag c (aur_IDTag req) then AuthAccepted else AuthInvalid)
               in (Inr (AuthorizeConf_json
                     \<lparr>auc_IDTagInfo = \<lparr>iti_Status = status, iti_ExpiryDate = [], iti_ParentIDTag = []\<rparr>\<rparr>),
                   Seen (s_now t) cpID s))"

definition startTransaction ::
  "Config \<Rightarrow> clocks \<Rightarrow> string \<Rightarrow> json option \<Rightarrow> Service \<Rightarrow> response \<times> Service" where
  "startTransaction c t cpID payload s =
     (case decode ''StartTransactionReq'' StartTransactionReq_fields StartTransactionReq_zero payload of
        Inl e \<Rightarrow> (Inl e, s)
      | Inr req \<Rightarrow>
          (case StartTransactionReq_validate req of
             Some e \<Rightarrow> (Inl e, s)
           | None \<Rightarrow>
               if \<not> knownTag c (str_IDTag req)
               then (Inr (StartTransactionConf_json
                       \<lparr>stc_TransactionID = 0,
                        stc_IDTagInfo = \<lparr>iti_Status = AuthInvalid, iti_ExpiryDate = [], iti_ParentIDTag = []\<rparr>\<rparr>),
                     Seen (s_now t) cpID s)
               else let at = parseTime (str_Timestamp req) (h_now t);
                        (txID, s') = StartTransaction (s_now t) (s_now' t) cpID (str_ConnectorID req)
                                       (str_IDTag req) (str_MeterStart req) at s
                    in (Inr (StartTransactionConf_json
                          \<lparr>stc_TransactionID = txID,
                           stc_IDTagInfo = \<lparr>iti_Status = AuthAccepted, iti_ExpiryDate = [], iti_ParentIDTag = []\<rparr>\<rparr>),
                        s')))"

definition stopTransaction ::
  "clocks \<Rightarrow> string \<Rightarrow> json option \<Rightarrow> Service \<Rightarrow> response \<times> Service" where
  "stopTransaction t cpID payload s =
     (case decode ''StopTransactionReq'' StopTransactionReq_fields StopTransactionReq_zero payload of
        Inl e \<Rightarrow> (Inl e, s)
      | Inr req \<Rightarrow>
          let at = parseTime (spr_Timestamp req) (h_now t);
              (_, s') = StopTransaction (s_now t) (s_now' t) cpID (spr_TransactionID req)
                          (spr_MeterStop req) (spr_Reason req) at s
          in (Inr (StopTransactionConf_json \<lparr>spc_IDTagInfo = None\<rparr>), s'))"

definition summariseMeterValues :: "MeterValue list \<Rightarrow> string" where
  "summariseMeterValues values =
     (if values = [] then ''no samples''
      else if mev_SampledValue (last values) = [] then ''no samples''
      else go_join '' ''
        (map (\<lambda>sv. (if smv_Measurand sv = [] then ''Energy.Active.Import.Register'' else smv_Measurand sv)
                    @ ''='' @ smv_Value sv @ smv_Unit sv)
          (mev_SampledValue (last values))))"

definition meterValues :: "clocks \<Rightarrow> string \<Rightarrow> json option \<Rightarrow> Service \<Rightarrow> response \<times> Service" where
  "meterValues t cpID payload s =
     (case decode ''MeterValuesReq'' MeterValuesReq_fields MeterValuesReq_zero payload of
        Inl e \<Rightarrow> (Inl e, s)
      | Inr req \<Rightarrow>
          (Inr emptyConf,
           RecordMeterValues (s_now t) cpID (mvr_ConnectorID req) (summariseMeterValues (mvr_MeterValue req)) s))"

definition dataTransfer :: "clocks \<Rightarrow> string \<Rightarrow> json option \<Rightarrow> Service \<Rightarrow> response \<times> Service" where
  "dataTransfer t cpID payload s =
     (case decode ''DataTransferReq'' DataTransferReq_fields DataTransferReq_zero payload of
        Inl e \<Rightarrow> (Inl e, s)
      | Inr req \<Rightarrow>
          (Inr (DataTransferConf_json \<lparr>dtc_Status = ''Rejected'', dtc_Data = []\<rparr>), Seen (s_now t) cpID s))"

definition statusOnly :: "clocks \<Rightarrow> string \<Rightarrow> json option \<Rightarrow> Service \<Rightarrow> response \<times> Service" where
  "statusOnly t cpID payload s =
     (case decode ''StatusOnlyReq'' StatusOnlyReq_fields StatusOnlyReq_zero payload of
        Inl e \<Rightarrow> (Inl e, s)
      | Inr req \<Rightarrow> (Inr emptyConf, Seen (s_now t) cpID s))"

definition HandleCall ::
  "Config \<Rightarrow> clocks \<Rightarrow> string \<Rightarrow> string \<Rightarrow> json option \<Rightarrow> Service \<Rightarrow> response \<times> Service" where
  "HandleCall c t cpID action payload s =
     (if action = ActionBootNotification then bootNotification c t cpID payload s
      else if action = ActionHeartbeat then heartbeat t cpID s
      else if action = ActionStatusNotification then statusNotification t cpID payload s
      else if action = ActionAuthorize then authorize c t cpID payload s
      else if action = ActionStartTransaction then startTransaction c t cpID payload s
      else if action = ActionStopTransaction then stopTransaction t cpID payload s
      else if action = ActionMeterValues then meterValues t cpID payload s
      else if action = ActionDataTransfer then dataTransfer t cpID payload s
      else if action = ActionFirmwareStatusNotification \<or> action = ActionDiagnosticsStatusNotification
        then statusOnly t cpID payload s
      else (Inl (Errorf ErrNotImplemented (''action '' @ go_quote action @ '' is not implemented'')), s))"

lemmas handler_defs = bootNotification_def heartbeat_def statusNotification_def authorize_def
  startTransaction_def stopTransaction_def meterValues_def dataTransfer_def statusOnly_def

subsection \<open>The handler as a call handler\<close>

definition actions16 :: "string set" where
  "actions16 = {ActionBootNotification, ActionHeartbeat, ActionStatusNotification, ActionAuthorize,
     ActionStartTransaction, ActionStopTransaction, ActionMeterValues, ActionDataTransfer,
     ActionFirmwareStatusNotification, ActionDiagnosticsStatusNotification}"

text \<open>What a call does to the core: nothing when it is answered with an error, otherwise exactly
  one operation on the caller's own charge point.\<close>

definition one_op :: "string \<Rightarrow> Service \<Rightarrow> response \<times> Service \<Rightarrow> bool" where
  "one_op cp s r \<longleftrightarrow>
     (\<exists>e. r = (Inl e, s)) \<or> (\<exists>j x. op_cp x = cp \<and> r = (Inr j, commit (locked_op x s)))"

lemma one_op_error [intro!, simp]: "one_op cp s (Inl e, s)"
  by (simp add: one_op_def)

lemma one_op_commit: "op_cp x = cp \<Longrightarrow> one_op cp s (Inr j, commit (locked_op x s))"
  by (auto simp: one_op_def)

lemma one_op_core [intro!, simp]:
  "one_op cp s (Inr j, Seen t cp s)"
  "one_op cp s (Inr j, Heartbeat t cp s)"
  "one_op cp s (Inr j, Booted t cp info s)"
  "one_op cp s (Inr j, SetConnectorStatus t cp n st e s)"
  "one_op cp s (Inr j, RecordMeterValues t cp n d s)"
  "one_op cp s (Inr j, snd (StartTransaction t t' cp n tag m at s))"
  "one_op cp s (Inr j, snd (StopTransaction t t' cp k m r at s))"
  using one_op_commit [of "Op_Seen t cp" cp s j] one_op_commit [of "Op_Heartbeat t cp" cp s j]
    one_op_commit [of "Op_Booted t cp info" cp s j]
    one_op_commit [of "Op_SetConnectorStatus t cp n st e" cp s j]
    one_op_commit [of "Op_RecordMeterValues t cp n d" cp s j]
    one_op_commit [of "Op_StartTransaction t t' cp n tag m at" cp s j]
    one_op_commit [of "Op_StopTransaction t t' cp k m r at" cp s j]
  by (simp_all add: Seen_def commit_def publishAll_def Heartbeat_def Booted_def SetConnectorStatus_def
      RecordMeterValues_def StartTransaction_def StopTransaction_def case_prod_beta)

lemma one_op_handlers [intro!, simp]:
  "one_op cp s (bootNotification c t cp p s)" "one_op cp s (heartbeat t cp s)"
  "one_op cp s (statusNotification t cp p s)" "one_op cp s (authorize c t cp p s)"
  "one_op cp s (startTransaction c t cp p s)" "one_op cp s (stopTransaction t cp p s)"
  "one_op cp s (meterValues t cp p s)" "one_op cp s (dataTransfer t cp p s)"
  "one_op cp s (statusOnly t cp p s)"
  by (simp_all add: handler_defs Let_def case_prod_beta split: sum.split option.split)

lemma HandleCall_one_op: "one_op cp s (HandleCall c t cp a p s)"
  by (simp add: HandleCall_def)

lemma cps_locked_other: "svc_inv s \<Longrightarrow> op_cp x \<noteq> j \<Longrightarrow> cps (snd (locked_op x s)) j = cps s j"
  using op_shape_locked [of s x] by (auto simp: op_shape_def)

lemma cps_commit [simp]: "cps (commit r) = cps (snd r)"
  by (simp add: commit_def publishAll_def)

lemma one_op_inv: "one_op cp s r \<Longrightarrow> svc_inv s \<Longrightarrow> svc_inv (snd r)"
  by (auto simp: one_op_def intro!: svc_inv_commit svc_inv_locked)

lemma one_op_other: "one_op cp s r \<Longrightarrow> svc_inv s \<Longrightarrow> j \<noteq> cp \<Longrightarrow> cps (snd r) j = cps s j"
  by (auto simp: one_op_def cps_locked_other)

lemma one_op_err_same: "one_op cp s r \<Longrightarrow> fst r = Inl e \<Longrightarrow> snd r = s"
  by (auto simp: one_op_def)

lemma HandleCall_unknown:
  "a \<notin> actions16 \<Longrightarrow>
   HandleCall c t cp a p s = (Inl (Errorf ErrNotImplemented (''action '' @ go_quote a @ '' is not implemented'')), s)"
  by (simp add: HandleCall_def actions16_def)

interpretation v16: call_handler "HandleCall c" actions16 svc_inv "\<lambda>i s. cps s i" for c
proof unfold_locales
  show "svc_inv (snd (HandleCall c t cp a p s))" if "svc_inv s" for s t cp a p
    using one_op_inv [OF HandleCall_one_op that] .
  show "snd (HandleCall c t cp a p s) = s" if "fst (HandleCall c t cp a p s) = Inl e" for t cp a p s e
    using one_op_err_same [OF HandleCall_one_op that] .
  show "\<exists>d. fst (HandleCall c t cp a p s) = Inl (Errorf ErrNotImplemented d)" if "a \<notin> actions16" for a t cp p s
    unfolding HandleCall_unknown [OF that, of c t cp p s] fst_conv by blast
  show "cps (snd (HandleCall c t cp a p s)) cp' = cps s cp'" if "svc_inv s" "cp' \<noteq> cp" for s cp' cp t a p
    using one_op_other [OF HandleCall_one_op that] .
qed

subsection \<open>Properties\<close>

text \<open>
  Property C12. A message that is answered with a CALLERROR has no effect: after any sequence of
  inbound calls the core is in the state it would be in had only the successfully answered calls
  arrived. Every call is answered, and the other charge points are untouched.
\<close>

theorem errors_leave_no_trace:
  "length (fst (serve (HandleCall c) cp xs (New conf))) = length xs \<and>
   snd (serve (HandleCall c) cp xs (New conf)) =
     snd (serve (HandleCall c) cp (accepted (HandleCall c) cp xs (New conf)) (New conf)) \<and>
   svc_inv (snd (serve (HandleCall c) cp xs (New conf))) \<and>
   (\<forall>j. j = cp \<or> cps (snd (serve (HandleCall c) cp xs (New conf))) j = cps (New conf) j)"
  using v16.serve_answers v16.serve_accepted v16.serve_inv [OF svc_inv_New]
    v16.serve_other [OF svc_inv_New]
  by blast

text \<open>
  Property C34. A charging session starts only for the configured tag (up to case), on a connector
  other than the station itself: the request is answered Accepted with the new transaction's id,
  which is recorded as running; any other well-formed request is answered Invalid with id 0 and
  no transaction is recorded or changed.
\<close>

theorem startTransaction_authorised:
  assumes "StartTransactionReq_ok r" "str_ConnectorID r \<ge> 1" "str_IDTag r \<noteq> []"
    "HandleCall c t cp ActionStartTransaction (Some (StartTransactionReq_json r)) s = (res, s')"
  shows "if equal_fold (str_IDTag r) (DefaultIDTag (cf_Auth c))
    then res = Inr (StartTransactionConf_json \<lparr>stc_TransactionID = nextTxID s, stc_IDTagInfo =
           \<lparr>iti_Status = ''Accepted'', iti_ExpiryDate = [], iti_ParentIDTag = []\<rparr>\<rparr>) \<and>
         (\<exists>tx. tx_of s' cp (nextTxID s) = Some tx \<and> Active tx \<and> tx_IDTag tx = str_IDTag r \<and>
               tx_ConnectorID tx = str_ConnectorID r \<and> MeterStart tx = str_MeterStart r)
    else res = Inr (StartTransactionConf_json \<lparr>stc_TransactionID = 0, stc_IDTagInfo =
           \<lparr>iti_Status = ''Invalid'', iti_ExpiryDate = [], iti_ParentIDTag = []\<rparr>\<rparr>) \<and>
         (\<forall>j k. tx_of s' j k = tx_of s j k)"
proof -
  have dec: "decode ''StartTransactionReq'' StartTransactionReq_fields StartTransactionReq_zero
      (Some (StartTransactionReq_json r)) = Inr r"
    using assms(1) by (simp add: decode_def)
  have val: "StartTransactionReq_validate r = None"
    using assms(2,3) by (simp add: StartTransactionReq_validate_def)
  have hc: "HandleCall c t cp ActionStartTransaction p s = startTransaction c t cp p s" for p
    by (simp add: HandleCall_def action_defs)
  have id: "fst (StartTransaction a b cp n tag m at s) = nextTxID s" for a b n tag m at
    by (simp add: StartTransaction_def StartTransaction_locked_def Let_def)
  have st: "snd (StartTransaction a b cp n tag m at s) =
      commit (snd (StartTransaction_locked a b cp n tag m at s))" for a b n tag m at
    by (simp add: StartTransaction_def case_prod_beta)
  show ?thesis
    using assms(4) unfolding hc
    by (auto simp: startTransaction_def dec val knownTag_def Let_def case_prod_beta id st start_tx
        AuthAccepted_def AuthInvalid_def Active_def is_zero_def zero_time_def Seen_def Seen_locked_def
        tx_of_put split: if_splits) (simp_all add: tx_of_def)
qed

text \<open>A configuration and a set of clock readings for the witnesses.\<close>

definition clk :: clocks where
  "clk = \<lparr>h_now = Time 1 0 None, s_now = Time 1 0 None, s_now' = Time 1 0 None\<rparr>"

theorem startTransaction_authorised_witness:
  "\<forall>j k. tx_of (snd (HandleCall (one_evse ''E'') clk ''CP1'' ActionStartTransaction
     (Some (StartTransactionReq_json \<lparr>str_ConnectorID = 1, str_IDTag = ''other'', str_MeterStart = 0,
        str_Timestamp = [], str_ReservationID = None\<rparr>)) (New None))) j k = None"
proof -
  let ?r = "\<lparr>str_ConnectorID = 1, str_IDTag = ''other'', str_MeterStart = 0, str_Timestamp = [], str_ReservationID = None\<rparr>"
  have ok: "StartTransactionReq_ok ?r" by (simp add: StartTransactionReq_ok_def in_int64_def int64_min_def int64_max_def)
  have ne: "\<not> equal_fold (str_IDTag ?r) (DefaultIDTag (cf_Auth (one_evse ''E'')))" by code_simp
  show ?thesis
    using startTransaction_authorised [OF ok _ _ surjective_pairing, of "one_evse ''E''" clk "''CP1''" "New None"] ne
    by (simp add: tx_of_New)
qed

text \<open>
  A StatusNotification for a connector id at least 0 with one of the nine statuses
  OCPP 1.6 defines is accepted and recorded in the core with the OCPI status it maps to; with any
  other status, or a negative connector id, it is refused with a constraint violation and the
  core is unchanged.
\<close>

theorem statusNotification_effect:
  assumes "StatusNotificationReq_ok r"
    "HandleCall c t cp ActionStatusNotification (Some (StatusNotificationReq_json r)) s = (res, s')"
  shows "if 0 \<le> snr_ConnectorID r \<and> snr_Status r \<in> dom statusMap
    then res = Inr emptyConf \<and>
         s' = SetConnectorStatus (s_now t) cp (snr_ConnectorID r) (the (statusMap (snr_Status r))) (snr_ErrorCode r) s
    else s' = s \<and> (\<exists>e. res = Inl e \<and>
         Code e \<in> {''PropertyConstraintViolation'', ''OccurenceConstraintViolation''})"
proof -
  have dec: "decode ''StatusNotificationReq'' StatusNotificationReq_fields StatusNotificationReq_zero
      (Some (StatusNotificationReq_json r)) = Inr r"
    using assms(1) by (simp add: decode_def)
  have hc: "HandleCall c t cp ActionStatusNotification p s = statusNotification t cp p s" for p
    by (simp add: HandleCall_def action_defs)
  have empty: "statusMap [] = None" by (simp add: statusMap_def)
  show ?thesis
    using assms(2) unfolding hc
    by (auto simp: statusNotification_def dec StatusNotificationReq_validate_def MapStatus_def badValue_def
        missing_def error_code_defs empty split: if_splits)
qed

theorem statusNotification_effect_witness:
  "snd (HandleCall (one_evse ''E'') clk ''CP1'' ActionStatusNotification
     (Some (StatusNotificationReq_json \<lparr>snr_ConnectorID = 1, snr_ErrorCode = ''NoError'', snr_Status = ''Bogus'',
        snr_Info = [], snr_Timestamp = [], snr_VendorID = [], snr_VendorErrorCode = []\<rparr>)) (New None)) = New None"
proof -
  let ?r = "\<lparr>snr_ConnectorID = 1, snr_ErrorCode = ''NoError'', snr_Status = ''Bogus'',
        snr_Info = [], snr_Timestamp = [], snr_VendorID = [], snr_VendorErrorCode = []\<rparr>"
  have ok: "StatusNotificationReq_ok ?r"
    by (simp add: StatusNotificationReq_ok_def in_int64_def int64_min_def int64_max_def)
  have "snr_Status ?r \<notin> dom statusMap" by (simp add: statusMap_def)
  then show ?thesis
    using statusNotification_effect [OF ok surjective_pairing, of "one_evse ''E''" clk "''CP1''" "New None"]
    by simp
qed

text \<open>
  Vendor extensions are tolerated: a member whose key is not a field of the request,
  anywhere in the payload, does not change how the payload is decoded.
\<close>

theorem decode_ignores_unknown:
  assumes "resolve_field (fs ty) k = None"
  shows "decode ty fs z (Some (JObj (ms @ (k, v) # ms'))) = decode ty fs z (Some (JObj (ms @ ms')))"
  using dec_members_unknown [OF assms] by (simp add: decode_def dec_struct_def)

theorem decode_ignores_unknown_witness:
  "decode ''AuthorizeReq'' AuthorizeReq_fields AuthorizeReq_zero
     (Some (JObj ([(''idTag'', JStr ''T'')] @ (''vendorX'', JBool True) # []))) =
   decode ''AuthorizeReq'' AuthorizeReq_fields AuthorizeReq_zero (Some (JObj ([(''idTag'', JStr ''T'')] @ [])))"
proof (rule decode_ignores_unknown)
  show "resolve_field (AuthorizeReq_fields ''AuthorizeReq'') ''vendorX'' = None" by code_simp
qed

text \<open>
  A timestamp the CSMS sends is read back by the peer as the same instant, to the
  second, whatever fallback it uses, for the years 0 to 9999.
\<close>

theorem parseTime_formatTime:
  assumes "civil (utc t) = (y, m, d, hh, mm, ss, ns)" "0 \<le> y" "y < 10000"
  shows "parseTime (formatTime t) fallback = Time (nanos t - ns) 0 None"
proof -
  have p: "parse_rfc3339 (formatTime t) = Some (Time (nanos t - ns) 0 None)"
    using parse_format_rfc3339 [OF assms(1) _ assms(2,3), of False] by (simp add: formatTime_def utc_def)
  have "parse_rfc3339 [] = None" by code_simp
  then have "formatTime t \<noteq> []" using p by auto
  then show ?thesis by (simp add: parseTime_def p)
qed

theorem parseTime_formatTime_witness:
  "parseTime (formatTime (Time 1500000000 3600 None)) zero_time = Time 1000000000 0 None"
proof -
  have "civil (utc (Time 1500000000 3600 None)) = (1, 1, 1, 0, 0, 1, 500000000)" by code_simp
  from parseTime_formatTime [OF this, of zero_time] show ?thesis by simp
qed

text \<open>
  Only the statuses the 1.6 specification defines for an action are mapped, each to
  the one outcome it stands for: Accepted is success for exactly the five actions that define it,
  and anything undefined for the action is CommandUnknown.
\<close>

theorem MapCommandStatus_accepted_iff:
  "(MapCommandStatus a st = CommandAccepted \<longleftrightarrow>
      st = ''Accepted'' \<and> a \<in> {''ReserveNow'', ''CancelReservation'', ''RemoteStartTransaction'',
        ''RemoteStopTransaction'', ''TriggerMessage''}) \<and>
   (MapCommandStatus a st = CommandUnlocked \<longleftrightarrow> st = ''Unlocked'' \<and> a = ''UnlockConnector'') \<and>
   (MapCommandStatus a st = CommandUnknown \<longleftrightarrow> commandStatusMap a st = None)"
  by (auto simp: MapCommandStatus_def commandStatusMap_def command_action_defs command_status_defs
      split: option.splits if_splits)

text \<open>
  A MeterValues message may carry connector id 0 (the station's main meter) and is
  not validated, so it registers an EVSE for the station itself: the charge point then lists an
  EVSE \<open>CP1-0\<close> that no configuration and no connector has.
\<close>

theorem meter_values_phantom_evse:
  "let s = snd (HandleCall (one_evse ''E'') clk ''CP1'' ActionMeterValues
             (Some (JObj [(''connectorId'', JInt 0), (''meterValue'', JArr [])])) (New (Some (one_evse ''E''))))
   in map_option order (cps s ''CP1'') = Some [''E'', ''CP1-0''] \<and>
      EVSEStatus_of [''CP1''] s ''CP1-0'' = Some StatusUnknown"
  by code_simp

end
