(* ===== verification/V16_ChargePoint.thy ===== *)
theory V16_ChargePoint
  imports V16_Handler
begin

text \<open>
  The OCPP 1.6 command adapter (\<open>internal/ocpp/v16/chargepoint.go\<close>): version-agnostic commands
  become 1.6 requests, and the station's answers become results. The \<open>Caller\<close> interface is the
  argument \<open>call\<close>: it takes the action, the payload and the world the call acts on (the
  connection and the station behind it), and returns the raw answer or the error. A command is
  thus a function of the world, and what was sent is visible in it.
\<close>

type_synonym 'w caller = "string \<Rightarrow> go_any \<Rightarrow> 'w \<Rightarrow> (go_error + json option) \<times> 'w"

subsection \<open>Helpers\<close>

definition connectorID :: "Config \<Rightarrow> string \<Rightarrow> go_error + int" where
  "connectorID c uid =
     (case EVSEByUID c uid of
        None \<Rightarrow> Inl (EUnknownEVSE (go_quote uid))
      | Some e \<Rightarrow> Inr (ev_OCPPConnectorID e))"

text \<open>The anonymous struct \<open>command\<close> decodes into, and decoding of an empty message.\<close>

record status_conf =
  sc_Status :: string

definition status_fields :: "status_conf field list" where
  "status_fields = [str_field [] ''status'' (\<lambda>x. sc_Status_update (\<lambda>_. x))]"

definition status_type :: string where
  "status_type = ''struct { Status string '' @ go_quote (''json:'' @ go_quote ''status'') @ '' }''"

definition unmarshal :: "string \<Rightarrow> 'r field list \<Rightarrow> 'r \<Rightarrow> json option \<Rightarrow> string + 'r" where
  "unmarshal ty fs zero body =
     (case body of None \<Rightarrow> Inl ''unexpected end of JSON input'' | Some j \<Rightarrow> dec_struct [] ty fs zero j)"

definition command :: "'w caller \<Rightarrow> string \<Rightarrow> json \<Rightarrow> 'w \<Rightarrow> (go_error + Result) \<times> 'w" where
  "command call action req w =
     (case call action (AnyJson req) w of
        (Inl e, w') \<Rightarrow> (Inl e, w')
      | (Inr body, w') \<Rightarrow>
          (case unmarshal status_type status_fields \<lparr>sc_Status = []\<rparr> body of
             Inl e \<Rightarrow> (Inl (EOther (action @ '' response: '' @ e)), w')
           | Inr conf \<Rightarrow>
               (Inr \<lparr>Status = MapCommandStatus action (sc_Status conf), Raw = sc_Status conf\<rparr>, w')))"

subsection \<open>Commands\<close>

definition ReserveNow :: "'w caller \<Rightarrow> Config \<Rightarrow> ReserveRequest \<Rightarrow> 'w \<Rightarrow> (go_error + Result) \<times> 'w" where
  "ReserveNow call c r w =
     (case connectorID c (rr_EVSEUID r) of
        Inl e \<Rightarrow> (Inl e, w)
      | Inr n \<Rightarrow>
          command call ActionReserveNow
            (ReserveNowReq_json
               \<lparr>rnr_ConnectorID = n, rnr_ExpiryDate = format_rfc3339 False (utc (rr_ExpiresAt r)),
                rnr_IDTag = rr_IDTag r, rnr_ParentIDTag = [], rnr_ReservationID = rr_ReservationID r\<rparr>) w)"

definition CancelReservation :: "'w caller \<Rightarrow> int \<Rightarrow> 'w \<Rightarrow> (go_error + Result) \<times> 'w" where
  "CancelReservation call i w =
     command call ActionCancelReservation (CancelReservationReq_json \<lparr>crr_ReservationID = i\<rparr>) w"

definition RemoteStart :: "'w caller \<Rightarrow> Config \<Rightarrow> RemoteStartRequest \<Rightarrow> 'w \<Rightarrow> (go_error + Result) \<times> 'w" where
  "RemoteStart call c r w =
     (case connectorID c (rs_EVSEUID r) of
        Inl e \<Rightarrow> (Inl e, w)
      | Inr n \<Rightarrow>
          command call ActionRemoteStartTransaction
            (RemoteStartTransactionReq_json \<lparr>rsr_ConnectorID = Some n, rsr_IDTag = rs_IDTag r\<rparr>) w)"

definition RemoteStop :: "'w caller \<Rightarrow> string \<Rightarrow> 'w \<Rightarrow> (go_error + Result) \<times> 'w" where
  "RemoteStop call txid w =
     (case atoi txid of
        None \<Rightarrow> (Inl (EOther (''ocpp 1.6: transaction id '' @ go_quote txid @ '' is not an integer'')), w)
      | Some i \<Rightarrow>
          command call ActionRemoteStopTransaction
            (RemoteStopTransactionReq_json \<lparr>rpr_TransactionID = i\<rparr>) w)"

definition UnlockConnector :: "'w caller \<Rightarrow> Config \<Rightarrow> string \<Rightarrow> 'w \<Rightarrow> (go_error + Result) \<times> 'w" where
  "UnlockConnector call c uid w =
     (case connectorID c uid of
        Inl e \<Rightarrow> (Inl e, w)
      | Inr n \<Rightarrow> command call ActionUnlockConnector (UnlockConnectorReq_json \<lparr>ucr_ConnectorID = n\<rparr>) w)"

definition TriggerStatus :: "'w caller \<Rightarrow> Config \<Rightarrow> string \<Rightarrow> 'w \<Rightarrow> (go_error + Result) \<times> 'w" where
  "TriggerStatus call c uid w =
     (case connectorID c uid of
        Inl e \<Rightarrow> (Inl e, w)
      | Inr n \<Rightarrow>
          command call ActionTriggerMessage
            (TriggerMessageReq_json \<lparr>tmr_RequestedMessage = ActionStatusNotification, tmr_ConnectorID = Some n\<rparr>) w)"

definition GetConfiguration ::
  "'w caller \<Rightarrow> string list \<Rightarrow> 'w \<Rightarrow> (go_error + GetConfigurationConf) \<times> 'w" where
  "GetConfiguration call keys w =
     (case call ActionGetConfiguration (AnyJson (GetConfigurationReq_json \<lparr>gcr_Key = keys\<rparr>)) w of
        (Inl e, w') \<Rightarrow> (Inl e, w')
      | (Inr body, w') \<Rightarrow>
          (case unmarshal ''v16.GetConfigurationConf'' (GetConfigurationConf_fields ''GetConfigurationConf'')
                  GetConfigurationConf_zero body of
             Inl e \<Rightarrow> (Inl (EOther (ActionGetConfiguration @ '' response: '' @ e)), w')
           | Inr conf \<Rightarrow> (Inr conf, w')))"

definition profileReservation :: string where "profileReservation = ''Reservation''"
definition profileRemoteTrigger :: string where "profileRemoteTrigger = ''RemoteTrigger''"

text \<open>The inner loop over the comma-separated profiles, and the outer one over the keys.\<close>

fun profile_loop :: "string list \<Rightarrow> Capabilities \<Rightarrow> Capabilities" where
  "profile_loop [] caps = caps"
| "profile_loop (p # ps) caps =
     (let q = trim_space p in
      profile_loop ps
        (if q = profileReservation then caps\<lparr>Reservation := True\<rparr>
         else if q = profileRemoteTrigger then caps\<lparr>RemoteTrigger := True\<rparr>
         else caps))"

fun key_loop :: "ConfigurationKey list \<Rightarrow> Capabilities \<Rightarrow> Capabilities" where
  "key_loop [] caps = caps"
| "key_loop (k # ks) caps =
     (if cfk_Key k \<noteq> KeySupportedFeatureProfiles then key_loop ks caps
      else key_loop ks (profile_loop (split_on CHR '','' (cfk_Value k)) caps))"

definition Capabilities_of :: "'w caller \<Rightarrow> 'w \<Rightarrow> (go_error + Capabilities) \<times> 'w" where
  "Capabilities_of call w =
     (case GetConfiguration call [KeySupportedFeatureProfiles] w of
        (Inl e, w') \<Rightarrow> (Inl e, w')
      | (Inr conf, w') \<Rightarrow>
          (Inr (key_loop (gcc_ConfigurationKey conf) \<lparr>Reservation = False, RemoteTrigger = False\<rparr>), w'))"

subsection \<open>Lemmas\<close>

lemma decode_status:
  "unmarshal status_type status_fields \<lparr>sc_Status = []\<rparr> (Some (JObj [(''status'', JStr st)])) = Inr \<lparr>sc_Status = st\<rparr>"
  by (simp add: unmarshal_def dec_struct_def status_fields_def resolve_field_def str_field_def dec_string_def)

lemma connectorID_ok:
  "evse_mapping_ok c \<Longrightarrow> e \<in> set (lo_EVSEs (cf_Location c)) \<Longrightarrow>
   connectorID c (ev_UID e) = Inr (ev_OCPPConnectorID e)"
  by (simp add: connectorID_def EVSEByUID_self)

lemma connectorID_unknown:
  "uid \<notin> ev_UID ` set (lo_EVSEs (cf_Location c)) \<Longrightarrow> connectorID c uid = Inl (EUnknownEVSE (go_quote uid))"
  using EVSEByUID_Some [of c uid] by (cases "EVSEByUID c uid") (auto simp: connectorID_def)

lemma profile_loop_eq:
  "profile_loop ps caps =
     caps\<lparr>Reservation := Reservation caps \<or> ''Reservation'' \<in> trim_space ` set ps,
          RemoteTrigger := RemoteTrigger caps \<or> ''RemoteTrigger'' \<in> trim_space ` set ps\<rparr>"
  by (induction ps caps rule: profile_loop.induct)
    (auto simp: Let_def profileReservation_def profileRemoteTrigger_def)

definition advertised :: "ConfigurationKey list \<Rightarrow> string \<Rightarrow> bool" where
  "advertised ks p \<longleftrightarrow>
     (\<exists>k \<in> set ks. cfk_Key k = ''SupportedFeatureProfiles'' \<and> p \<in> trim_space ` set (split_on CHR '','' (cfk_Value k)))"

lemma key_loop_eq:
  "key_loop ks caps =
     caps\<lparr>Reservation := Reservation caps \<or> advertised ks ''Reservation'',
          RemoteTrigger := RemoteTrigger caps \<or> advertised ks ''RemoteTrigger''\<rparr>"
  by (induction ks caps rule: key_loop.induct)
    (auto simp: profile_loop_eq advertised_def KeySupportedFeatureProfiles_def)

text \<open>
  A recording caller: it logs every request it is given and answers with a fixed reply. What a
  command puts on the wire is what this caller logs.
\<close>

definition recording :: "go_error + json option \<Rightarrow> (string \<times> go_any) list caller" where
  "recording reply action payload log = (reply, log @ [(action, payload)])"

lemma command_recording:
  "snd (command (recording reply) action req log) = log @ [(action, AnyJson req)]"
  by (simp add: command_def recording_def split: sum.split)

subsection \<open>Properties\<close>

text \<open>
  A command that cannot be addressed is refused before anything is sent: for an EVSE
  uid that is not configured every EVSE command returns the unknown-EVSE error, a remote stop of a
  transaction id that is no 64-bit integer returns an error, and in both cases the connection and
  the station behind it are untouched.
\<close>

theorem commands_refused_unsent:
  assumes "uid \<notin> ev_UID ` set (lo_EVSEs (cf_Location c))" "atoi txid = None"
  shows "ReserveNow call c \<lparr>rr_ReservationID = i, rr_EVSEUID = uid, rr_IDTag = tag, rr_ExpiresAt = at\<rparr> w =
           (Inl (EUnknownEVSE (go_quote uid)), w) \<and>
         RemoteStart call c \<lparr>rs_RemoteStartID = k, rs_EVSEUID = uid, rs_IDTag = tag\<rparr> w =
           (Inl (EUnknownEVSE (go_quote uid)), w) \<and>
         UnlockConnector call c uid w = (Inl (EUnknownEVSE (go_quote uid)), w) \<and>
         TriggerStatus call c uid w = (Inl (EUnknownEVSE (go_quote uid)), w) \<and>
         error_is (EUnknownEVSE (go_quote uid)) ErrUnknownEVSE \<and>
         snd (RemoteStop call txid w) = w \<and> (\<exists>e. fst (RemoteStop call txid w) = Inl (EOther e))"
  using assms
  by (simp add: ReserveNow_def RemoteStart_def UnlockConnector_def TriggerStatus_def RemoteStop_def
      connectorID_unknown)

theorem commands_refused_unsent_witness:
  "snd (UnlockConnector (recording (Inl EConnClosed)) (one_evse ''E1'') ''E2'' []) = []"
proof -
  have "''E2'' \<notin> ev_UID ` set (lo_EVSEs (cf_Location (one_evse ''E1'')))"
    by (simp add: one_evse_def Let_def)
  moreover have "atoi ''x'' = None" by code_simp
  ultimately show ?thesis
    using commands_refused_unsent [of "''E2''" "one_evse ''E1''" "''x''" "recording (Inl EConnClosed)"]
    by simp
qed

text \<open>
  A command for a configured EVSE puts exactly one request on the wire, addressed to
  the OCPP connector that EVSE is configured on, whatever the station answers: the reservation
  carries its id, token and expiry in UTC, a remote start always names the connector, and a
  remote stop carries the transaction id it was given.
\<close>

theorem commands_on_the_wire:
  assumes "evse_mapping_ok c" "e \<in> set (lo_EVSEs (cf_Location c))" "in_int64 k"
  shows "snd (ReserveNow (recording reply) c
             \<lparr>rr_ReservationID = i, rr_EVSEUID = ev_UID e, rr_IDTag = tag, rr_ExpiresAt = at\<rparr> []) =
           [(''ReserveNow'', AnyJson (JObj [(''connectorId'', JInt (ev_OCPPConnectorID e)),
               (''expiryDate'', JStr (formatTime at)), (''idTag'', JStr tag), (''reservationId'', JInt i)]))] \<and>
         snd (RemoteStart (recording reply) c \<lparr>rs_RemoteStartID = j, rs_EVSEUID = ev_UID e, rs_IDTag = tag\<rparr> []) =
           [(''RemoteStartTransaction'', AnyJson (JObj [(''connectorId'', JInt (ev_OCPPConnectorID e)),
               (''idTag'', JStr tag)]))] \<and>
         snd (UnlockConnector (recording reply) c (ev_UID e) []) =
           [(''UnlockConnector'', AnyJson (JObj [(''connectorId'', JInt (ev_OCPPConnectorID e))]))] \<and>
         snd (TriggerStatus (recording reply) c (ev_UID e) []) =
           [(''TriggerMessage'', AnyJson (JObj [(''requestedMessage'', JStr ''StatusNotification''),
               (''connectorId'', JInt (ev_OCPPConnectorID e))]))] \<and>
         snd (RemoteStop (recording reply) (itoa k) []) =
           [(''RemoteStopTransaction'', AnyJson (JObj [(''transactionId'', JInt k)]))]"
  using assms
  by (simp add: ReserveNow_def RemoteStart_def UnlockConnector_def TriggerStatus_def RemoteStop_def
      connectorID_ok command_recording command_action_defs ReserveNowReq_json_def formatTime_def
      RemoteStartTransactionReq_json_def UnlockConnectorReq_json_def TriggerMessageReq_json_def
      RemoteStopTransactionReq_json_def enc_defs ActionStatusNotification_def)

theorem commands_on_the_wire_witness:
  "snd (RemoteStop (recording (Inl EConnClosed)) (itoa 7) []) =
     [(''RemoteStopTransaction'', AnyJson (JObj [(''transactionId'', JInt 7)]))]"
proof -
  let ?e = "\<lparr>ev_UID = ''E1'', ev_EVSEID = ''DE*ABC*E1'', ev_OCPPConnectorID = 1, ev_Connectors = []\<rparr>"
  have "evse_mapping_ok (one_evse ''E1'')" by (simp add: evse_mapping_ok_def one_evse_def Let_def)
  moreover have "?e \<in> set (lo_EVSEs (cf_Location (one_evse ''E1'')))" by (simp add: one_evse_def Let_def)
  moreover have "in_int64 7" by (simp add: in_int64_def int64_min_def int64_max_def)
  ultimately show ?thesis
    using commands_on_the_wire [of "one_evse ''E1''" ?e 7 "Inl EConnClosed"] by simp
qed

text \<open>
  The station's answer decides the outcome: a status the specification defines for
  the action becomes that outcome, any other status is CommandUnknown and not an error, and the
  raw status is kept; an error of the call (a timeout, a closed connection, a CALLERROR) is
  returned as it is.
\<close>

theorem command_outcome:
  "(\<forall>e w'. call action (AnyJson req) w = (Inl e, w') \<longrightarrow> command call action req w = (Inl e, w')) \<and>
   (\<forall>st w'. call action (AnyJson req) w = (Inr (Some (JObj [(''status'', JStr st)])), w') \<longrightarrow>
      command call action req w = (Inr \<lparr>Status = MapCommandStatus action st, Raw = st\<rparr>, w')) \<and>
   (\<forall>w'. call action (AnyJson req) w = (Inr None, w') \<longrightarrow>
      (\<exists>e. command call action req w = (Inl (EOther e), w')))"
  by (simp add: command_def decode_status) (simp add: unmarshal_def)

theorem command_outcome_witness:
  "command (recording (Inr (Some (JObj [(''status'', JStr ''Occupied'')])))) ActionReserveNow JNull [] =
     (Inr \<lparr>Status = CommandOccupied, Raw = ''Occupied''\<rparr>, [(ActionReserveNow, AnyJson JNull)])"
proof -
  let ?call = "recording (Inr (Some (JObj [(''status'', JStr ''Occupied'')])))"
  have "?call ActionReserveNow (AnyJson JNull) [] =
      (Inr (Some (JObj [(''status'', JStr ''Occupied'')])), [(ActionReserveNow, AnyJson JNull)])"
    by (simp add: recording_def)
  moreover have "MapCommandStatus ActionReserveNow ''Occupied'' = CommandOccupied" by code_simp
  ultimately show ?thesis
    using command_outcome [of ?call ActionReserveNow JNull "[]"] by simp
qed

text \<open>
  The capabilities are what the station's \<open>SupportedFeatureProfiles\<close> lists: with an
  answer that decodes, reservation and remote trigger are reported exactly when some such key
  holds the profile as one of its comma-separated items, spaces around it ignored; a station that
  does not know the key has neither.
\<close>

theorem Capabilities_exact:
  assumes "call ''GetConfiguration'' (AnyJson (JObj [(''key'', JArr [JStr ''SupportedFeatureProfiles''])])) w =
    (Inr (Some (GetConfigurationConf_json conf)), w')"
  shows "Capabilities_of call w =
    (Inr \<lparr>Reservation = advertised (gcc_ConfigurationKey conf) ''Reservation'',
          RemoteTrigger = advertised (gcc_ConfigurationKey conf) ''RemoteTrigger''\<rparr>, w')"
  using assms
  by (simp add: Capabilities_of_def GetConfiguration_def ActionGetConfiguration_def GetConfigurationReq_json_def
      KeySupportedFeatureProfiles_def enc_strings_omit_def unmarshal_def key_loop_eq)

theorem Capabilities_exact_witness:
  "\<not> advertised [] ''Reservation'' \<and>
   fst (Capabilities_of (\<lambda>a p w. (Inr (Some (GetConfigurationConf_json
     \<lparr>gcc_ConfigurationKey = [\<lparr>cfk_Key = ''SupportedFeatureProfiles'', cfk_Readonly = True, cfk_Value = ''Core, Reservation''\<rparr>],
      gcc_UnknownKey = []\<rparr>)), w)) ()) = Inr \<lparr>Reservation = True, RemoteTrigger = False\<rparr>"
proof -
  let ?conf = "\<lparr>gcc_ConfigurationKey = [\<lparr>cfk_Key = ''SupportedFeatureProfiles'', cfk_Readonly = True, cfk_Value = ''Core, Reservation''\<rparr>],
      gcc_UnknownKey = []\<rparr>"
  have "trim_space ` set (split_on CHR '','' ''Core, Reservation'') = {''Core'', ''Reservation''}" by code_simp
  then show ?thesis
    using Capabilities_exact [of "\<lambda>a p w. (Inr (Some (GetConfigurationConf_json ?conf)), w)" "()" ?conf "()"]
    by (simp add: advertised_def)
qed

end
