(* ===== verification/Simulator.thy ===== *)
theory Simulator
  imports V16_ChargePoint
begin

text \<open>
  The simulated charging station (\<open>internal/simulator\<close>): its options, the state of the station
  and its connectors, and the commands it answers. A command is answered first and its side
  effect is reported later by a goroutine that \<open>after\<close> starts; the state keeps these goroutines
  as a list of \<open>deferred\<close> actions, which the theory \<open>Simulator_Run\<close> executes. The OCPP 1.6 status
  names are written as the string literals they stand for. Logging is left out.
\<close>

subsection \<open>Scenarios and options\<close>

type_synonym Scenario = string

definition ScenarioNormal :: Scenario where "ScenarioNormal = ''normal''"
definition ScenarioRejectReserve :: Scenario where "ScenarioRejectReserve = ''reject-reserve''"
definition ScenarioOccupied :: Scenario where "ScenarioOccupied = ''occupied''"
definition ScenarioSlow :: Scenario where "ScenarioSlow = ''slow''"
definition ScenarioUnlockFails :: Scenario where "ScenarioUnlockFails = ''unlock-fails''"
definition ScenarioSilent :: Scenario where "ScenarioSilent = ''silent''"

lemmas scenario_defs = ScenarioNormal_def ScenarioRejectReserve_def ScenarioOccupied_def
  ScenarioSlow_def ScenarioUnlockFails_def ScenarioSilent_def

definition Scenarios :: "Scenario list" where
  "Scenarios = [ScenarioNormal, ScenarioRejectReserve, ScenarioOccupied, ScenarioSlow,
     ScenarioUnlockFails, ScenarioSilent]"

definition Valid :: "Scenario \<Rightarrow> bool" where
  "Valid s \<longleftrightarrow> (\<exists>known \<in> set Scenarios. s = known)"

definition defaultSlowDelay :: int where "defaultSlowDelay = 45 * second"
definition fallbackHeartbeat :: int where "fallbackHeartbeat = 60 * second"

record Options =
  so_URL :: string
  so_ID :: string
  so_Version :: Version
  so_Connectors :: int
  so_Vendor :: string
  so_Model :: string
  so_Firmware :: string
  so_SerialNumber :: string
  so_IDTag :: string
  so_Scenario :: Scenario
  so_SlowDelay :: int

definition applyDefaults_sim :: "Options \<Rightarrow> Options" where
  "applyDefaults_sim r =
     r\<lparr>so_Version := if so_Version r = [] then Version16 else so_Version r,
       so_Connectors := if so_Connectors r \<le> 0 then 1 else so_Connectors r,
       so_Vendor := if so_Vendor r = [] then ''Alpitronic'' else so_Vendor r,
       so_Model := if so_Model r = [] then ''HYC300'' else so_Model r,
       so_Firmware := if so_Firmware r = [] then ''simulator'' else so_Firmware r,
       so_Scenario := if so_Scenario r = [] then ScenarioNormal else so_Scenario r,
       so_SlowDelay := if so_SlowDelay r \<le> 0 then defaultSlowDelay else so_SlowDelay r\<rparr>"

definition validate_sim :: "Options \<Rightarrow> string option" where
  "validate_sim r =
     (if so_URL r = [] then Some ''simulator: URL is required''
      else if so_ID r = [] then Some ''simulator: ID is required''
      else if so_Version r \<noteq> Version16 then Some (''simulator: OCPP '' @ so_Version r @ '' is not implemented'')
      else if \<not> Valid (so_Scenario r) then Some (''simulator: unknown scenario '' @ go_quote (so_Scenario r))
      else None)"

subsection \<open>State\<close>

record connector =
  c_status :: string
  c_transactionID :: int
  c_reservationID :: int
  c_meter :: int

text \<open>The closures handed to \<open>after\<close>, by what they do.\<close>

datatype deferred =
    SendStatus int string
  | StartTx int string
  | StopTx int
  | BootAgain
  | HeartbeatNow
  | SetStatus int string

text \<open>
  \<open>goroutines\<close> are the side effects \<open>after\<close> has started and that have not run yet; \<open>closed\<close> says
  that the channel \<open>done\<close> is closed.
\<close>

record Simulator =
  opts :: Options
  station :: string
  connectors :: "int \<rightharpoonup> connector"
  heartbeat_ns :: int
  goroutines :: "deferred list"
  closed :: bool

definition new_connector :: connector where
  "new_connector = \<lparr>c_status = ''Available'', c_transactionID = 0, c_reservationID = 0, c_meter = 0\<rparr>"

definition New_sim :: "Options \<Rightarrow> string + Simulator" where
  "New_sim raw_opts =
     (let r = applyDefaults_sim raw_opts in
      case validate_sim r of
        Some e \<Rightarrow> Inl e
      | None \<Rightarrow>
          Inr \<lparr>opts = r, station = ''Available'',
               connectors = map_of (map (\<lambda>i. (i, new_connector)) [1..so_Connectors r]),
               heartbeat_ns = fallbackHeartbeat, goroutines = [], closed = False\<rparr>)"

subsection \<open>Readers\<close>

definition ConnectorStatus :: "Simulator \<Rightarrow> int \<Rightarrow> string" where
  "ConnectorStatus s n = (case connectors s n of Some c \<Rightarrow> c_status c | None \<Rightarrow> [])"

definition TransactionID_sim :: "Simulator \<Rightarrow> int \<Rightarrow> int" where
  "TransactionID_sim s n = (case connectors s n of Some c \<Rightarrow> c_transactionID c | None \<Rightarrow> 0)"

definition ReservationID_sim :: "Simulator \<Rightarrow> int \<Rightarrow> int" where
  "ReservationID_sim s n = (case connectors s n of Some c \<Rightarrow> c_reservationID c | None \<Rightarrow> 0)"

definition put_connector :: "int \<Rightarrow> connector \<Rightarrow> Simulator \<Rightarrow> Simulator" where
  "put_connector n c s = s\<lparr>connectors := (connectors s)(n \<mapsto> c)\<rparr>"

definition after :: "deferred \<Rightarrow> Simulator \<Rightarrow> Simulator" where
  "after d s = s\<lparr>goroutines := goroutines s @ [d]\<rparr>"

subsection \<open>Commands\<close>

text \<open>
  The environment of a call: how the wait of the slow scenario ends, and the order in which a
  loop over the connector map visits its keys.
\<close>

datatype stall = Elapsed | Cancelled | Closing

record sim_env =
  se_stall :: stall
  se_order :: "int list"

definition decodeCommand :: "string \<Rightarrow> (string \<Rightarrow> 'r field list) \<Rightarrow> 'r \<Rightarrow> json option \<Rightarrow> RPCError + 'r" where
  "decodeCommand ty fs zero payload =
     (case payload of
        None \<Rightarrow> Inr zero
      | Some j \<Rightarrow>
          (case dec_struct [] (''v16.'' @ ty) (fs ty) zero j of
             Inl e \<Rightarrow> Inl (Errorf ErrFormationViolation (''payload does not match the action: '' @ e))
           | Inr r \<Rightarrow> Inr r))"

definition reserve_conf :: "string \<Rightarrow> response" where
  "reserve_conf st = Inr (ReserveNowConf_json \<lparr>rnc_Status = st\<rparr>)"

definition reserveNow :: "json option \<Rightarrow> Simulator \<Rightarrow> response \<times> Simulator" where
  "reserveNow payload s =
     (case decodeCommand ''ReserveNowReq'' ReserveNowReq_fields ReserveNowReq_zero payload of
        Inl e \<Rightarrow> (Inl e, s)
      | Inr req \<Rightarrow>
          if so_Scenario (opts s) = ScenarioRejectReserve then (reserve_conf ReservationRejected, s)
          else if so_Scenario (opts s) = ScenarioOccupied then (reserve_conf ReservationOccupied, s)
          else
            (case connectors s (rnr_ConnectorID req) of
               None \<Rightarrow> (reserve_conf ReservationRejected, s)
             | Some c \<Rightarrow>
                 if c_transactionID c \<noteq> 0 \<or> c_status c = ''Charging'' \<or> c_status c = ''Preparing''
                 then (reserve_conf ReservationOccupied, s)
                 else if c_status c = ''Faulted'' \<or> c_status c = ''Unavailable''
                 then (reserve_conf (if c_status c = ''Unavailable'' then ReservationUnavailable
                                     else ReservationFaulted), s)
                 else (reserve_conf ReservationAccepted,
                       after (SendStatus (rnr_ConnectorID req) ''Reserved'')
                         (put_connector (rnr_ConnectorID req)
                            (c\<lparr>c_reservationID := rnr_ReservationID req, c_status := ''Reserved''\<rparr>) s))))"

text \<open>\<open>target\<close> of the loops over the connectors: the first key, in iteration order, whose
  connector satisfies the condition, and 0 when there is none. A target other than 0 is a key of
  the map, so the lookup that follows finds it; the branch for a missing key is never taken.\<close>

definition find_connector :: "int list \<Rightarrow> (connector \<Rightarrow> bool) \<Rightarrow> Simulator \<Rightarrow> int" where
  "find_connector ks P s =
     (case List.find (\<lambda>k. case connectors s k of Some c \<Rightarrow> P c | None \<Rightarrow> False) ks of
        Some k \<Rightarrow> k | None \<Rightarrow> 0)"

definition cancelReservation :: "int list \<Rightarrow> json option \<Rightarrow> Simulator \<Rightarrow> response \<times> Simulator" where
  "cancelReservation ks payload s =
     (case decodeCommand ''CancelReservationReq'' CancelReservationReq_fields CancelReservationReq_zero payload of
        Inl e \<Rightarrow> (Inl e, s)
      | Inr req \<Rightarrow>
          let target = find_connector ks (\<lambda>c. c_reservationID c = crr_ReservationID req) s in
          if target = 0 then (Inr (CancelReservationConf_json \<lparr>crc_Status = CmdRejected\<rparr>), s)
          else
            (case connectors s target of
               None \<Rightarrow> (Inr (CancelReservationConf_json \<lparr>crc_Status = CmdRejected\<rparr>), s)
             | Some c \<Rightarrow>
                 (Inr (CancelReservationConf_json \<lparr>crc_Status = CmdAccepted\<rparr>),
                  after (SendStatus target ''Available'')
                    (put_connector target (c\<lparr>c_reservationID := 0, c_status := ''Available''\<rparr>) s))))"

definition firstFreeConnector :: "Simulator \<Rightarrow> int option" where
  "firstFreeConnector s =
     List.find (\<lambda>i. case connectors s i of Some c \<Rightarrow> c_transactionID c = 0 | None \<Rightarrow> False)
       [1..so_Connectors (opts s)]"

definition remoteStart :: "json option \<Rightarrow> Simulator \<Rightarrow> response \<times> Simulator" where
  "remoteStart payload s =
     (case decodeCommand ''RemoteStartTransactionReq'' RemoteStartTransactionReq_fields
             RemoteStartTransactionReq_zero payload of
        Inl e \<Rightarrow> (Inl e, s)
      | Inr req \<Rightarrow>
          let n = (case rsr_ConnectorID req of
                     Some k \<Rightarrow> k
                   | None \<Rightarrow> (case firstFreeConnector s of Some k \<Rightarrow> k | None \<Rightarrow> 1))
          in (case connectors s n of
                None \<Rightarrow> (Inr (RemoteStartTransactionConf_json \<lparr>rsc_Status = CmdRejected\<rparr>), s)
              | Some c \<Rightarrow>
                  if c_transactionID c \<noteq> 0
                  then (Inr (RemoteStartTransactionConf_json \<lparr>rsc_Status = CmdRejected\<rparr>), s)
                  else (Inr (RemoteStartTransactionConf_json \<lparr>rsc_Status = CmdAccepted\<rparr>),
                        after (StartTx n (rsr_IDTag req)) s)))"

definition remoteStop :: "int list \<Rightarrow> json option \<Rightarrow> Simulator \<Rightarrow> response \<times> Simulator" where
  "remoteStop ks payload s =
     (case decodeCommand ''RemoteStopTransactionReq'' RemoteStopTransactionReq_fields
             RemoteStopTransactionReq_zero payload of
        Inl e \<Rightarrow> (Inl e, s)
      | Inr req \<Rightarrow>
          let target = find_connector ks
                (\<lambda>c. c_transactionID c = rpr_TransactionID req \<and> c_transactionID c \<noteq> 0) s in
          if target = 0 then (Inr (RemoteStopTransactionConf_json \<lparr>rpc_Status = CmdRejected\<rparr>), s)
          else (Inr (RemoteStopTransactionConf_json \<lparr>rpc_Status = CmdAccepted\<rparr>), after (StopTx target) s))"

definition unlockConnector :: "json option \<Rightarrow> Simulator \<Rightarrow> response \<times> Simulator" where
  "unlockConnector payload s =
     (case decodeCommand ''UnlockConnectorReq'' UnlockConnectorReq_fields UnlockConnectorReq_zero payload of
        Inl e \<Rightarrow> (Inl e, s)
      | Inr req \<Rightarrow>
          if so_Scenario (opts s) = ScenarioUnlockFails
          then (Inr (UnlockConnectorConf_json \<lparr>ucc_Status = UnlockFailed\<rparr>), s)
          else (case connectors s (ucr_ConnectorID req) of
                  None \<Rightarrow> (Inr (UnlockConnectorConf_json \<lparr>ucc_Status = UnlockFailed\<rparr>), s)
                | Some c \<Rightarrow> (Inr (UnlockConnectorConf_json \<lparr>ucc_Status = UnlockUnlocked\<rparr>), s)))"

definition triggerMessage :: "json option \<Rightarrow> Simulator \<Rightarrow> response \<times> Simulator" where
  "triggerMessage payload s =
     (case decodeCommand ''TriggerMessageReq'' TriggerMessageReq_fields TriggerMessageReq_zero payload of
        Inl e \<Rightarrow> (Inl e, s)
      | Inr req \<Rightarrow>
          let n = (case tmr_ConnectorID req of Some k \<Rightarrow> k | None \<Rightarrow> 0);
              m = tmr_RequestedMessage req;
              yes = Inr (TriggerMessageConf_json \<lparr>tmc_Status = TriggerAccepted\<rparr>) in
          if m = ActionBootNotification then (yes, after BootAgain s)
          else if m = ActionHeartbeat then (yes, after HeartbeatNow s)
          else if m = ActionStatusNotification
          then (yes, after (SendStatus n (if n > 0 then ConnectorStatus s n else station s)) s)
          else (Inr (TriggerMessageConf_json \<lparr>tmc_Status = TriggerNotImplemented\<rparr>), s))"

definition profiles :: "Simulator \<Rightarrow> string" where
  "profiles s =
     (if so_Scenario (opts s) = ScenarioRejectReserve then ''Core,FirmwareManagement,RemoteTrigger''
      else ''Core,FirmwareManagement,RemoteTrigger,Reservation'')"

definition all_keys :: "Simulator \<Rightarrow> ConfigurationKey list" where
  "all_keys s =
     [\<lparr>cfk_Key = KeySupportedFeatureProfiles, cfk_Readonly = True, cfk_Value = profiles s\<rparr>,
      \<lparr>cfk_Key = KeyHeartbeatInterval, cfk_Readonly = False, cfk_Value = itoa (whole_seconds (heartbeat_ns s))\<rparr>,
      \<lparr>cfk_Key = KeyNumberOfConnectors, cfk_Readonly = True, cfk_Value = itoa (so_Connectors (opts s))\<rparr>]"

text \<open>The loop over the wanted keys; the inner loop stops at the first key of that name.\<close>

fun wanted_keys :: "ConfigurationKey list \<Rightarrow> string list \<Rightarrow> GetConfigurationConf \<Rightarrow> GetConfigurationConf" where
  "wanted_keys keys [] conf = conf"
| "wanted_keys keys (w # ws) conf =
     (case List.find (\<lambda>k. cfk_Key k = w) keys of
        Some k \<Rightarrow> wanted_keys keys ws (conf\<lparr>gcc_ConfigurationKey := gcc_ConfigurationKey conf @ [k]\<rparr>)
      | None \<Rightarrow> wanted_keys keys ws (conf\<lparr>gcc_UnknownKey := gcc_UnknownKey conf @ [w]\<rparr>))"

definition getConfiguration :: "json option \<Rightarrow> Simulator \<Rightarrow> response \<times> Simulator" where
  "getConfiguration payload s =
     (case decodeCommand ''GetConfigurationReq'' GetConfigurationReq_fields GetConfigurationReq_zero payload of
        Inl e \<Rightarrow> (Inl e, s)
      | Inr req \<Rightarrow>
          if gcr_Key req = []
          then (Inr (GetConfigurationConf_json \<lparr>gcc_ConfigurationKey = all_keys s, gcc_UnknownKey = []\<rparr>), s)
          else (Inr (GetConfigurationConf_json (wanted_keys (all_keys s) (gcr_Key req) GetConfigurationConf_zero)), s))"

definition changeAvailability :: "json option \<Rightarrow> Simulator \<Rightarrow> response \<times> Simulator" where
  "changeAvailability payload s =
     (case decodeCommand ''ChangeAvailabilityReq'' ChangeAvailabilityReq_fields ChangeAvailabilityReq_zero payload of
        Inl e \<Rightarrow> (Inl e, s)
      | Inr req \<Rightarrow>
          (Inr (ChangeAvailabilityConf_json \<lparr>cac_Status = CmdAccepted\<rparr>),
           after (SetStatus (car_ConnectorID req)
             (if car_Type req = AvailabilityInoperative then ''Unavailable'' else ''Available'')) s))"

definition dispatch_sim :: "int list \<Rightarrow> string \<Rightarrow> json option \<Rightarrow> Simulator \<Rightarrow> response \<times> Simulator" where
  "dispatch_sim ks action payload s =
     (if action = ActionReserveNow then reserveNow payload s
      else if action = ActionCancelReservation then cancelReservation ks payload s
      else if action = ActionRemoteStartTransaction then remoteStart payload s
      else if action = ActionRemoteStopTransaction then remoteStop ks payload s
      else if action = ActionUnlockConnector then unlockConnector payload s
      else if action = ActionTriggerMessage then triggerMessage payload s
      else if action = ActionGetConfiguration then getConfiguration payload s
      else if action = ActionChangeAvailability then changeAvailability payload s
      else if action = ActionReset then (Inr (ResetConf_json \<lparr>rec_Status = CmdAccepted\<rparr>), s)
      else (Inl (Errorf ErrNotImplemented (''action '' @ go_quote action @ '' is not implemented'')), s))"

definition HandleCall_sim ::
  "sim_env \<Rightarrow> string \<Rightarrow> string \<Rightarrow> json option \<Rightarrow> Simulator \<Rightarrow> response \<times> Simulator" where
  "HandleCall_sim env peer action payload s =
     (case (if so_Scenario (opts s) = ScenarioSlow then se_stall env else Elapsed) of
        Cancelled \<Rightarrow> (Inl (Errorf ErrInternalError ''cancelled''), s)
      | Closing \<Rightarrow> (Inl (Errorf ErrInternalError ''closing''), s)
      | Elapsed \<Rightarrow> dispatch_sim (se_order env) action payload s)"

lemmas sim_defs = reserveNow_def cancelReservation_def remoteStart_def remoteStop_def
  unlockConnector_def triggerMessage_def getConfiguration_def changeAvailability_def

lemma decodeCommand_simps [simp]:
  "decodeCommand ty fs zero None = Inr zero"
  "dec_struct [] (''v16.'' @ ty) (fs ty) zero j = Inr r \<Longrightarrow> decodeCommand ty fs zero (Some j) = Inr r"
  by (simp_all add: decodeCommand_def)

lemma put_connector_simps [simp]:
  "connectors (put_connector n c s) = (connectors s)(n \<mapsto> c)"
  "opts (put_connector n c s) = opts s" "station (put_connector n c s) = station s"
  "heartbeat_ns (put_connector n c s) = heartbeat_ns s" "closed (put_connector n c s) = closed s"
  "goroutines (put_connector n c s) = goroutines s"
  by (simp_all add: put_connector_def)

lemma after_simps [simp]:
  "connectors (after d s) = connectors s" "opts (after d s) = opts s" "station (after d s) = station s"
  "heartbeat_ns (after d s) = heartbeat_ns s" "closed (after d s) = closed s"
  "goroutines (after d s) = goroutines s @ [d]"
  by (simp_all add: after_def)

lemma find_connector_None:
  "find_connector ks P s = 0" if "\<And>k c. k \<in> set ks \<Longrightarrow> connectors s k = Some c \<Longrightarrow> \<not> P c"
  using that by (fastforce simp: find_connector_def split: option.split dest: find_Some_D)

lemma find_connector_hit:
  "find_connector ks P s \<noteq> 0 \<Longrightarrow>
   \<exists>c. connectors s (find_connector ks P s) = Some c \<and> P c \<and> find_connector ks P s \<in> set ks"
  by (fastforce simp: find_connector_def split: option.splits dest: find_Some_D)

lemma find_connector_unique:
  assumes "k \<in> set ks" "connectors s k = Some c" "P c"
    "\<And>k' c'. connectors s k' = Some c' \<Longrightarrow> P c' \<Longrightarrow> k' = k"
  shows "find_connector ks P s = k"
proof -
  have "List.find (\<lambda>k. case connectors s k of Some c \<Rightarrow> P c | None \<Rightarrow> False) ks \<noteq> None"
    unfolding find_None_iff using assms(1-3) by force
  then obtain k' where k': "List.find (\<lambda>k. case connectors s k of Some c \<Rightarrow> P c | None \<Rightarrow> False) ks = Some k'"
    by blast
  from find_Some_D [OF k'] obtain c' where "connectors s k' = Some c'" "P c'"
    by (auto split: option.splits)
  then have "k' = k" by (rule assms(4))
  then show ?thesis using k' by (simp add: find_connector_def)
qed

subsection \<open>Invariant\<close>

text \<open>
  The connectors are the ones the station was built with, numbered from 1, and no connector holds
  a reservation while a transaction runs on it; the counts are Go \<open>int\<close> values.
\<close>

definition connector_ok :: "connector \<Rightarrow> bool" where
  "connector_ok c \<longleftrightarrow> (c_transactionID c = 0 \<or> c_reservationID c = 0) \<and>
     in_int64 (c_transactionID c) \<and> in_int64 (c_meter c)"

definition sim_inv :: "Simulator \<Rightarrow> bool" where
  "sim_inv s \<longleftrightarrow>
     Valid (so_Scenario (opts s)) \<and> so_Version (opts s) = Version16 \<and>
     1 \<le> so_Connectors (opts s) \<and> in_int64 (so_Connectors (opts s)) \<and>
     dom (connectors s) = {1..so_Connectors (opts s)} \<and> (\<forall>c \<in> ran (connectors s). connector_ok c)"

lemma sim_inv_after [simp]: "sim_inv (after d s) = sim_inv s"
  by (simp add: sim_inv_def)

lemma sim_inv_connector: "sim_inv s \<Longrightarrow> connectors s n = Some c \<Longrightarrow> connector_ok c"
  by (auto simp: sim_inv_def ran_def)

lemma sim_inv_put:
  assumes "sim_inv s" "connectors s n = Some c" "connector_ok c'"
  shows "sim_inv (put_connector n c' s)"
proof -
  have "n \<in> dom (connectors s)" using assms(2) by blast
  moreover have "ran ((connectors s)(n \<mapsto> c')) \<subseteq> insert c' (ran (connectors s))"
    by (auto simp: ran_def)
  ultimately show ?thesis using assms(1,3) by (auto simp: sim_inv_def)
qed

lemma in_int64_01 [simp]: "in_int64 0" "in_int64 1"
  by (simp_all add: in_int64_def int64_min_def int64_max_def)

lemma New_sim_eq:
  "New_sim r = Inr s \<Longrightarrow>
   s = \<lparr>opts = applyDefaults_sim r, station = ''Available'',
        connectors = map_of (map (\<lambda>i. (i, new_connector)) [1..so_Connectors (applyDefaults_sim r)]),
        heartbeat_ns = fallbackHeartbeat, goroutines = [], closed = False\<rparr> \<and>
   validate_sim (applyDefaults_sim r) = None"
  by (simp add: New_sim_def Let_def split: option.splits)

lemma New_sim_connectors: "New_sim r = Inr s \<Longrightarrow> connectors s n = Some c \<Longrightarrow> c = new_connector"
  by (auto dest!: New_sim_eq map_of_SomeD)

lemma sim_inv_New:
  assumes "New_sim r = Inr s" "in_int64 (so_Connectors r)"
  shows "sim_inv s"
proof -
  note s = New_sim_eq [OF assms(1)]
  have "so_Version (opts s) = Version16" "Valid (so_Scenario (opts s))"
    using s by (simp_all add: validate_sim_def split: if_splits)
  moreover have "1 \<le> so_Connectors (opts s)" "in_int64 (so_Connectors (opts s))"
    using s assms(2) by (simp_all add: applyDefaults_sim_def)
  moreover have "dom (connectors s) = {1..so_Connectors (opts s)}"
    using s by (simp add: dom_map_of_conv_image_fst image_comp)
  moreover have "\<forall>c \<in> ran (connectors s). c = new_connector"
    using New_sim_connectors [OF assms(1)] by (auto simp: ran_def)
  ultimately show ?thesis by (auto simp: sim_inv_def connector_ok_def new_connector_def)
qed

text \<open>What a command does to the state: one connector may be changed, and side effects queued.\<close>

definition same_sessions :: "Simulator \<Rightarrow> Simulator \<Rightarrow> bool" where
  "same_sessions s s' \<longleftrightarrow>
     (\<forall>n. map_option (\<lambda>c. (c_transactionID c, c_meter c)) (connectors s' n) =
          map_option (\<lambda>c. (c_transactionID c, c_meter c)) (connectors s n))"

lemma same_sessions_simps [simp]: "same_sessions s s" "same_sessions s (after d s') = same_sessions s s'"
  by (simp_all add: same_sessions_def)

lemma same_sessions_trans: "same_sessions s s' \<Longrightarrow> same_sessions s' s'' \<Longrightarrow> same_sessions s s''"
  by (simp add: same_sessions_def)

lemma same_sessions_put:
  "connectors s n = Some c \<Longrightarrow> c_transactionID c' = c_transactionID c \<Longrightarrow> c_meter c' = c_meter c \<Longrightarrow>
   same_sessions s (put_connector n c' s)"
  by (simp add: same_sessions_def)

definition sim_effect :: "Simulator \<Rightarrow> response \<times> Simulator \<Rightarrow> bool" where
  "sim_effect s r \<longleftrightarrow>
     (case fst r of Inl e \<Rightarrow> snd r = s | Inr j \<Rightarrow> True) \<and>
     (snd r = s \<or> (\<exists>d. snd r = after d s) \<or>
      (\<exists>d n c c'. connectors s n = Some c \<and> (connector_ok c \<longrightarrow> connector_ok c') \<and>
                  c_transactionID c' = c_transactionID c \<and> c_meter c' = c_meter c \<and>
                  snd r = after d (put_connector n c' s)))"

lemma sim_effect_same [simp]: "sim_effect s (r, s)"
  by (simp add: sim_effect_def split: sum.split)

lemma sim_effect_after [simp]: "sim_effect s (Inr j, after d s)"
  by (auto simp: sim_effect_def)

lemma sim_effect_put:
  "connectors s n = Some c \<Longrightarrow> (connector_ok c \<Longrightarrow> connector_ok c') \<Longrightarrow>
   c_transactionID c' = c_transactionID c \<Longrightarrow> c_meter c' = c_meter c \<Longrightarrow>
   sim_effect s (Inr j, after d (put_connector n c' s))"
  unfolding sim_effect_def fst_conv snd_conv sum.case by blast

lemma sim_effect_reserveNow: "sim_effect s (reserveNow p s)"
  by (auto simp: reserveNow_def reserve_conf_def connector_ok_def split: sum.split option.split
      intro!: sim_effect_put)

lemma sim_effect_cancel: "sim_effect s (cancelReservation ks p s)"
  by (auto simp: cancelReservation_def connector_ok_def Let_def split: sum.split option.split
      intro!: sim_effect_put)

lemma sim_effect_start_stop: "sim_effect s (remoteStart p s)" "sim_effect s (remoteStop ks p s)"
  by (simp_all add: remoteStart_def remoteStop_def Let_def split: sum.split option.split)

lemma sim_effect_others:
  "sim_effect s (unlockConnector p s)" "sim_effect s (triggerMessage p s)"
  "sim_effect s (getConfiguration p s)" "sim_effect s (changeAvailability p s)"
  by (simp_all add: unlockConnector_def triggerMessage_def getConfiguration_def changeAvailability_def Let_def
      split: sum.split option.split)

lemmas sim_effects = sim_effect_reserveNow sim_effect_cancel sim_effect_start_stop sim_effect_others

lemma sim_effect_dispatch: "sim_effect s (dispatch_sim ks a p s)"
  unfolding dispatch_sim_def by (simp add: sim_effects)

lemma sim_effect_HandleCall: "sim_effect s (HandleCall_sim env peer a p s)"
  by (simp add: HandleCall_sim_def sim_effect_dispatch split: stall.split)

lemma sim_effect_inv: "sim_effect s r \<Longrightarrow> sim_inv s \<Longrightarrow> sim_inv (snd r)"
  by (auto simp: sim_effect_def intro: sim_inv_put dest: sim_inv_connector)

lemma sim_effect_sessions: "sim_effect s r \<Longrightarrow> same_sessions s (snd r)"
  by (auto simp: sim_effect_def same_sessions_put)

lemma serve_sim_sessions: "same_sessions s (snd (serve HandleCall_sim peer xs s))"
proof (induction xs arbitrary: s)
  case (Cons x xs)
  obtain t a p where x: "x = (t, a, p)" by (cases x) auto
  show ?case
    using same_sessions_trans [OF sim_effect_sessions [OF sim_effect_HandleCall] Cons.IH]
    by (simp add: x case_prod_beta)
qed simp

lemma serve_sim_inv: "sim_inv s \<Longrightarrow> sim_inv (snd (serve HandleCall_sim peer xs s))"
proof (induction xs arbitrary: s)
  case (Cons x xs)
  obtain t a p where x: "x = (t, a, p)" by (cases x) auto
  from Cons.IH [OF sim_effect_inv [OF sim_effect_HandleCall Cons.prems]] show ?case
    by (simp add: x case_prod_beta)
qed simp

definition actions_sim :: "string set" where
  "actions_sim = {ActionReserveNow, ActionCancelReservation, ActionRemoteStartTransaction,
     ActionRemoteStopTransaction, ActionUnlockConnector, ActionTriggerMessage, ActionGetConfiguration,
     ActionChangeAvailability, ActionReset}"

definition answering :: "int list \<Rightarrow> sim_env" where
  "answering ks = \<lparr>se_stall = Elapsed, se_order = ks\<rparr>"

lemma HandleCall_answering [simp]: "HandleCall_sim (answering ks) peer a p s = dispatch_sim ks a p s"
  by (simp add: HandleCall_sim_def answering_def)

text \<open>
  A station that is not stalled is a call handler for the connection: the CSMS is its one peer,
  and what no command changes is the station's options and its set of connectors.
\<close>

interpretation sim: call_handler "\<lambda>ks. HandleCall_sim (answering ks)" actions_sim sim_inv
  "\<lambda>_ s. (opts s, {1..so_Connectors (opts s)})"
proof unfold_locales
  show "sim_inv (snd (HandleCall_sim (answering ks) peer a p s))" if "sim_inv s" for ks peer a p s
    using sim_effect_inv [OF sim_effect_HandleCall that] .
  show "snd (HandleCall_sim (answering ks) peer a p s) = s"
    if "fst (HandleCall_sim (answering ks) peer a p s) = Inl e" for ks peer a p s e
    using sim_effect_HandleCall [of s "answering ks" peer a p] that unfolding sim_effect_def by simp
  show "\<exists>d. fst (HandleCall_sim (answering ks) peer a p s) = Inl (Errorf ErrNotImplemented d)"
    if "a \<notin> actions_sim" for ks peer a p s
    using that unfolding HandleCall_answering by (simp add: actions_sim_def dispatch_sim_def) blast
  show "(opts (snd (HandleCall_sim (answering ks) peer a p s)),
         {1..so_Connectors (opts (snd (HandleCall_sim (answering ks) peer a p s)))}) =
        (opts s, {1..so_Connectors (opts s)})" for ks peer a p s
    using sim_effect_HandleCall [of s "answering ks" peer a p] unfolding sim_effect_def by auto
qed

end
