(* ===== verification/Reply_Types.thy ===== *)
theory Reply_Types
  imports Simulator
begin

text \<open>
  A type system for replies. \<open>schema\<close> is what a JSON schema of OCPP 1.6 says of a payload: which
  members there are and which are required, and of which type each is, enumerations and
  timestamps included. \<open>reply_schema\<close> gives the type of the reply to every action. The theorem: both
  handlers of the program, the CSMS's (\<open>internal/ocpp/v16/handler.go\<close>) and the simulated station's
  (\<open>internal/simulator/handlers.go\<close>), only ever answer with a payload of that type.
\<close>

subsection \<open>Schemas\<close>

datatype schema =
    SText
  | STime
  | SInteger
  | SBoolean
  | SOneOf "string list"
  | SList schema
  | SObject "(string \<times> bool \<times> schema) list"

text \<open>The members of an object are distinct and declared, the required ones are there, and each is of
  its type.\<close>

fun conforms :: "schema \<Rightarrow> json \<Rightarrow> bool" where
  "conforms SText (JStr s) \<longleftrightarrow> True"
| "conforms STime (JStr s) \<longleftrightarrow> parse_rfc3339 s \<noteq> None"
| "conforms SInteger (JInt i) \<longleftrightarrow> True"
| "conforms SBoolean (JBool b) \<longleftrightarrow> True"
| "conforms (SOneOf ss) (JStr s) \<longleftrightarrow> s \<in> set ss"
| "conforms (SList t) (JArr js) \<longleftrightarrow> list_all (conforms t) js"
| "conforms (SObject fs) (JObj ms) \<longleftrightarrow>
     distinct (map fst ms) \<and> list_all (\<lambda>m. fst m \<in> set (map fst fs)) ms \<and>
     list_all (\<lambda>(n, required, t). case map_of ms n of None \<Rightarrow> \<not> required | Some j \<Rightarrow> conforms t j) fs"
| "conforms _ _ \<longleftrightarrow> False"

definition status_schema :: "string list \<Rightarrow> schema" where
  "status_schema ss = SObject [(''status'', True, SOneOf ss)]"

definition idTagInfo_schema :: schema where
  "idTagInfo_schema = SObject
     [(''status'', True, SOneOf [''Accepted'', ''Blocked'', ''Expired'', ''Invalid'', ''ConcurrentTx'']),
      (''expiryDate'', False, STime), (''parentIdTag'', False, SText)]"

definition key_schema :: schema where
  "key_schema = SObject [(''key'', True, SText), (''readonly'', True, SBoolean), (''value'', False, SText)]"

text \<open>The replies of OCPP 1.6: from the CSMS, and from the station.\<close>

definition csms_schema :: "string \<Rightarrow> schema" where
  "csms_schema a =
     (if a = ''BootNotification'' then
        SObject [(''status'', True, SOneOf [''Accepted'', ''Pending'', ''Rejected'']),
                 (''currentTime'', True, STime), (''interval'', True, SInteger)]
      else if a = ''Heartbeat'' then SObject [(''currentTime'', True, STime)]
      else if a = ''Authorize'' then SObject [(''idTagInfo'', True, idTagInfo_schema)]
      else if a = ''StartTransaction'' then
        SObject [(''transactionId'', True, SInteger), (''idTagInfo'', True, idTagInfo_schema)]
      else if a = ''StopTransaction'' then SObject [(''idTagInfo'', False, idTagInfo_schema)]
      else if a = ''DataTransfer'' then
        SObject [(''status'', True, SOneOf [''Accepted'', ''Rejected'', ''UnknownMessageId'', ''UnknownVendorId'']),
                 (''data'', False, SText)]
      else SObject [])"

definition station_schema :: "string \<Rightarrow> schema" where
  "station_schema a =
     (if a = ''ReserveNow'' then status_schema [''Accepted'', ''Faulted'', ''Occupied'', ''Rejected'', ''Unavailable'']
      else if a = ''UnlockConnector'' then status_schema [''Unlocked'', ''UnlockFailed'', ''NotSupported'']
      else if a = ''TriggerMessage'' then status_schema [''Accepted'', ''Rejected'', ''NotImplemented'']
      else if a = ''GetConfiguration'' then
        SObject [(''configurationKey'', False, SList key_schema), (''unknownKey'', False, SList SText)]
      else if a = ''ChangeAvailability'' then status_schema [''Accepted'', ''Rejected'', ''Scheduled'']
      else status_schema [''Accepted'', ''Rejected''])"

subsection \<open>Payloads\<close>

text \<open>What is left to check of each payload the handlers build.\<close>

lemma conforms_empty: "conforms (SObject []) emptyConf"
  by (simp add: emptyConf_def)

lemma conforms_status: "conforms (status_schema ss) (JObj (enc_str ''status'' s)) \<longleftrightarrow> s \<in> set ss"
  by (simp add: status_schema_def enc_str_def)

lemma conforms_idTagInfo:
  "conforms idTagInfo_schema (IDTagInfo_json \<lparr>iti_Status = s, iti_ExpiryDate = [], iti_ParentIDTag = []\<rparr>) \<longleftrightarrow>
     s \<in> {''Accepted'', ''Blocked'', ''Expired'', ''Invalid'', ''ConcurrentTx''}"
  by (simp add: idTagInfo_schema_def IDTagInfo_json_def enc_str_def enc_str_omit_def)

lemma conforms_key: "conforms key_schema (ConfigurationKey_json k)"
  by (simp add: key_schema_def ConfigurationKey_json_def enc_str_def enc_str_omit_def enc_bool_def)

lemma conforms_keys: "conforms (station_schema ''GetConfiguration'') (GetConfigurationConf_json r)"
  by (simp add: station_schema_def GetConfigurationConf_json_def enc_structs_omit_def enc_strings_omit_def
      conforms_key list_all_iff)

text \<open>The years a timestamp can be written for.\<close>

definition writable :: "go_time \<Rightarrow> bool" where
  "writable t \<longleftrightarrow> (case civil (utc t) of (y, _) \<Rightarrow> 0 \<le> y \<and> y < 10000)"

lemma conforms_time:
  assumes "writable t"
  shows "conforms STime (JStr (formatTime t))"
proof -
  obtain y m d hh mm ss ns where c: "civil (utc t) = (y, m, d, hh, mm, ss, ns)" by (metis prod_cases7)
  then show ?thesis
    using assms parse_format_rfc3339 [OF c, of False] by (simp add: writable_def formatTime_def utc_def)
qed

subsection \<open>Both handlers\<close>

lemma typed_boot_beat:
  assumes "writable (h_now t)"
  shows "bootNotification c t cp p s = (Inr j, s') \<Longrightarrow> conforms (csms_schema ''BootNotification'') j"
    and "heartbeat t cp s = (Inr j, s') \<Longrightarrow> conforms (csms_schema ''Heartbeat'') j"
  using conforms_time [OF assms]
  by (auto simp: bootNotification_def heartbeat_def BootNotificationConf_json_def HeartbeatConf_json_def csms_schema_def
      enc_str_def enc_int_def Let_def split: sum.splits option.splits)

lemma typed_empty:
  "statusNotification t cp p s = (Inr j, s') \<Longrightarrow> j = emptyConf"
  "meterValues t cp p s = (Inr j, s') \<Longrightarrow> j = emptyConf"
  "statusOnly t cp p s = (Inr j, s') \<Longrightarrow> j = emptyConf"
  by (auto simp: statusNotification_def meterValues_def statusOnly_def Let_def split: sum.splits option.splits)

lemma typed_sessions:
  "authorize c t cp p s = (Inr j, s') \<Longrightarrow> conforms (csms_schema ''Authorize'') j"
  "startTransaction c t cp p s = (Inr j, s') \<Longrightarrow> conforms (csms_schema ''StartTransaction'') j"
  "stopTransaction t cp p s = (Inr j, s') \<Longrightarrow> conforms (csms_schema ''StopTransaction'') j"
  "dataTransfer t cp p s = (Inr j, s') \<Longrightarrow> conforms (csms_schema ''DataTransfer'') j"
  by (auto simp: authorize_def startTransaction_def stopTransaction_def dataTransfer_def csms_schema_def
      AuthorizeConf_json_def StartTransactionConf_json_def StopTransactionConf_json_def DataTransferConf_json_def
      enc_struct_def enc_int_def enc_ptr_omit_def enc_str_def enc_str_omit_def conforms_idTagInfo AuthAccepted_def
      AuthInvalid_def Let_def case_prod_beta split: sum.splits option.splits if_splits)

lemma csms_schema_empty:
  "a \<notin> {''BootNotification'', ''Heartbeat'', ''Authorize'', ''StartTransaction'', ''StopTransaction'', ''DataTransfer''} \<Longrightarrow>
   csms_schema a = SObject []"
  by (simp add: csms_schema_def)

lemma typed_HandleCall:
  assumes "HandleCall c t cp a p s = (Inr j, s')" "writable (h_now t)"
  shows "conforms (csms_schema a) j"
proof -
  consider "a = ActionBootNotification" | "a = ActionHeartbeat" | "a = ActionAuthorize" | "a = ActionStartTransaction"
    | "a = ActionStopTransaction" | "a = ActionDataTransfer"
    | (none) "a \<notin> {ActionBootNotification, ActionHeartbeat, ActionAuthorize, ActionStartTransaction, ActionStopTransaction,
        ActionDataTransfer}"
    by blast
  then show ?thesis
  proof cases
    case none
    then have "j = emptyConf"
      using assms(1) typed_empty by (auto simp: HandleCall_def split: if_splits)
    moreover have "csms_schema a = SObject []" using none unfolding action_defs by (rule csms_schema_empty)
    ultimately show ?thesis by (simp add: conforms_empty)
  qed (use assms(1) typed_boot_beat [OF assms(2)] typed_sessions in \<open>simp add: HandleCall_def action_defs\<close>)+
qed

text \<open>The statuses the station may answer an action with.\<close>

lemma station_statuses_typed:
  "conforms (station_schema ''ReserveNow'') (ReserveNowConf_json \<lparr>rnc_Status = x\<rparr>) \<longleftrightarrow>
     x \<in> {''Accepted'', ''Faulted'', ''Occupied'', ''Rejected'', ''Unavailable''}"
  "conforms (station_schema ''CancelReservation'') (CancelReservationConf_json \<lparr>crc_Status = x\<rparr>) \<longleftrightarrow> x \<in> {''Accepted'', ''Rejected''}"
  "conforms (station_schema ''RemoteStartTransaction'') (RemoteStartTransactionConf_json \<lparr>rsc_Status = x\<rparr>) \<longleftrightarrow> x \<in> {''Accepted'', ''Rejected''}"
  "conforms (station_schema ''RemoteStopTransaction'') (RemoteStopTransactionConf_json \<lparr>rpc_Status = x\<rparr>) \<longleftrightarrow> x \<in> {''Accepted'', ''Rejected''}"
  "conforms (station_schema ''UnlockConnector'') (UnlockConnectorConf_json \<lparr>ucc_Status = x\<rparr>) \<longleftrightarrow>
     x \<in> {''Unlocked'', ''UnlockFailed'', ''NotSupported''}"
  "conforms (station_schema ''TriggerMessage'') (TriggerMessageConf_json \<lparr>tmc_Status = x\<rparr>) \<longleftrightarrow>
     x \<in> {''Accepted'', ''Rejected'', ''NotImplemented''}"
  "conforms (station_schema ''ChangeAvailability'') (ChangeAvailabilityConf_json \<lparr>cac_Status = x\<rparr>) \<longleftrightarrow>
     x \<in> {''Accepted'', ''Rejected'', ''Scheduled''}"
  "conforms (station_schema ''Reset'') (ResetConf_json \<lparr>rec_Status = x\<rparr>) \<longleftrightarrow> x \<in> {''Accepted'', ''Rejected''}"
  by (simp_all add: station_schema_def ReserveNowConf_json_def CancelReservationConf_json_def
      RemoteStartTransactionConf_json_def RemoteStopTransactionConf_json_def UnlockConnectorConf_json_def
      TriggerMessageConf_json_def ChangeAvailabilityConf_json_def ResetConf_json_def conforms_status)

lemma typed_station:
  "reserveNow p s = (Inr j, s') \<Longrightarrow> conforms (station_schema ''ReserveNow'') j"
  "cancelReservation ks p s = (Inr j, s') \<Longrightarrow> conforms (station_schema ''CancelReservation'') j"
  "remoteStart p s = (Inr j, s') \<Longrightarrow> conforms (station_schema ''RemoteStartTransaction'') j"
  "remoteStop ks p s = (Inr j, s') \<Longrightarrow> conforms (station_schema ''RemoteStopTransaction'') j"
  "unlockConnector p s = (Inr j, s') \<Longrightarrow> conforms (station_schema ''UnlockConnector'') j"
  "triggerMessage p s = (Inr j, s') \<Longrightarrow> conforms (station_schema ''TriggerMessage'') j"
  "getConfiguration p s = (Inr j, s') \<Longrightarrow> conforms (station_schema ''GetConfiguration'') j"
  "changeAvailability p s = (Inr j, s') \<Longrightarrow> conforms (station_schema ''ChangeAvailability'') j"
  by (auto simp: sim_defs reserve_conf_def Let_def station_statuses_typed conforms_keys command_status_defs
      split: sum.splits option.splits if_splits)

lemma typed_dispatch: "dispatch_sim ks a p s = (Inr j, s') \<Longrightarrow> conforms (station_schema a) j"
  unfolding dispatch_sim_def command_action_defs
  by (auto split: if_splits dest: typed_station simp: station_statuses_typed command_status_defs)

text \<open>
  Property C13. Every reply is well typed. Whatever a charge point sends and whatever the core's state, a
  reply of the CSMS that is not an error has the members and types OCPP 1.6 gives the reply to that
  action, its enumerations and timestamps included (for clocks in the years 0 to 9999); and so has
  every reply of the simulated station to a command.
\<close>

theorem replies_well_typed:
  "(HandleCall c t cp a p w = (Inr j, w') \<and> writable (h_now t) \<longrightarrow> conforms (csms_schema a) j) \<and>
   (HandleCall_sim env peer a p s = (Inr j, s') \<longrightarrow> conforms (station_schema a) j)"
  using typed_HandleCall typed_dispatch by (auto simp: HandleCall_sim_def split: stall.splits)

theorem replies_well_typed_witness:
  "conforms (csms_schema ''Heartbeat'') (HeartbeatConf_json \<lparr>hbc_CurrentTime = formatTime (Time 1 0 None)\<rparr>) \<and>
   conforms (station_schema ''Reset'') (ResetConf_json \<lparr>rec_Status = CmdAccepted\<rparr>)"
proof
  have "writable (h_now clk)" by code_simp
  moreover have "HandleCall (one_evse ''E'') clk ''CP'' ''Heartbeat'' None w =
      (Inr (HeartbeatConf_json \<lparr>hbc_CurrentTime = formatTime (Time 1 0 None)\<rparr>), Heartbeat (s_now clk) ''CP'' w)" for w
    by (simp add: HandleCall_def action_defs heartbeat_def clk_def)
  ultimately show "conforms (csms_schema ''Heartbeat'') (HeartbeatConf_json \<lparr>hbc_CurrentTime = formatTime (Time 1 0 None)\<rparr>)"
    using replies_well_typed by blast
  have "HandleCall_sim (answering []) [] ''Reset'' None s = (Inr (ResetConf_json \<lparr>rec_Status = CmdAccepted\<rparr>), s)" for s
    by (simp add: dispatch_sim_def command_action_defs)
  then show "conforms (station_schema ''Reset'') (ResetConf_json \<lparr>rec_Status = CmdAccepted\<rparr>)"
    using replies_well_typed by blast
qed

end
