(* ===== verification/State_File.thy ===== *)
theory State_File
  imports Go_Json Go_Time
begin

text \<open>
  The contents of \<open>state.json\<close> (\<open>internal/state/state.go\<close>): the structs, their JSON form, and the
  normal form the store keeps. \<open>StReservation\<close> and \<open>StTransaction\<close> are the package's
  \<open>Reservation\<close> and \<open>Transaction\<close>. A nil slice and an empty one are the same list here; they differ
  only in being written as \<open>null\<close> or \<open>[]\<close>, which are read back alike.
\<close>

subsection \<open>Timestamps in JSON\<close>

text \<open>A time is written with nanoseconds, and only for the years 0 to 9999; a malformed text is
  refused (of the library's message only the beginning is kept).\<close>

definition time_field :: "string \<Rightarrow> (go_time \<Rightarrow> 'r \<Rightarrow> 'r) \<Rightarrow> 'r field" where
  "time_field n upd =
     (n, \<lambda>r v. case v of
            JNull \<Rightarrow> Inr r
          | JStr s \<Rightarrow> (case parse_rfc3339 s of None \<Rightarrow> Inl (''parsing time '' @ go_quote s) | Some t \<Rightarrow> Inr (upd t r))
          | _ \<Rightarrow> Inl ''Time.UnmarshalJSON: input is not a JSON string'')"

definition enc_time :: "string \<Rightarrow> go_time \<Rightarrow> (string \<times> json) list" where
  "enc_time n t = [(n, JStr (format_rfc3339 True t))]"

definition year_ok :: "go_time \<Rightarrow> bool" where
  "year_ok t \<longleftrightarrow> (case civil t of (y, _) \<Rightarrow> 0 \<le> y \<and> y < 10000)"

definition time_ok :: "go_time \<Rightarrow> bool" where
  "time_ok t \<longleftrightarrow> zone_offset t = 0 \<and> mono t = None \<and> year_ok t"

lemma time_field_name [simp]: "fst (time_field n upd) = n"
  by (simp add: time_field_def)

lemma dec_enc_time [dec_roundtrip]:
  assumes "resolve_field fs n = Some (time_field n upd)" "time_ok t"
  shows "dec_members fs (enc_time n t) r e = (upd t r, e)"
proof -
  obtain y m d hh mm ss ns where c: "civil t = (y, m, d, hh, mm, ss, ns)" by (cases "civil t") auto
  have "parse_rfc3339 (format_rfc3339 True t) = Some (Time (nanos t) 0 None)"
    using parse_format_rfc3339 [OF c, of True] assms(2) c by (simp add: time_ok_def year_ok_def)
  moreover have "Time (nanos t) 0 None = t" using assms(2) by (cases t) (simp add: time_ok_def)
  ultimately show ?thesis using assms(1) by (simp add: enc_time_def time_field_def)
qed

subsection \<open>Structs\<close>

record Endpoint =
  ep_Identifier :: string
  ep_Role :: string
  ep_URL :: string

definition Endpoint_zero :: Endpoint where
  "Endpoint_zero = \<lparr>ep_Identifier = [], ep_Role = [], ep_URL = []\<rparr>"

definition Endpoint_fields :: "string \<Rightarrow> Endpoint field list" where
  "Endpoint_fields st =
     [str_field st ''identifier'' (\<lambda>x. ep_Identifier_update (\<lambda>_. x)),
      str_field st ''role'' (\<lambda>x. ep_Role_update (\<lambda>_. x)),
      str_field st ''url'' (\<lambda>x. ep_URL_update (\<lambda>_. x))]"

definition Endpoint_json :: "Endpoint \<Rightarrow> json" where
  "Endpoint_json r =
     JObj (enc_str ''identifier'' (ep_Identifier r) @
           enc_str ''role'' (ep_Role r) @
           enc_str ''url'' (ep_URL r))"

lemma Endpoint_resolve [simp]:
  "resolve_field (Endpoint_fields st) ''identifier'' = Some (str_field st ''identifier'' (\<lambda>x. ep_Identifier_update (\<lambda>_. x)))"
  "resolve_field (Endpoint_fields st) ''role'' = Some (str_field st ''role'' (\<lambda>x. ep_Role_update (\<lambda>_. x)))"
  "resolve_field (Endpoint_fields st) ''url'' = Some (str_field st ''url'' (\<lambda>x. ep_URL_update (\<lambda>_. x)))"
  by (simp_all add: resolve_field_def Endpoint_fields_def)

lemma Endpoint_roundtrip [simp]: "dec_struct ctx ty (Endpoint_fields st) Endpoint_zero (Endpoint_json r) = Inr r"
  unfolding Endpoint_json_def by (rule dec_struct_JObj, cases r) (simp_all add: Endpoint_zero_def dec_roundtrip)

record PartyRole =
  pr_CountryCode :: string
  pr_PartyID :: string
  pr_Role :: string

definition PartyRole_zero :: PartyRole where
  "PartyRole_zero = \<lparr>pr_CountryCode = [], pr_PartyID = [], pr_Role = []\<rparr>"

definition PartyRole_fields :: "string \<Rightarrow> PartyRole field list" where
  "PartyRole_fields st =
     [str_field st ''country_code'' (\<lambda>x. pr_CountryCode_update (\<lambda>_. x)),
      str_field st ''party_id'' (\<lambda>x. pr_PartyID_update (\<lambda>_. x)),
      str_field st ''role'' (\<lambda>x. pr_Role_update (\<lambda>_. x))]"

definition PartyRole_json :: "PartyRole \<Rightarrow> json" where
  "PartyRole_json r =
     JObj (enc_str ''country_code'' (pr_CountryCode r) @
           enc_str ''party_id'' (pr_PartyID r) @
           enc_str ''role'' (pr_Role r))"

lemma PartyRole_resolve [simp]:
  "resolve_field (PartyRole_fields st) ''country_code'' = Some (str_field st ''country_code'' (\<lambda>x. pr_CountryCode_update (\<lambda>_. x)))"
  "resolve_field (PartyRole_fields st) ''party_id'' = Some (str_field st ''party_id'' (\<lambda>x. pr_PartyID_update (\<lambda>_. x)))"
  "resolve_field (PartyRole_fields st) ''role'' = Some (str_field st ''role'' (\<lambda>x. pr_Role_update (\<lambda>_. x)))"
  by (simp_all add: resolve_field_def PartyRole_fields_def)

lemma PartyRole_roundtrip [simp]: "dec_struct ctx ty (PartyRole_fields st) PartyRole_zero (PartyRole_json r) = Inr r"
  unfolding PartyRole_json_def by (rule dec_struct_JObj, cases r) (simp_all add: PartyRole_zero_def dec_roundtrip)

record OCPIRegistration =
  og_RegisteredAt :: go_time
  og_TokenB :: string
  og_VersionsURL :: string
  og_Version :: string
  og_Endpoints :: "Endpoint list"
  og_Roles :: "PartyRole list"

definition OCPIRegistration_zero :: OCPIRegistration where
  "OCPIRegistration_zero = \<lparr>og_RegisteredAt = zero_time, og_TokenB = [], og_VersionsURL = [], og_Version = [], og_Endpoints = [], og_Roles = []\<rparr>"

definition OCPIRegistration_fields :: "string \<Rightarrow> OCPIRegistration field list" where
  "OCPIRegistration_fields st =
     [time_field ''registered_at'' (\<lambda>x. og_RegisteredAt_update (\<lambda>_. x)),
      str_field st ''token_b'' (\<lambda>x. og_TokenB_update (\<lambda>_. x)),
      str_field st ''versions_url'' (\<lambda>x. og_VersionsURL_update (\<lambda>_. x)),
      str_field st ''version'' (\<lambda>x. og_Version_update (\<lambda>_. x)),
      structs_field st ''endpoints'' ''state.Endpoint'' (Endpoint_fields (nested st ''Endpoint'' ''endpoints'')) Endpoint_zero (\<lambda>x. og_Endpoints_update (\<lambda>_. x)),
      structs_field st ''roles'' ''state.PartyRole'' (PartyRole_fields (nested st ''PartyRole'' ''roles'')) PartyRole_zero (\<lambda>x. og_Roles_update (\<lambda>_. x))]"

definition OCPIRegistration_json :: "OCPIRegistration \<Rightarrow> json" where
  "OCPIRegistration_json r =
     JObj (enc_time ''registered_at'' (og_RegisteredAt r) @
           enc_str ''token_b'' (og_TokenB r) @
           enc_str ''versions_url'' (og_VersionsURL r) @
           enc_str ''version'' (og_Version r) @
           enc_structs ''endpoints'' Endpoint_json (og_Endpoints r) @
           enc_structs ''roles'' PartyRole_json (og_Roles r))"

definition OCPIRegistration_ok :: "OCPIRegistration \<Rightarrow> bool" where
  "OCPIRegistration_ok r \<longleftrightarrow> time_ok (og_RegisteredAt r)"

lemma OCPIRegistration_resolve [simp]:
  "resolve_field (OCPIRegistration_fields st) ''registered_at'' = Some (time_field ''registered_at'' (\<lambda>x. og_RegisteredAt_update (\<lambda>_. x)))"
  "resolve_field (OCPIRegistration_fields st) ''token_b'' = Some (str_field st ''token_b'' (\<lambda>x. og_TokenB_update (\<lambda>_. x)))"
  "resolve_field (OCPIRegistration_fields st) ''versions_url'' = Some (str_field st ''versions_url'' (\<lambda>x. og_VersionsURL_update (\<lambda>_. x)))"
  "resolve_field (OCPIRegistration_fields st) ''version'' = Some (str_field st ''version'' (\<lambda>x. og_Version_update (\<lambda>_. x)))"
  "resolve_field (OCPIRegistration_fields st) ''endpoints'' = Some (structs_field st ''endpoints'' ''state.Endpoint'' (Endpoint_fields (nested st ''Endpoint'' ''endpoints'')) Endpoint_zero (\<lambda>x. og_Endpoints_update (\<lambda>_. x)))"
  "resolve_field (OCPIRegistration_fields st) ''roles'' = Some (structs_field st ''roles'' ''state.PartyRole'' (PartyRole_fields (nested st ''PartyRole'' ''roles'')) PartyRole_zero (\<lambda>x. og_Roles_update (\<lambda>_. x)))"
  by (simp_all add: resolve_field_def OCPIRegistration_fields_def)

lemma OCPIRegistration_roundtrip [simp]: "OCPIRegistration_ok r \<Longrightarrow> dec_struct ctx ty (OCPIRegistration_fields st) OCPIRegistration_zero (OCPIRegistration_json r) = Inr r"
  unfolding OCPIRegistration_json_def by (rule dec_struct_JObj, cases r) (simp_all add: OCPIRegistration_zero_def dec_roundtrip OCPIRegistration_ok_def dec_enc_structs [OF OCPIRegistration_resolve(5)] dec_enc_structs [OF OCPIRegistration_resolve(6)])

lemma OCPIRegistration_json_not_null [simp]: "OCPIRegistration_json r \<noteq> JNull"
  by (simp add: OCPIRegistration_json_def)

record StReservation =
  rv_ID :: int
  rv_OCPIReservationID :: string
  rv_ChargePointID :: string
  rv_EVSEUID :: string
  rv_IDTag :: string
  rv_ExpiresAt :: go_time
  rv_CreatedAt :: go_time
  rv_Source :: string
  rv_ResponseURL :: string

definition StReservation_zero :: StReservation where
  "StReservation_zero = \<lparr>rv_ID = 0, rv_OCPIReservationID = [], rv_ChargePointID = [], rv_EVSEUID = [], rv_IDTag = [], rv_ExpiresAt = zero_time, rv_CreatedAt = zero_time, rv_Source = [], rv_ResponseURL = []\<rparr>"

definition StReservation_fields :: "string \<Rightarrow> StReservation field list" where
  "StReservation_fields st =
     [int_field st ''id'' (\<lambda>x. rv_ID_update (\<lambda>_. x)),
      str_field st ''ocpi_reservation_id'' (\<lambda>x. rv_OCPIReservationID_update (\<lambda>_. x)),
      str_field st ''charge_point_id'' (\<lambda>x. rv_ChargePointID_update (\<lambda>_. x)),
      str_field st ''evse_uid'' (\<lambda>x. rv_EVSEUID_update (\<lambda>_. x)),
      str_field st ''id_tag'' (\<lambda>x. rv_IDTag_update (\<lambda>_. x)),
      time_field ''expires_at'' (\<lambda>x. rv_ExpiresAt_update (\<lambda>_. x)),
      time_field ''created_at'' (\<lambda>x. rv_CreatedAt_update (\<lambda>_. x)),
      str_field st ''source'' (\<lambda>x. rv_Source_update (\<lambda>_. x)),
      str_field st ''response_url'' (\<lambda>x. rv_ResponseURL_update (\<lambda>_. x))]"

definition StReservation_json :: "StReservation \<Rightarrow> json" where
  "StReservation_json r =
     JObj (enc_int ''id'' (rv_ID r) @
           enc_str_omit ''ocpi_reservation_id'' (rv_OCPIReservationID r) @
           enc_str ''charge_point_id'' (rv_ChargePointID r) @
           enc_str ''evse_uid'' (rv_EVSEUID r) @
           enc_str ''id_tag'' (rv_IDTag r) @
           enc_time ''expires_at'' (rv_ExpiresAt r) @
           enc_time ''created_at'' (rv_CreatedAt r) @
           enc_str ''source'' (rv_Source r) @
           enc_str_omit ''response_url'' (rv_ResponseURL r))"

definition StReservation_ok :: "StReservation \<Rightarrow> bool" where
  "StReservation_ok r \<longleftrightarrow> in_int64 (rv_ID r) \<and> time_ok (rv_ExpiresAt r) \<and> time_ok (rv_CreatedAt r)"

lemma StReservation_resolve [simp]:
  "resolve_field (StReservation_fields st) ''id'' = Some (int_field st ''id'' (\<lambda>x. rv_ID_update (\<lambda>_. x)))"
  "resolve_field (StReservation_fields st) ''ocpi_reservation_id'' = Some (str_field st ''ocpi_reservation_id'' (\<lambda>x. rv_OCPIReservationID_update (\<lambda>_. x)))"
  "resolve_field (StReservation_fields st) ''charge_point_id'' = Some (str_field st ''charge_point_id'' (\<lambda>x. rv_ChargePointID_update (\<lambda>_. x)))"
  "resolve_field (StReservation_fields st) ''evse_uid'' = Some (str_field st ''evse_uid'' (\<lambda>x. rv_EVSEUID_update (\<lambda>_. x)))"
  "resolve_field (StReservation_fields st) ''id_tag'' = Some (str_field st ''id_tag'' (\<lambda>x. rv_IDTag_update (\<lambda>_. x)))"
  "resolve_field (StReservation_fields st) ''expires_at'' = Some (time_field ''expires_at'' (\<lambda>x. rv_ExpiresAt_update (\<lambda>_. x)))"
  "resolve_field (StReservation_fields st) ''created_at'' = Some (time_field ''created_at'' (\<lambda>x. rv_CreatedAt_update (\<lambda>_. x)))"
  "resolve_field (StReservation_fields st) ''source'' = Some (str_field st ''source'' (\<lambda>x. rv_Source_update (\<lambda>_. x)))"
  "resolve_field (StReservation_fields st) ''response_url'' = Some (str_field st ''response_url'' (\<lambda>x. rv_ResponseURL_update (\<lambda>_. x)))"
  by (simp_all add: resolve_field_def StReservation_fields_def)

lemma StReservation_roundtrip [simp]: "StReservation_ok r \<Longrightarrow> dec_struct ctx ty (StReservation_fields st) StReservation_zero (StReservation_json r) = Inr r"
  unfolding StReservation_json_def by (rule dec_struct_JObj, cases r) (simp_all add: StReservation_zero_def dec_roundtrip StReservation_ok_def)

record StTransaction =
  tr_ID :: string
  tr_ChargePointID :: string
  tr_EVSEUID :: string
  tr_ConnectorID :: int
  tr_IDTag :: string
  tr_MeterStart :: int
  tr_StartedAt :: go_time
  tr_ReservationID :: int

definition StTransaction_zero :: StTransaction where
  "StTransaction_zero = \<lparr>tr_ID = [], tr_ChargePointID = [], tr_EVSEUID = [], tr_ConnectorID = 0, tr_IDTag = [], tr_MeterStart = 0, tr_StartedAt = zero_time, tr_ReservationID = 0\<rparr>"

definition StTransaction_fields :: "string \<Rightarrow> StTransaction field list" where
  "StTransaction_fields st =
     [str_field st ''id'' (\<lambda>x. tr_ID_update (\<lambda>_. x)),
      str_field st ''charge_point_id'' (\<lambda>x. tr_ChargePointID_update (\<lambda>_. x)),
      str_field st ''evse_uid'' (\<lambda>x. tr_EVSEUID_update (\<lambda>_. x)),
      int_field st ''connector_id'' (\<lambda>x. tr_ConnectorID_update (\<lambda>_. x)),
      str_field st ''id_tag'' (\<lambda>x. tr_IDTag_update (\<lambda>_. x)),
      int_field st ''meter_start'' (\<lambda>x. tr_MeterStart_update (\<lambda>_. x)),
      time_field ''started_at'' (\<lambda>x. tr_StartedAt_update (\<lambda>_. x)),
      int_field st ''reservation_id'' (\<lambda>x. tr_ReservationID_update (\<lambda>_. x))]"

definition StTransaction_json :: "StTransaction \<Rightarrow> json" where
  "StTransaction_json r =
     JObj (enc_str ''id'' (tr_ID r) @
           enc_str ''charge_point_id'' (tr_ChargePointID r) @
           enc_str ''evse_uid'' (tr_EVSEUID r) @
           enc_int ''connector_id'' (tr_ConnectorID r) @
           enc_str ''id_tag'' (tr_IDTag r) @
           enc_int ''meter_start'' (tr_MeterStart r) @
           enc_time ''started_at'' (tr_StartedAt r) @
           enc_int_omit ''reservation_id'' (tr_ReservationID r))"

definition StTransaction_ok :: "StTransaction \<Rightarrow> bool" where
  "StTransaction_ok r \<longleftrightarrow> in_int64 (tr_ConnectorID r) \<and> in_int64 (tr_MeterStart r) \<and> time_ok (tr_StartedAt r) \<and> in_int64 (tr_ReservationID r)"

lemma StTransaction_resolve [simp]:
  "resolve_field (StTransaction_fields st) ''id'' = Some (str_field st ''id'' (\<lambda>x. tr_ID_update (\<lambda>_. x)))"
  "resolve_field (StTransaction_fields st) ''charge_point_id'' = Some (str_field st ''charge_point_id'' (\<lambda>x. tr_ChargePointID_update (\<lambda>_. x)))"
  "resolve_field (StTransaction_fields st) ''evse_uid'' = Some (str_field st ''evse_uid'' (\<lambda>x. tr_EVSEUID_update (\<lambda>_. x)))"
  "resolve_field (StTransaction_fields st) ''connector_id'' = Some (int_field st ''connector_id'' (\<lambda>x. tr_ConnectorID_update (\<lambda>_. x)))"
  "resolve_field (StTransaction_fields st) ''id_tag'' = Some (str_field st ''id_tag'' (\<lambda>x. tr_IDTag_update (\<lambda>_. x)))"
  "resolve_field (StTransaction_fields st) ''meter_start'' = Some (int_field st ''meter_start'' (\<lambda>x. tr_MeterStart_update (\<lambda>_. x)))"
  "resolve_field (StTransaction_fields st) ''started_at'' = Some (time_field ''started_at'' (\<lambda>x. tr_StartedAt_update (\<lambda>_. x)))"
  "resolve_field (StTransaction_fields st) ''reservation_id'' = Some (int_field st ''reservation_id'' (\<lambda>x. tr_ReservationID_update (\<lambda>_. x)))"
  by (simp_all add: resolve_field_def StTransaction_fields_def)

lemma StTransaction_roundtrip [simp]: "StTransaction_ok r \<Longrightarrow> dec_struct ctx ty (StTransaction_fields st) StTransaction_zero (StTransaction_json r) = Inr r"
  unfolding StTransaction_json_def by (rule dec_struct_JObj, cases r) (simp_all add: StTransaction_zero_def dec_roundtrip StTransaction_ok_def)

record State =
  ss_Version :: int
  ss_OCPI :: "OCPIRegistration option"
  ss_NextReservationID :: int
  ss_NextTransactionID :: int
  ss_NextRemoteStartID :: int
  ss_Reservations :: "StReservation list"
  ss_Transactions :: "StTransaction list"

definition State_zero :: State where
  "State_zero = \<lparr>ss_Version = 0, ss_OCPI = None, ss_NextReservationID = 0, ss_NextTransactionID = 0, ss_NextRemoteStartID = 0, ss_Reservations = [], ss_Transactions = []\<rparr>"

definition State_fields :: "string \<Rightarrow> State field list" where
  "State_fields st =
     [int_field st ''version'' (\<lambda>x. ss_Version_update (\<lambda>_. x)),
      ptr_field st ''ocpi'' ''state.OCPIRegistration'' (OCPIRegistration_fields (nested st ''OCPIRegistration'' ''ocpi'')) OCPIRegistration_zero ss_OCPI (\<lambda>x. ss_OCPI_update (\<lambda>_. x)),
      int_field st ''next_reservation_id'' (\<lambda>x. ss_NextReservationID_update (\<lambda>_. x)),
      int_field st ''next_transaction_id'' (\<lambda>x. ss_NextTransactionID_update (\<lambda>_. x)),
      int_field st ''next_remote_start_id'' (\<lambda>x. ss_NextRemoteStartID_update (\<lambda>_. x)),
      structs_field st ''reservations'' ''state.Reservation'' (StReservation_fields (nested st ''Reservation'' ''reservations'')) StReservation_zero (\<lambda>x. ss_Reservations_update (\<lambda>_. x)),
      structs_field st ''transactions'' ''state.Transaction'' (StTransaction_fields (nested st ''Transaction'' ''transactions'')) StTransaction_zero (\<lambda>x. ss_Transactions_update (\<lambda>_. x))]"

definition State_json :: "State \<Rightarrow> json" where
  "State_json r =
     JObj (enc_int ''version'' (ss_Version r) @
           enc_ptr_omit ''ocpi'' OCPIRegistration_json (ss_OCPI r) @
           enc_int ''next_reservation_id'' (ss_NextReservationID r) @
           enc_int ''next_transaction_id'' (ss_NextTransactionID r) @
           enc_int ''next_remote_start_id'' (ss_NextRemoteStartID r) @
           enc_structs ''reservations'' StReservation_json (ss_Reservations r) @
           enc_structs ''transactions'' StTransaction_json (ss_Transactions r))"

definition State_ok :: "State \<Rightarrow> bool" where
  "State_ok r \<longleftrightarrow> in_int64 (ss_Version r) \<and> pred_option OCPIRegistration_ok (ss_OCPI r) \<and> in_int64 (ss_NextReservationID r) \<and> in_int64 (ss_NextTransactionID r) \<and> in_int64 (ss_NextRemoteStartID r) \<and> list_all StReservation_ok (ss_Reservations r) \<and> list_all StTransaction_ok (ss_Transactions r)"

lemma State_resolve [simp]:
  "resolve_field (State_fields st) ''version'' = Some (int_field st ''version'' (\<lambda>x. ss_Version_update (\<lambda>_. x)))"
  "resolve_field (State_fields st) ''ocpi'' = Some (ptr_field st ''ocpi'' ''state.OCPIRegistration'' (OCPIRegistration_fields (nested st ''OCPIRegistration'' ''ocpi'')) OCPIRegistration_zero ss_OCPI (\<lambda>x. ss_OCPI_update (\<lambda>_. x)))"
  "resolve_field (State_fields st) ''next_reservation_id'' = Some (int_field st ''next_reservation_id'' (\<lambda>x. ss_NextReservationID_update (\<lambda>_. x)))"
  "resolve_field (State_fields st) ''next_transaction_id'' = Some (int_field st ''next_transaction_id'' (\<lambda>x. ss_NextTransactionID_update (\<lambda>_. x)))"
  "resolve_field (State_fields st) ''next_remote_start_id'' = Some (int_field st ''next_remote_start_id'' (\<lambda>x. ss_NextRemoteStartID_update (\<lambda>_. x)))"
  "resolve_field (State_fields st) ''reservations'' = Some (structs_field st ''reservations'' ''state.Reservation'' (StReservation_fields (nested st ''Reservation'' ''reservations'')) StReservation_zero (\<lambda>x. ss_Reservations_update (\<lambda>_. x)))"
  "resolve_field (State_fields st) ''transactions'' = Some (structs_field st ''transactions'' ''state.Transaction'' (StTransaction_fields (nested st ''Transaction'' ''transactions'')) StTransaction_zero (\<lambda>x. ss_Transactions_update (\<lambda>_. x)))"
  by (simp_all add: resolve_field_def State_fields_def)

lemma State_roundtrip [simp]: "State_ok r \<Longrightarrow> dec_struct ctx ty (State_fields st) State_zero (State_json r) = Inr r"
  unfolding State_json_def by (rule dec_struct_JObj, cases r, cases "ss_OCPI r") (simp_all add: State_zero_def dec_roundtrip State_ok_def enc_ptr_omit_def ptr_field_def dec_enc_structs [OF State_resolve(6)] dec_enc_structs [OF State_resolve(7)] list_all_iff OCPIRegistration_json_not_null)

subsection \<open>The empty state, copies and the normal form\<close>

definition StateVersion :: int where "StateVersion = 1"

definition empty_state :: State where
  "empty_state = State_zero\<lparr>ss_Version := StateVersion\<rparr>"

text \<open>\<open>clone\<close> copies the lists and the registration; as a value the copy is the state itself.\<close>

definition clone :: "State \<Rightarrow> State" where
  "clone s =
     s\<lparr>ss_Reservations := [] @ ss_Reservations s, ss_Transactions := [] @ ss_Transactions s,
       ss_OCPI := (case ss_OCPI s of
                     None \<Rightarrow> None
                   | Some g \<Rightarrow> Some (g\<lparr>og_Endpoints := [] @ og_Endpoints g, og_Roles := [] @ og_Roles g\<rparr>))\<rparr>"

definition normalize :: "State \<Rightarrow> State" where
  "normalize s =
     s\<lparr>ss_Version := StateVersion,
       ss_Reservations := map (\<lambda>r. r\<lparr>rv_ExpiresAt := utc (rv_ExpiresAt r), rv_CreatedAt := utc (rv_CreatedAt r)\<rparr>)
         (ss_Reservations s),
       ss_Transactions := map (\<lambda>t. t\<lparr>tr_StartedAt := utc (tr_StartedAt t)\<rparr>) (ss_Transactions s),
       ss_OCPI := map_option (\<lambda>g. g\<lparr>og_RegisteredAt := utc (og_RegisteredAt g)\<rparr>) (ss_OCPI s)\<rparr>"

lemma clone_id [simp]: "clone s = s"
  by (cases s) (simp add: clone_def split: option.split)

lemma normalize_idem [simp]: "normalize (normalize s) = normalize s"
  by (cases s) (simp add: normalize_def option.map_comp comp_def)

text \<open>The integers of a state are 64-bit ones, as they are in Go.\<close>

definition ints_ok :: "State \<Rightarrow> bool" where
  "ints_ok s \<longleftrightarrow>
     in_int64 (ss_Version s) \<and> in_int64 (ss_NextReservationID s) \<and> in_int64 (ss_NextTransactionID s) \<and>
     in_int64 (ss_NextRemoteStartID s) \<and>
     list_all (\<lambda>r. in_int64 (rv_ID r)) (ss_Reservations s) \<and>
     list_all (\<lambda>t. in_int64 (tr_ConnectorID t) \<and> in_int64 (tr_MeterStart t) \<and> in_int64 (tr_ReservationID t))
       (ss_Transactions s)"

text \<open>The timestamps of a state, all of which the encoder visits.\<close>

definition state_times :: "State \<Rightarrow> go_time list" where
  "state_times s =
     (case ss_OCPI s of None \<Rightarrow> [] | Some g \<Rightarrow> [og_RegisteredAt g]) @
     concat (map (\<lambda>r. [rv_ExpiresAt r, rv_CreatedAt r]) (ss_Reservations s)) @
     map tr_StartedAt (ss_Transactions s)"

lemma normalize_ok:
  assumes "ints_ok s" "list_all year_ok (state_times (normalize s))"
  shows "State_ok (normalize s)"
proof -
  have t: "year_ok (utc t) \<Longrightarrow> time_ok (utc t)" for t by (simp add: time_ok_def utc_def)
  have v: "in_int64 StateVersion" by (simp add: StateVersion_def in_int64_def int64_min_def int64_max_def)
  have y: "\<forall>x \<in> set (state_times (normalize s)). year_ok x" using assms(2) by (simp add: list_all_iff)
  have g: "pred_option OCPIRegistration_ok (ss_OCPI (normalize s))"
    using y by (cases "ss_OCPI s") (simp_all add: normalize_def state_times_def OCPIRegistration_ok_def t)
  have "list_all StReservation_ok (ss_Reservations (normalize s))"
    using y assms(1) by (simp add: normalize_def state_times_def list_all_iff StReservation_ok_def ints_ok_def t ball_Un)
  moreover have "list_all StTransaction_ok (ss_Transactions (normalize s))"
    using y assms(1) by (simp add: normalize_def state_times_def list_all_iff StTransaction_ok_def ints_ok_def t ball_Un)
  ultimately show ?thesis
    using g v assms(1) by (simp add: State_ok_def ints_ok_def) (simp add: normalize_def)
qed

end
