(* ===== verification/State_Store.thy ===== *)
theory State_Store
  imports State_File
begin

text \<open>
  The state store (\<open>internal/state/store.go\<close>): opening the state file, reading a copy of the
  state, and updating it with an atomic replacement of the file. The file system is a map from
  paths to contents, a content being the JSON document it holds or bytes that are none. Any
  system call of a write may fail, and a write is described by all the file systems a crash could
  leave behind. Results: a crash never leaves a torn state file, a failed update changes neither
  the file nor the state in memory, and reopening the file always gives the state in memory.
\<close>

type_synonym disk = "string \<rightharpoonup> wire"

record Store =
  store_path :: string
  store_state :: State

subsection \<open>Reading\<close>

text \<open>
  \<open>jsonProblem\<close>: \<open>offset\<close> is the offset the decoder's error carries, negative when it carries none.
\<close>

definition jsonProblem :: "string \<Rightarrow> int \<Rightarrow> string \<Rightarrow> string" where
  "jsonProblem data offset err =
     (if offset < 0 then ''is not valid JSON: '' @ err
      else let line = 1 + length (filter (\<lambda>c. c = CHR 0x0A) (take (min (nat offset) (length data)) data))
           in ''is not valid JSON (line '' @ dec line @ ''): '' @ err)"

record version_header =
  vh_Version :: "int option"

definition header_fields :: "version_header field list" where
  "header_fields = [int_ptr_field [] ''version'' (\<lambda>x. vh_Version_update (\<lambda>_. x))]"

definition header_type :: string where
  "header_type = ''struct { Version *int '' @ go_quote (''json:'' @ go_quote ''version'') @ '' }''"

text \<open>\<open>problem\<close> stands for \<open>jsonProblem\<close> on the file's bytes.\<close>

definition parse_state :: "(string \<Rightarrow> string) \<Rightarrow> wire \<Rightarrow> string + State" where
  "parse_state problem data =
     (case data of
        Inl e \<Rightarrow> Inl (problem e)
      | Inr j \<Rightarrow>
          (case dec_struct [] header_type header_fields \<lparr>vh_Version = None\<rparr> j of
             Inl e \<Rightarrow> Inl (problem e)
           | Inr h \<Rightarrow>
               (case vh_Version h of
                  None \<Rightarrow> Inl ''has no version field''
                | Some v \<Rightarrow>
                    if v > StateVersion
                    then Inl (''has version '' @ itoa v @ '' and was written by a newer cpms (this one reads version ''
                           @ itoa StateVersion @ '')'')
                    else if v \<noteq> StateVersion
                    then Inl (''has unsupported version '' @ itoa v @ '' (this cpms reads version ''
                           @ itoa StateVersion @ '')'')
                    else (case dec_struct [] ''state.State'' (State_fields ''State'') State_zero j of
                            Inl e \<Rightarrow> Inl (problem e)
                          | Inr st \<Rightarrow> Inr (normalize st)))))"

text \<open>\<open>Open\<close>; \<open>read_err\<close> is the error of reading a file that exists, if any.\<close>

definition Open :: "(string \<Rightarrow> string) \<Rightarrow> string option \<Rightarrow> string \<Rightarrow> disk \<Rightarrow> string + Store" where
  "Open problem read_err path d =
     (case d path of
        None \<Rightarrow> Inr \<lparr>store_path = path, store_state = empty_state\<rparr>
      | Some data \<Rightarrow>
          (case read_err of
             Some e \<Rightarrow> Inl (''reading state file '' @ path @ '': '' @ e)
           | None \<Rightarrow>
               (case parse_state problem data of
                  Inl e \<Rightarrow> Inl (''state file '' @ path @ '' '' @ e @
                    ''; cpms will not overwrite it. Move it aside to start with empty state'')
                | Inr st \<Rightarrow> Inr \<lparr>store_path = path, store_state = st\<rparr>)))"

definition Get :: "Store \<Rightarrow> State" where
  "Get s = clone (store_state s)"

subsection \<open>Writing\<close>

datatype syscall = SysCreate | SysWrite | SysSync | SysClose | SysRename | SysRemove

type_synonym faults = "syscall \<Rightarrow> string option"

text \<open>The deferred clean-up of a failed write: the temporary file is removed, if that works.\<close>

definition cleanup :: "faults \<Rightarrow> string \<Rightarrow> disk \<Rightarrow> disk" where
  "cleanup fault tmp d = (case fault SysRemove of None \<Rightarrow> d(tmp := None) | Some _ \<Rightarrow> d)"

text \<open>
  \<open>write\<close>: the error, if any, and the file systems passed through, the last one being the final
  one. \<open>tmp\<close> is the name \<open>os.CreateTemp\<close> chose. While it is written the temporary file holds an
  incomplete text.
\<close>

definition write_file ::
  "faults \<Rightarrow> string \<Rightarrow> string \<Rightarrow> State \<Rightarrow> disk \<Rightarrow> string option \<times> disk list" where
  "write_file fault tmp path st d0 =
     (if \<not> list_all year_ok (state_times st) then (Some ''encoding state: json'', [d0])
      else case fault SysCreate of
        Some e \<Rightarrow> (Some (''writing state file '' @ path @ '': '' @ e), [d0])
      | None \<Rightarrow>
        let torn = d0(tmp \<mapsto> Inl ''unexpected end of JSON input'') in
        case fault SysWrite of
          Some e \<Rightarrow> (Some (''writing state file '' @ path @ '': '' @ e), [d0, torn, cleanup fault tmp torn])
        | None \<Rightarrow>
          let full = d0(tmp \<mapsto> Inr (State_json st)) in
          case fault SysSync of
            Some e \<Rightarrow> (Some (''writing state file '' @ path @ '': '' @ e), [d0, torn, full, cleanup fault tmp full])
          | None \<Rightarrow>
            (case fault SysClose of
               Some e \<Rightarrow> (Some (''writing state file '' @ path @ '': '' @ e), [d0, torn, full, cleanup fault tmp full])
             | None \<Rightarrow>
               (case fault SysRename of
                  Some e \<Rightarrow> (Some (''replacing state file '' @ path @ '': '' @ e), [d0, torn, full, cleanup fault tmp full])
                | None \<Rightarrow> (None, [d0, torn, full, full(path \<mapsto> Inr (State_json st), tmp := None)]))))"

text \<open>\<open>Update\<close>: \<open>fn\<close> gives the changed state or an error.\<close>

definition Update ::
  "(State \<Rightarrow> string + State) \<Rightarrow> faults \<Rightarrow> string \<Rightarrow> Store \<Rightarrow> disk \<Rightarrow> string option \<times> Store \<times> disk list" where
  "Update fn fault tmp s d =
     (case fn (clone (store_state s)) of
        Inl e \<Rightarrow> (Some e, s, [d])
      | Inr st \<Rightarrow>
          let new = normalize st;
              (err, ds) = write_file fault tmp (store_path s) new d
          in (case err of
                Some e \<Rightarrow> (Some e, s, ds)
              | None \<Rightarrow> (None, s\<lparr>store_state := new\<rparr>, ds)))"

subsection \<open>A state file reads back\<close>

lemma header_of_state:
  "dec_struct [] header_type header_fields \<lparr>vh_Version = None\<rparr> (State_json (normalize s)) =
     Inr \<lparr>vh_Version = Some StateVersion\<rparr>"
proof -
  have ne: "\<not> equal_fold ''ocpi'' ''version''" "\<not> equal_fold ''next_reservation_id'' ''version''"
    "\<not> equal_fold ''next_transaction_id'' ''version''" "\<not> equal_fold ''next_remote_start_id'' ''version''"
    "\<not> equal_fold ''reservations'' ''version''" "\<not> equal_fold ''transactions'' ''version''"
    by code_simp+
  have r: "resolve_field header_fields ''version'' = Some (int_ptr_field [] ''version'' (\<lambda>x. vh_Version_update (\<lambda>_. x)))"
    "resolve_field header_fields ''ocpi'' = None" "resolve_field header_fields ''next_reservation_id'' = None"
    "resolve_field header_fields ''next_transaction_id'' = None" "resolve_field header_fields ''next_remote_start_id'' = None"
    "resolve_field header_fields ''reservations'' = None" "resolve_field header_fields ''transactions'' = None"
    using ne by (simp_all add: resolve_field_def header_fields_def)
  have "in_int64 StateVersion" by (simp add: StateVersion_def in_int64_def int64_min_def int64_max_def)
  then show ?thesis
    by (cases "ss_OCPI (normalize s)")
      (simp_all add: dec_struct_def State_json_def enc_int_def enc_ptr_omit_def enc_structs_def r
        int_ptr_field_def dec_int_def, simp_all add: normalize_def)
qed

lemma parse_written:
  assumes "ints_ok s" "list_all year_ok (state_times (normalize s))"
  shows "parse_state problem (Inr (State_json (normalize s))) = Inr (normalize s)"
  using normalize_ok [OF assms] by (simp add: parse_state_def header_of_state)

text \<open>A write touches no path but the temporary one and the target, and the target at once.\<close>

lemma write_file_disks:
  assumes "write_file fault tmp path st d = (err, ds)" "tmp \<noteq> path" "d' \<in> set ds"
  shows "d' path = d path \<or> err = None \<and> d' = last ds \<and> d' path = Some (Inr (State_json st))"
  using assms
  by (auto simp: write_file_def Let_def cleanup_def split: if_splits option.splits)

lemma write_file_last:
  assumes "write_file fault tmp path st d = (err, ds)" "tmp \<noteq> path"
  shows "ds \<noteq> [] \<and> last ds path = (if err = None then Some (Inr (State_json st)) else d path) \<and>
         (err = None \<longrightarrow> list_all year_ok (state_times st)) \<and>
         (\<forall>p. p \<noteq> path \<longrightarrow> p \<noteq> tmp \<longrightarrow> last ds p = d p)"
  using assms
  by (auto simp: write_file_def Let_def cleanup_def split: if_splits option.splits)

subsection \<open>Histories of updates\<close>

type_synonym update = "(State \<Rightarrow> string + State) \<times> faults \<times> string"

fun run_updates :: "update list \<Rightarrow> Store \<Rightarrow> disk \<Rightarrow> Store \<times> disk" where
  "run_updates [] s d = (s, d)"
| "run_updates ((fn, fault, tmp) # us) s d =
     (case Update fn fault tmp s d of (_, s', ds) \<Rightarrow> run_updates us s' (last ds))"

text \<open>The temporary name is not the state file's, and the caller's function yields 64-bit integers.\<close>

definition update_ok :: "string \<Rightarrow> update \<Rightarrow> bool" where
  "update_ok path u \<longleftrightarrow>
     (case u of (fn, fault, tmp) \<Rightarrow> tmp \<noteq> path \<and> (\<forall>st st'. fn st = Inr st' \<longrightarrow> ints_ok st'))"

lemma Update_cases:
  assumes "Update fn fault tmp s d = (err, s', ds)" "tmp \<noteq> store_path s"
  shows "ds \<noteq> [] \<and> store_path s' = store_path s \<and>
    (err \<noteq> None \<and> s' = s \<and> (\<forall>d' \<in> set ds. d' (store_path s) = d (store_path s)) \<or>
     (\<exists>st. err = None \<and> fn (store_state s) = Inr st \<and> s' = s\<lparr>store_state := normalize st\<rparr> \<and>
        list_all year_ok (state_times (normalize st)) \<and>
        last ds (store_path s) = Some (Inr (State_json (normalize st))) \<and>
        (\<forall>d' \<in> set ds. d' (store_path s) = d (store_path s) \<or> d' = last ds)))"
proof (cases "fn (store_state s)")
  case (Inl e)
  then show ?thesis using assms by (auto simp: Update_def)
next
  case (Inr st)
  obtain err' ds' where w: "write_file fault tmp (store_path s) (normalize st) d = (err', ds')"
    by (cases "write_file fault tmp (store_path s) (normalize st) d")
  show ?thesis
    using assms(1) Inr write_file_disks [OF w assms(2)] write_file_last [OF w assms(2)]
    by (cases err') (auto simp: Update_def w)
qed

lemma Open_cong: "d path = d' path \<Longrightarrow> Open problem e path d = Open problem e path d'"
  by (simp add: Open_def)

lemma Open_written:
  "d path = Some (Inr (State_json (normalize st))) \<Longrightarrow> ints_ok st \<Longrightarrow>
   list_all year_ok (state_times (normalize st)) \<Longrightarrow>
   Open problem None path d = Inr \<lparr>store_path = path, store_state = normalize st\<rparr>"
  by (simp add: Open_def parse_written)

lemma Store_eqI: "store_path s = p \<Longrightarrow> s\<lparr>store_state := st\<rparr> = \<lparr>store_path = p, store_state = st\<rparr>"
  by (cases s) simp

lemma Update_reopens:
  assumes "Open problem None (store_path s) d = Inr s" "update_ok (store_path s) (fn, fault, tmp)"
    "Update fn fault tmp s d = (err, s', ds)" "d' \<in> set ds"
  shows "Open problem None (store_path s) d' = Inr s \<or> Open problem None (store_path s) d' = Inr s'"
    and "d' = last ds \<Longrightarrow> Open problem None (store_path s) d' = Inr s'"
proof -
  have tmp: "tmp \<noteq> store_path s" and ints: "\<And>st st'. fn st = Inr st' \<Longrightarrow> ints_ok st'"
    using assms(2) by (auto simp: update_ok_def)
  note C = Update_cases [OF assms(3) tmp]
  have last: "Open problem None (store_path s) (last ds) = Inr s'"
  proof (cases "err = None")
    case True
    then obtain st where st: "fn (store_state s) = Inr st" "s' = s\<lparr>store_state := normalize st\<rparr>"
        "list_all year_ok (state_times (normalize st))" "last ds (store_path s) = Some (Inr (State_json (normalize st)))"
      using C by auto
    show ?thesis
      using Open_written [of "last ds", OF st(4) ints [OF st(1)] st(3)] st(2) by (simp add: Store_eqI)
  next
    case False
    then have "s' = s" "last ds (store_path s) = d (store_path s)" using C last_in_set [of ds] by auto
    then show ?thesis using assms(1) Open_cong [of "last ds" "store_path s" d] by simp
  qed
  then show "d' = last ds \<Longrightarrow> Open problem None (store_path s) d' = Inr s'" by simp
  show "Open problem None (store_path s) d' = Inr s \<or> Open problem None (store_path s) d' = Inr s'"
  proof (cases "d' = last ds")
    case False
    then have "d' (store_path s) = d (store_path s)" using C assms(4) by auto
    then show ?thesis using assms(1) Open_cong [of d' "store_path s" d] by simp
  qed (use last in simp)
qed

lemma run_updates_reopens:
  assumes "Open problem None (store_path s) d = Inr s" "\<forall>u \<in> set us. update_ok (store_path s) u"
    "run_updates us s d = (s', d')"
  shows "Open problem None (store_path s) d' = Inr s' \<and> store_path s' = store_path s"
  using assms
proof (induction us arbitrary: s d)
  case (Cons u us)
  obtain fn fault tmp where u: "u = (fn, fault, tmp)" by (cases u) auto
  obtain err s1 ds where up: "Update fn fault tmp s d = (err, s1, ds)" by (cases "Update fn fault tmp s d") auto
  have ok: "update_ok (store_path s) (fn, fault, tmp)" using Cons.prems(2) u by simp
  then have tmp: "tmp \<noteq> store_path s" by (simp add: update_ok_def)
  have p: "store_path s1 = store_path s" and ds: "ds \<noteq> []" using Update_cases [OF up tmp] by auto
  have "Open problem None (store_path s1) (last ds) = Inr s1"
    using Update_reopens(2) [OF Cons.prems(1) ok up last_in_set [OF ds]] p by simp
  from Cons.IH [OF this] Cons.prems show ?case by (simp add: u up p)
qed simp

subsection \<open>Properties\<close>



text \<open>
  Property C10. Crash safety. From a store that was opened, after any number of updates in any of
  which any system call may have failed, a crash at any moment of one more update leaves a file
  system from which the next start reads either the state before that update or the state it was
  writing, never anything else; and after the update returned, exactly the state in memory.
\<close>

theorem crash_recovery:
  assumes "Open problem None path d = Inr s" "\<forall>u \<in> set us. update_ok path u"
    "run_updates us s d = (s1, d1)" "update_ok path (fn, fault, tmp)"
    "Update fn fault tmp s1 d1 = (err, s2, ds)" "d' \<in> set ds"
  shows "(Open problem None path d' = Inr s1 \<or> Open problem None path d' = Inr s2) \<and>
         Open problem None path (last ds) = Inr s2"
proof -
  have path: "store_path s = path" using assms(1) by (auto simp: Open_def split: option.splits sum.splits)
  have 1: "Open problem None (store_path s1) d1 = Inr s1" and p: "store_path s1 = path"
    using run_updates_reopens [of problem s d us s1 d1] assms(1-3) path by auto
  have ok: "update_ok (store_path s1) (fn, fault, tmp)" using assms(4) p by simp
  have "ds \<noteq> []" using assms(6) by auto
  then show ?thesis
    using Update_reopens(1) [OF 1 ok assms(5,6)] Update_reopens(2) [OF 1 ok assms(5) last_in_set] p by simp
qed

theorem crash_recovery_witness:
  "let fn = (\<lambda>_. Inr (empty_state\<lparr>ss_NextTransactionID := 1\<rparr>)); s = \<lparr>store_path = ''s'', store_state = empty_state\<rparr>;
       r = Update fn (\<lambda>_. None) ''t'' s Map.empty
   in \<forall>d' \<in> set (snd (snd r)). Open (\<lambda>e. e) None ''s'' d' = Inr s \<or> Open (\<lambda>e. e) None ''s'' d' = Inr (fst (snd r))"
proof -
  let ?fn = "\<lambda>_. Inr (empty_state\<lparr>ss_NextTransactionID := 1\<rparr>)" and ?s = "\<lparr>store_path = ''s'', store_state = empty_state\<rparr>"
  let ?r = "Update ?fn (\<lambda>_. None) ''t'' ?s Map.empty"
  have "ints_ok (empty_state\<lparr>ss_NextTransactionID := 1\<rparr>)" by code_simp
  then have ok: "update_ok ''s'' (?fn, (\<lambda>_. None), ''t'')" by (auto simp: update_ok_def)
  have "Open (\<lambda>e. e) None ''s'' Map.empty = Inr ?s" by (simp add: Open_def)
  from crash_recovery [OF this _ _ ok, of "[]" ?s Map.empty "fst ?r" "fst (snd ?r)" "snd (snd ?r)"]
  show ?thesis by (simp add: Let_def)
qed

text \<open>
  Property C23. A failed update changes nothing: when the caller's function fails, or encoding,
  or any system call up to and including the rename, the error is returned and both the state in
  memory and the state file are what they were; when it succeeds, reading gives the normal form of
  the new state. No other file than the temporary one is ever touched.
\<close>

theorem update_all_or_nothing:
  assumes "Update fn fault tmp s d = (err, s', ds)" "tmp \<noteq> store_path s"
  shows "(case err of
            None \<Rightarrow> \<exists>st. fn (Get s) = Inr st \<and> Get s' = normalize st
          | Some e \<Rightarrow> Get s' = Get s \<and> last ds (store_path s) = d (store_path s)) \<and>
         (\<forall>p. p \<notin> {tmp, store_path s} \<longrightarrow> last ds p = d p)"
proof -
  note C = Update_cases [OF assms]
  have other: "last ds p = d p" if "p \<notin> {tmp, store_path s}" for p
  proof (cases "fn (store_state s)")
    case (Inl e)
    then show ?thesis using assms(1) by (auto simp: Update_def)
  next
    case (Inr st)
    obtain err' ds' where w: "write_file fault tmp (store_path s) (normalize st) d = (err', ds')"
      by (cases "write_file fault tmp (store_path s) (normalize st) d")
    then have "ds = ds'" using assms(1) Inr by (auto simp: Update_def split: option.splits)
    then show ?thesis using write_file_last [OF w assms(2)] that by auto
  qed
  show ?thesis
  proof (cases err)
    case None
    then show ?thesis using C other by (auto simp: Get_def)
  next
    case (Some e)
    then have "s' = s" "last ds (store_path s) = d (store_path s)" using C last_in_set [of ds] by auto
    then show ?thesis using Some other by simp
  qed
qed

theorem update_all_or_nothing_witness:
  "let r = Update Inr (\<lambda>c. if c = SysRename then Some ''EXDEV'' else None) ''t''
             \<lparr>store_path = ''s'', store_state = empty_state\<rparr> [''s'' \<mapsto> Inr JNull]
   in fst r \<noteq> None \<and> Get (fst (snd r)) = empty_state \<and> last (snd (snd r)) ''s'' = Some (Inr JNull)"
proof -
  let ?s = "\<lparr>store_path = ''s'', store_state = empty_state\<rparr>"
  let ?r = "Update Inr (\<lambda>c. if c = SysRename then Some ''EXDEV'' else None) ''t'' ?s [''s'' \<mapsto> Inr JNull]"
  have "fst ?r \<noteq> None"
    by (simp add: Update_def write_file_def Let_def normalize_def state_times_def empty_state_def State_zero_def)
  then obtain e s' ds where r: "?r = (Some e, s', ds)" by (cases ?r) auto
  from update_all_or_nothing [OF r] show ?thesis by (simp add: r Let_def Get_def)
qed

text \<open>
  A state file that is not understood is never taken for an empty state: bytes that
  are no JSON, a document without a version, and one of a newer or an unsupported version are all
  refused when the store is opened, and only a missing file gives the empty state.
\<close>

theorem open_refuses_foreign_files:
  "(\<forall>e. \<exists>m. Open problem None path (d(path \<mapsto> Inl e)) = Inl m) \<and>
   (\<forall>v. v \<noteq> 1 \<longrightarrow> (\<exists>m. Open problem None path (d(path \<mapsto> Inr (JObj [(''version'', JInt v)]))) = Inl m)) \<and>
   (\<exists>m. Open problem None path (d(path \<mapsto> Inr (JObj []))) = Inl m) \<and>
   Open problem None path (d(path := None)) = Inr \<lparr>store_path = path, store_state = empty_state\<rparr>"
proof -
  have r: "resolve_field header_fields ''version'' = Some (int_ptr_field [] ''version'' (\<lambda>x. vh_Version_update (\<lambda>_. x)))"
    by (simp add: resolve_field_def header_fields_def)
  show ?thesis
    by (auto simp: Open_def parse_state_def dec_struct_def r int_ptr_field_def dec_int_def StateVersion_def)
qed

theorem open_refuses_foreign_files_witness:
  "\<exists>m. Open (\<lambda>e. e) None ''s'' [''s'' \<mapsto> Inr (JObj [(''version'', JInt 2)])] = Inl m"
  using open_refuses_foreign_files [of "\<lambda>e. e" "''s''" Map.empty] by simp

end
