(* ===== verification/State_Power.thy ===== *)
theory State_Power
  imports State_Store
begin

text \<open>
  Power cuts. \<open>State_Store\<close> shows what a crash of the process leaves; when the power fails, a rename
  that is not yet flushed may be lost too. \<open>syncDir\<close> (\<open>internal/state/syncdir_unix.go\<close> and
  \<open>syncdir_windows.go\<close>) flushes the directory after the rename, and its error is ignored.
\<close>

subsection \<open>Flushing the directory\<close>

text \<open>\<open>syncDir\<close>: the errors of opening and of flushing the directory; on Windows it does nothing.\<close>

definition syncDir_unix :: "string option \<Rightarrow> string option \<Rightarrow> string option" where
  "syncDir_unix open_err sync_err = (case open_err of Some e \<Rightarrow> Some e | None \<Rightarrow> sync_err)"

definition syncDir_windows :: "string option" where
  "syncDir_windows = None"

text \<open>The build constraint chooses between the two.\<close>

datatype platform = Unix | Windows

definition syncDir :: "platform \<Rightarrow> string option \<Rightarrow> string option \<Rightarrow> string option" where
  "syncDir os open_err sync_err = (case os of Unix \<Rightarrow> syncDir_unix open_err sync_err | Windows \<Rightarrow> syncDir_windows)"

text \<open>Whether the directory was flushed.\<close>

definition flushed :: "platform \<Rightarrow> string option \<Rightarrow> string option \<Rightarrow> bool" where
  "flushed os open_err sync_err \<longleftrightarrow> os = Unix \<and> syncDir os open_err sync_err = None"

text \<open>
  An update followed by \<open>syncDir\<close>. \<open>cands\<close> are the contents the state file may have after a power cut,
  each with the store that was current when it was put in place: the one of the last flush and
  every one renamed since then.
\<close>

type_synonym candidates = "(wire option \<times> Store) list"

definition update_synced ::
  "platform \<Rightarrow> update \<times> string option \<times> string option \<Rightarrow> Store \<times> disk \<times> candidates \<Rightarrow> Store \<times> disk \<times> candidates" where
  "update_synced os x p =
     (case (x, p) of (((fn, fault, tmp), open_err, sync_err), (s, d, cands)) \<Rightarrow>
        (case Update fn fault tmp s d of (err, s', ds) \<Rightarrow>
           (let now = (last ds (store_path s), s')
            in (s', last ds,
                if err \<noteq> None then cands
                else if flushed os open_err sync_err then [now] else cands @ [now]))))"

fun run_synced ::
  "platform \<Rightarrow> (update \<times> string option \<times> string option) list \<Rightarrow> Store \<times> disk \<times> candidates \<Rightarrow> Store \<times> disk \<times> candidates" where
  "run_synced os [] p = p"
| "run_synced os (x # xs) p = run_synced os xs (update_synced os x p)"

subsection \<open>Every candidate is a state the store had\<close>

definition power_inv :: "(string \<Rightarrow> string) \<Rightarrow> string \<Rightarrow> Store \<times> disk \<times> candidates \<Rightarrow> bool" where
  "power_inv problem path p \<longleftrightarrow>
     (case p of (s, d, cands) \<Rightarrow>
        store_path s = path \<and> Open problem None path d = Inr s \<and> cands \<noteq> [] \<and> last cands = (d path, s) \<and>
        (\<forall>(c, st) \<in> set cands. Open problem None path (d(path := c)) = Inr st))"

lemma Open_at: "Open problem e path (d(path := c)) = Open problem e path (d'(path := c))"
  by (rule Open_cong) simp

lemma power_inv_update:
  assumes "power_inv problem path (s, d, cands)" "update_ok path (fn, fault, tmp)"
  shows "power_inv problem path (update_synced os ((fn, fault, tmp), oe, se) (s, d, cands))"
proof -
  obtain err s' ds where u: "Update fn fault tmp s d = (err, s', ds)" by (cases "Update fn fault tmp s d")
  have p: "store_path s = path" "Open problem None path d = Inr s" "cands \<noteq> []" "last cands = (d path, s)"
      "\<forall>(c, st) \<in> set cands. Open problem None path (d(path := c)) = Inr st"
    using assms(1) by (simp_all add: power_inv_def)
  have tmp: "tmp \<noteq> store_path s" using assms(2) p(1) by (simp add: update_ok_def)
  note C = Update_cases [OF u tmp]
  have ds: "ds \<noteq> []" "store_path s' = path" using C p(1) by simp_all
  have new: "Open problem None path (last ds) = Inr s'"
    using Update_reopens(2) [of problem s d fn fault tmp err s' ds "last ds"] p(1,2) assms(2) u ds(1) by simp
  have old: "\<forall>(c, st) \<in> set cands. Open problem None path ((last ds)(path := c)) = Inr st"
    using p(5) Open_at [of problem None path d _ "last ds"] by (metis (no_types, lifting) case_prodD case_prodI2)
  have cur: "Open problem None path ((last ds)(path := last ds path)) = Inr s'" using new by simp
  show ?thesis
  proof (cases err)
    case None
    then show ?thesis
      using p(1) ds new old cur by (simp add: power_inv_def update_synced_def u Let_def)
  next
    case (Some e)
    then have "s' = s" "last ds path = d path" using C p(1) last_in_set [OF ds(1)] by auto
    then show ?thesis
      using Some p ds new old by (simp add: power_inv_def update_synced_def u Let_def)
  qed
qed

lemma power_inv_run:
  "power_inv problem path p \<Longrightarrow> \<forall>(u, _) \<in> set xs. update_ok path u \<Longrightarrow> power_inv problem path (run_synced os xs p)"
proof (induction xs arbitrary: p)
  case (Cons x xs)
  obtain fn fault tmp oe se s d cands where x: "x = ((fn, fault, tmp), oe, se)" "p = (s, d, cands)"
    by (metis prod_cases3 prod.collapse)
  have "power_inv problem path (update_synced os x p)"
    unfolding x using Cons.prems by (intro power_inv_update) (auto simp: x)
  then show ?case using Cons.IH Cons.prems(2) by simp
qed simp



end
