(* ===== verification/Simulator_Run.thy ===== *)
theory Simulator_Run
  imports Simulator
begin

text \<open>
  What the simulated station does by itself (\<open>internal/simulator\<close>): booting, reporting statuses,
  heartbeats, sessions, and the side effects of commands that \<open>after\<close> starts. The connection's
  \<open>Call\<close> is the argument \<open>call\<close>; it acts on the station and the world beyond it, so that a call
  may return in a different state of the station: while the station waits for the answer, its
  lock is free and other commands are served. The clock is \<open>now\<close>, a reading of the world.
\<close>

subsection \<open>Errors\<close>

text \<open>An error text, with the error it wraps if it wraps one.\<close>

datatype sim_error = SimErr string "go_error option"

definition decodeInto :: "string \<Rightarrow> (string \<Rightarrow> 'r field list) \<Rightarrow> 'r \<Rightarrow> json option \<Rightarrow> string + 'r" where
  "decodeInto ty fs zero payload =
     (case payload of None \<Rightarrow> Inr zero | Some j \<Rightarrow> dec_struct [] (''v16.'' @ ty) (fs ty) zero j)"

subsection \<open>Reporting\<close>

definition sendStatus ::
  "(Simulator \<times> 'w) caller \<Rightarrow> ('w \<Rightarrow> go_time) \<Rightarrow> int \<Rightarrow> string \<Rightarrow> Simulator \<times> 'w \<Rightarrow>
   sim_error option \<times> Simulator \<times> 'w" where
  "sendStatus call now n status x =
     (case call ActionStatusNotification
             (AnyJson (StatusNotificationReq_json
                \<lparr>snr_ConnectorID = n, snr_ErrorCode = ''NoError'', snr_Status = status, snr_Info = [],
                 snr_Timestamp = format_rfc3339 False (utc (now (snd x))), snr_VendorID = [],
                 snr_VendorErrorCode = []\<rparr>)) x of
        (Inl e, x') \<Rightarrow> (Some (SimErr (''simulator: StatusNotification('' @ itoa n @ '')'') (Some e)), x')
      | (Inr body, x') \<Rightarrow> (None, x'))"

definition SetConnectorStatus_sim ::
  "(Simulator \<times> 'w) caller \<Rightarrow> ('w \<Rightarrow> go_time) \<Rightarrow> int \<Rightarrow> string \<Rightarrow> Simulator \<times> 'w \<Rightarrow>
   sim_error option \<times> Simulator \<times> 'w" where
  "SetConnectorStatus_sim call now n status x =
     (case x of (s, w) \<Rightarrow>
        if n = 0 then sendStatus call now 0 status (s\<lparr>station := status\<rparr>, w)
        else (case connectors s n of
                None \<Rightarrow> (Some (SimErr (''simulator: no connector '' @ itoa n) None), (s, w))
              | Some c \<Rightarrow> sendStatus call now n status (put_connector n (c\<lparr>c_status := status\<rparr>) s, w)))"

definition boot :: "(Simulator \<times> 'w) caller \<Rightarrow> Simulator \<times> 'w \<Rightarrow> sim_error option \<times> Simulator \<times> 'w" where
  "boot call x =
     (let r = opts (fst x) in
      case call ActionBootNotification
             (AnyJson (BootNotificationReq_json
                (BootNotificationReq_zero
                   \<lparr>bnr_ChargePointVendor := so_Vendor r, bnr_ChargePointModel := so_Model r,
                    bnr_ChargePointSerialNumber := so_SerialNumber r, bnr_FirmwareVersion := so_Firmware r\<rparr>))) x of
        (Inl e, x') \<Rightarrow> (Some (SimErr ''simulator: BootNotification'' (Some e)), x')
      | (Inr body, (s, w)) \<Rightarrow>
          (case decodeInto ''BootNotificationConf'' BootNotificationConf_fields BootNotificationConf_zero body of
             Inl e \<Rightarrow> (Some (SimErr ''simulator: BootNotification response'' (Some (EOther e))), (s, w))
           | Inr conf \<Rightarrow>
               if bnc_Status conf \<noteq> ''Accepted''
               then (Some (SimErr (''simulator: csms answered BootNotification with '' @ go_quote (bnc_Status conf)) None), (s, w))
               else (None, (if bnc_Interval conf > 0
                            then s\<lparr>heartbeat_ns := wrap64 (bnc_Interval conf * second)\<rparr> else s, w))))"

text \<open>The loop of \<open>reportInitialStatus\<close> over the connectors; the first failure ends it.\<close>

fun report_connectors ::
  "(Simulator \<times> 'w) caller \<Rightarrow> ('w \<Rightarrow> go_time) \<Rightarrow> int list \<Rightarrow> Simulator \<times> 'w \<Rightarrow>
   sim_error option \<times> Simulator \<times> 'w" where
  "report_connectors call now [] x = (None, x)"
| "report_connectors call now (i # is) x =
     (case sendStatus call now i (ConnectorStatus (fst x) i) x of
        (Some e, x') \<Rightarrow> (Some e, x')
      | (None, x') \<Rightarrow> report_connectors call now is x')"

definition reportInitialStatus ::
  "(Simulator \<times> 'w) caller \<Rightarrow> ('w \<Rightarrow> go_time) \<Rightarrow> Simulator \<times> 'w \<Rightarrow> sim_error option \<times> Simulator \<times> 'w" where
  "reportInitialStatus call now x =
     (case sendStatus call now 0 (station (fst x)) x of
        (Some e, x') \<Rightarrow> (Some e, x')
      | (None, x') \<Rightarrow> report_connectors call now [1..so_Connectors (opts (fst x))] x')"

definition Close_sim :: "Simulator \<Rightarrow> Simulator" where
  "Close_sim s = s\<lparr>closed := True\<rparr>"

text \<open>\<open>Connect\<close> once the WebSocket is open: boot, then report every status; a failure closes.\<close>

definition Connect_opened ::
  "(Simulator \<times> 'w) caller \<Rightarrow> ('w \<Rightarrow> go_time) \<Rightarrow> Simulator \<times> 'w \<Rightarrow> sim_error option \<times> Simulator \<times> 'w" where
  "Connect_opened call now x =
     (case boot call x of
        (Some e, (s, w)) \<Rightarrow> (Some e, (Close_sim s, w))
      | (None, x') \<Rightarrow>
          (case reportInitialStatus call now x' of
             (Some e, (s, w)) \<Rightarrow> (Some e, (Close_sim s, w))
           | (None, x'') \<Rightarrow> (None, x'')))"

text \<open>
  The heartbeat loop. \<open>timer x\<close> says whether the timer fires first or the station is closed or
  cancelled first. The loop ends when it is told to or when a heartbeat fails, so it may run
  forever, and then its value is \<open>None\<close>.
\<close>

partial_function (option) heartbeat_rounds ::
  "(Simulator \<times> 'w) caller \<Rightarrow> (Simulator \<times> 'w \<Rightarrow> bool) \<Rightarrow> Simulator \<times> 'w \<Rightarrow> (Simulator \<times> 'w) option" where
  "heartbeat_rounds call timer x =
     (if \<not> timer x then Some x
      else (case call ActionHeartbeat (AnyJson (JObj [])) x of
              (Inl e, x') \<Rightarrow> Some x'
            | (Inr body, x') \<Rightarrow> heartbeat_rounds call timer x'))"

definition heartbeatLoop ::
  "(Simulator \<times> 'w) caller \<Rightarrow> (Simulator \<times> 'w \<Rightarrow> bool) \<Rightarrow> Simulator \<times> 'w \<Rightarrow> (Simulator \<times> 'w) option" where
  "heartbeatLoop call timer x =
     (if so_Scenario (opts (fst x)) = ScenarioSilent then Some x else heartbeat_rounds call timer x)"

subsection \<open>Sessions\<close>

definition startTransaction_sim ::
  "(Simulator \<times> 'w) caller \<Rightarrow> ('w \<Rightarrow> go_time) \<Rightarrow> int \<Rightarrow> string \<Rightarrow> Simulator \<times> 'w \<Rightarrow>
   sim_error option \<times> Simulator \<times> 'w" where
  "startTransaction_sim call now n idTag x =
     (let tag = (if idTag = [] then so_IDTag (opts (fst x)) else idTag) in
      case connectors (fst x) n of
        None \<Rightarrow> (Some (SimErr (''no connector '' @ itoa n) None), x)
      | Some c \<Rightarrow>
          (case SetConnectorStatus_sim call now n ''Preparing'' x of
             (Some e, x1) \<Rightarrow> (Some e, x1)
           | (None, x1) \<Rightarrow>
               (case call ActionStartTransaction
                       (AnyJson (StartTransactionReq_json
                          \<lparr>str_ConnectorID = n, str_IDTag = tag, str_MeterStart = c_meter c,
                           str_Timestamp = format_rfc3339 False (utc (now (snd x1))), str_ReservationID = None\<rparr>)) x1 of
                  (Inl e, x2) \<Rightarrow> (Some (SimErr ''StartTransaction'' (Some e)), x2)
                | (Inr body, (s2, w2)) \<Rightarrow>
                    (case decodeInto ''StartTransactionConf'' StartTransactionConf_fields StartTransactionConf_zero body of
                       Inl e \<Rightarrow> (Some (SimErr ''StartTransaction response'' (Some (EOther e))), (s2, w2))
                     | Inr conf \<Rightarrow>
                         if iti_Status (stc_IDTagInfo conf) \<noteq> AuthAccepted
                         then SetConnectorStatus_sim call now n ''Available'' (s2, w2)
                         else SetConnectorStatus_sim call now n ''Charging''
                                (case connectors s2 n of
                                   None \<Rightarrow> (s2, w2)
                                 | Some c2 \<Rightarrow>
                                     (put_connector n (c2\<lparr>c_transactionID := stc_TransactionID conf,
                                                         c_reservationID := 0\<rparr>) s2, w2))))))"

definition stopTransaction_sim ::
  "(Simulator \<times> 'w) caller \<Rightarrow> ('w \<Rightarrow> go_time) \<Rightarrow> int \<Rightarrow> string \<Rightarrow> Simulator \<times> 'w \<Rightarrow>
   sim_error option \<times> Simulator \<times> 'w" where
  "stopTransaction_sim call now n reason x =
     (case x of (s, w) \<Rightarrow>
        let no_tx = (Some (SimErr (''no transaction on connector '' @ itoa n) None), x) in
        case connectors s n of
          None \<Rightarrow> no_tx
        | Some c \<Rightarrow>
            if c_transactionID c = 0 then no_tx
            else
              let meterStop = wrap64 (c_meter c + 1000);
                  s1 = put_connector n (c\<lparr>c_meter := meterStop, c_transactionID := 0\<rparr>) s in
              (case call ActionStopTransaction
                      (AnyJson (StopTransactionReq_json
                         \<lparr>spr_TransactionID = c_transactionID c, spr_MeterStop = meterStop,
                          spr_Timestamp = format_rfc3339 False (utc (now w)), spr_IDTag = [],
                          spr_Reason = reason\<rparr>)) (s1, w) of
                 (Inl e, x2) \<Rightarrow> (Some (SimErr ''StopTransaction'' (Some e)), x2)
               | (Inr body, x2) \<Rightarrow>
                   (case SetConnectorStatus_sim call now n ''Finishing'' x2 of
                      (Some e, x3) \<Rightarrow> (Some e, x3)
                    | (None, x3) \<Rightarrow> SetConnectorStatus_sim call now n ''Available'' x3)))"

definition StartTransaction_sim ::
  "(Simulator \<times> 'w) caller \<Rightarrow> ('w \<Rightarrow> go_time) \<Rightarrow> int \<Rightarrow> Simulator \<times> 'w \<Rightarrow> sim_error option \<times> Simulator \<times> 'w" where
  "StartTransaction_sim call now n x = startTransaction_sim call now n (so_IDTag (opts (fst x))) x"

definition StopTransaction_sim ::
  "(Simulator \<times> 'w) caller \<Rightarrow> ('w \<Rightarrow> go_time) \<Rightarrow> int \<Rightarrow> Simulator \<times> 'w \<Rightarrow> sim_error option \<times> Simulator \<times> 'w" where
  "StopTransaction_sim call now n x = stopTransaction_sim call now n ''Local'' x"

subsection \<open>Side effects of commands\<close>

definition run_deferred ::
  "(Simulator \<times> 'w) caller \<Rightarrow> ('w \<Rightarrow> go_time) \<Rightarrow> deferred \<Rightarrow> Simulator \<times> 'w \<Rightarrow> Simulator \<times> 'w" where
  "run_deferred call now d x =
     (case d of
        SendStatus n st \<Rightarrow> snd (sendStatus call now n st x)
      | StartTx n tag \<Rightarrow> snd (startTransaction_sim call now n tag x)
      | StopTx n \<Rightarrow> snd (stopTransaction_sim call now n ''Remote'' x)
      | BootAgain \<Rightarrow> snd (boot call x)
      | HeartbeatNow \<Rightarrow> snd (call ActionHeartbeat (AnyJson (JObj [])) x)
      | SetStatus n st \<Rightarrow> snd (SetConnectorStatus_sim call now n st x))"

text \<open>
  The goroutine \<open>after\<close> started for entry \<open>i\<close>: it waits for the settle time or for \<open>done\<close>. When
  both are ready Go picks either, which \<open>fired\<close> decides.
\<close>

definition run_goroutine ::
  "(Simulator \<times> 'w) caller \<Rightarrow> ('w \<Rightarrow> go_time) \<Rightarrow> nat \<Rightarrow> bool \<Rightarrow> Simulator \<times> 'w \<Rightarrow> Simulator \<times> 'w" where
  "run_goroutine call now i fired x =
     (case x of (s, w) \<Rightarrow>
        if i < length (goroutines s)
        then (let s' = s\<lparr>goroutines := take i (goroutines s) @ drop (Suc i) (goroutines s)\<rparr> in
              if closed s \<and> \<not> fired then (s', w) else run_deferred call now (goroutines s ! i) (s', w))
        else (s, w))"

subsection \<open>When the heartbeat loop ends\<close>

text \<open>One heartbeat, and the condition under which the loop stops at a state.\<close>

definition heartbeat_once :: "(Simulator \<times> 'w) caller \<Rightarrow> Simulator \<times> 'w \<Rightarrow> Simulator \<times> 'w" where
  "heartbeat_once call x = snd (call ActionHeartbeat (AnyJson (JObj [])) x)"

definition loop_stops :: "(Simulator \<times> 'w) caller \<Rightarrow> (Simulator \<times> 'w \<Rightarrow> bool) \<Rightarrow> Simulator \<times> 'w \<Rightarrow> bool" where
  "loop_stops call timer x \<longleftrightarrow> \<not> timer x \<or> isl (fst (call ActionHeartbeat (AnyJson (JObj [])) x))"

lemma heartbeat_rounds_stop:
  "loop_stops call timer x \<Longrightarrow>
   heartbeat_rounds call timer x = Some (if timer x then heartbeat_once call x else x)"
  by (subst heartbeat_rounds.simps)
    (auto simp: loop_stops_def heartbeat_once_def isl_def split: prod.split sum.split)

lemma heartbeat_rounds_go:
  "\<not> loop_stops call timer x \<Longrightarrow>
   heartbeat_rounds call timer x = heartbeat_rounds call timer (heartbeat_once call x)"
  by (subst heartbeat_rounds.simps)
    (auto simp: loop_stops_def heartbeat_once_def isl_def split: prod.split sum.split)

lemma heartbeat_rounds_ends:
  "loop_stops call timer ((heartbeat_once call ^^ n) x) \<Longrightarrow> \<exists>y. heartbeat_rounds call timer x = Some y"
proof (induction n arbitrary: x)
  case 0
  then show ?case using heartbeat_rounds_stop [of call timer x] by simp
next
  case (Suc n)
  then have "\<exists>y. heartbeat_rounds call timer (heartbeat_once call x) = Some y"
    by (simp add: funpow_swap1)
  then show ?case
    using heartbeat_rounds_go [of call timer x] heartbeat_rounds_stop [of call timer x] by (cases "loop_stops call timer x") auto
qed

text \<open>The induction rule of the loop, over its three arguments.\<close>

lemmas heartbeat_rounds_induct =
  heartbeat_rounds.raw_induct [where xa = "((call, timer), x)" for call timer x, unfolded prod.case]

lemma heartbeat_rounds_ended:
  assumes "heartbeat_rounds call timer x = Some y"
  shows "\<exists>n. loop_stops call timer ((heartbeat_once call ^^ n) x)"
  using _ assms
proof (rule heartbeat_rounds_induct [of "\<lambda>call timer x y. \<exists>n. loop_stops call timer ((heartbeat_once call ^^ n) x)"])
  fix rounds :: "(Simulator \<times> 'w) caller \<Rightarrow> (Simulator \<times> 'w \<Rightarrow> bool) \<Rightarrow> Simulator \<times> 'w \<Rightarrow> (Simulator \<times> 'w) option"
    and call :: "(Simulator \<times> 'w) caller" and timer x y
  assume IH: "\<And>call timer x y. rounds call timer x = Some y \<Longrightarrow> \<exists>n. loop_stops call timer ((heartbeat_once call ^^ n) x)"
    and body: "(if \<not> timer x then Some x
        else case call ActionHeartbeat (AnyJson (JObj [])) x of
               (Inl e, x') \<Rightarrow> Some x' | (Inr body, x') \<Rightarrow> rounds call timer x') = Some y"
  show "\<exists>n. loop_stops call timer ((heartbeat_once call ^^ n) x)"
  proof (cases "loop_stops call timer x")
    case True
    then show ?thesis by (intro exI [of _ 0]) simp
  next
    case False
    then have "rounds call timer (heartbeat_once call x) = Some y"
      using body by (auto simp: loop_stops_def heartbeat_once_def isl_def split: prod.splits sum.splits)
    from IH [OF this] obtain n where "loop_stops call timer ((heartbeat_once call ^^ n) (heartbeat_once call x))" ..
    then show ?thesis by (intro exI [of _ "Suc n"]) (simp add: funpow_swap1)
  qed
qed

end
