(* ===== verification/Station.thy ===== *)
theory Station
  imports Simulator_Run
begin

text \<open>
  The simulated station and the CSMS together. The station's calls are answered by the 1.6
  handler over the domain core, and the CSMS's commands by the station. The contract of the
  station's connection is the locale \<open>session_link\<close>: what a call may change while the station
  waits, and what a started or stopped transaction means at the other side. Under it the two
  sides agree on the running sessions, whatever happens in between.
\<close>

subsection \<open>The contract of the station's connection\<close>

text \<open>
  \<open>runs w k\<close> is the connector on which transaction \<open>k\<close> runs at the CSMS, \<open>room\<close> says that
  the CSMS can still give out a fresh transaction id.
\<close>

locale session_link =
  fixes call :: "(Simulator \<times> 'w) caller"
    and runs :: "'w \<Rightarrow> int \<rightharpoonup> int"
    and winv :: "'w \<Rightarrow> bool"
    and room :: "'w \<Rightarrow> bool"
  assumes link_sessions: "call a p (s, w) = (r, (s', w')) \<Longrightarrow> same_sessions s s'"
    and link_station: "call a p (s, w) = (r, (s', w')) \<Longrightarrow> sim_inv s \<Longrightarrow> sim_inv s'"
    and link_winv: "call a p (s, w) = (r, (s', w')) \<Longrightarrow> winv w \<Longrightarrow>
      (a = ActionStartTransaction \<Longrightarrow> room w) \<Longrightarrow> winv w'"
    and link_room: "call a p (s, w) = (r, (s', w')) \<Longrightarrow> winv w \<Longrightarrow> room w \<Longrightarrow>
      a \<noteq> ActionStartTransaction \<Longrightarrow> room w'"
    and link_keeps: "call a p (s, w) = (r, (s', w')) \<Longrightarrow> winv w \<Longrightarrow>
      (a = ActionStartTransaction \<Longrightarrow> room w) \<Longrightarrow> a \<noteq> ActionStopTransaction \<Longrightarrow> runs w k = Some n \<Longrightarrow> runs w' k = Some n"
    and link_stop: "call ActionStopTransaction (AnyJson (StopTransactionReq_json q)) (s, w) = (r, (s', w')) \<Longrightarrow>
      winv w \<Longrightarrow> StopTransactionReq_ok q \<Longrightarrow> k \<noteq> spr_TransactionID q \<Longrightarrow>
      runs w k = Some n \<Longrightarrow> runs w' k = Some n"
    and link_start: "call ActionStartTransaction (AnyJson (StartTransactionReq_json q')) (s, w) = (Inr body, (s', w')) \<Longrightarrow>
      winv w \<Longrightarrow> room w \<Longrightarrow> StartTransactionReq_ok q' \<Longrightarrow>
      decodeInto ''StartTransactionConf'' StartTransactionConf_fields StartTransactionConf_zero body = Inr conf \<Longrightarrow>
      iti_Status (stc_IDTagInfo conf) = AuthAccepted \<Longrightarrow>
      runs w' (stc_TransactionID conf) = Some (str_ConnectorID q') \<and> in_int64 (stc_TransactionID conf)"
begin

definition agree :: "Simulator \<times> 'w \<Rightarrow> bool" where
  "agree x \<longleftrightarrow> sim_inv (fst x) \<and> winv (snd x) \<and>
     (\<forall>n c. connectors (fst x) n = Some c \<longrightarrow> c_transactionID c \<noteq> 0 \<longrightarrow>
            runs (snd x) (c_transactionID c) = Some n)"

lemma agreeI:
  "sim_inv s \<Longrightarrow> winv w \<Longrightarrow>
   (\<And>n c. connectors s n = Some c \<Longrightarrow> c_transactionID c \<noteq> 0 \<Longrightarrow> runs w (c_transactionID c) = Some n) \<Longrightarrow>
   agree (s, w)"
  by (simp add: agree_def)

lemma agreeD:
  "agree (s, w) \<Longrightarrow> sim_inv s" "agree (s, w) \<Longrightarrow> winv w"
  "agree (s, w) \<Longrightarrow> connectors s n = Some c \<Longrightarrow> c_transactionID c \<noteq> 0 \<Longrightarrow> runs w (c_transactionID c) = Some n"
  by (simp_all add: agree_def)

lemma same_sessions_tx:
  "same_sessions s s' \<Longrightarrow> connectors s' n = Some c' \<Longrightarrow>
   \<exists>c. connectors s n = Some c \<and> c_transactionID c = c_transactionID c' \<and> c_meter c = c_meter c'"
  unfolding same_sessions_def by (drule spec [of _ n]) (cases "connectors s n"; simp)

lemma agree_sessions:
  assumes "agree (s, w)" "same_sessions s s'" "sim_inv s'"
  shows "agree (s', w)"
  using assms agreeD [OF assms(1)] by (fastforce intro!: agreeI dest: same_sessions_tx)

lemma agree_call:
  assumes "call a p (s, w) = (r, (s', w'))" "agree (s, w)" "a = ActionStartTransaction \<Longrightarrow> room w"
    "a \<noteq> ActionStopTransaction"
  shows "agree (s', w')"
proof (rule agreeI)
  show "sim_inv s'" using link_station assms agreeD by blast
  show "winv w'" using link_winv assms agreeD by blast
  fix n c assume "connectors s' n = Some c" "c_transactionID c \<noteq> 0"
  then show "runs w' (c_transactionID c) = Some n"
    using same_sessions_tx [OF link_sessions [OF assms(1)]] agreeD [OF assms(2)]
      link_keeps [OF assms(1) _ _ assms(4)] assms(3) by metis
qed

lemma sim_inv_status:
  "sim_inv s \<Longrightarrow> connectors s n = Some c \<Longrightarrow> sim_inv (put_connector n (c\<lparr>c_status := st\<rparr>) s)"
  using sim_inv_put [of s n c] sim_inv_connector [of s n c] by (simp add: connector_ok_def)

lemma agree_status:
  "agree (s, w) \<Longrightarrow> connectors s n = Some c \<Longrightarrow> agree (put_connector n (c\<lparr>c_status := st\<rparr>) s, w)"
  by (rule agree_sessions) (auto intro: same_sessions_put sim_inv_status agreeD)

lemma agree_station: "agree (s, w) \<Longrightarrow> agree (s\<lparr>station := st\<rparr>, w)"
  using agree_sessions [of s w "s\<lparr>station := st\<rparr>"] agreeD(1) [of s w] by (simp add: same_sessions_def sim_inv_def)

text \<open>\<open>good b\<close>: the two sides agree, and with \<open>b\<close> there is room for one more session.\<close>

definition good :: "bool \<Rightarrow> Simulator \<times> 'w \<Rightarrow> bool" where
  "good b x \<longleftrightarrow> agree x \<and> (b \<longrightarrow> room (snd x))"

lemma good_call:
  assumes "call a p x = (r, x')" "good b x" "a \<noteq> ActionStopTransaction" "a \<noteq> ActionStartTransaction"
  shows "good b x'"
proof -
  obtain s w s' w' where x: "x = (s, w)" "x' = (s', w')" by (cases x, cases x') auto
  show ?thesis
    using assms agree_call [of a p s w r s' w'] link_room [of a p s w r s' w'] agreeD(2) [of s w]
    by (simp add: good_def x)
qed

lemma good_sendStatus: "good b x \<Longrightarrow> sendStatus call now n st x = (e, x') \<Longrightarrow> good b x'"
  by (auto simp: sendStatus_def action_defs split: prod.splits sum.splits intro: good_call)

lemma good_SetConnectorStatus:
  "good b x \<Longrightarrow> SetConnectorStatus_sim call now n st x = (e, x') \<Longrightarrow> good b x'"
proof -
  assume g: "good b x" and e: "SetConnectorStatus_sim call now n st x = (e, x')"
  obtain s w where x: "x = (s, w)" by (cases x)
  have st: "good b (s\<lparr>station := st\<rparr>, w)"
    and cn: "connectors s n = Some c \<Longrightarrow> good b (put_connector n (c\<lparr>c_status := st\<rparr>) s, w)" for c
    using g agree_station [of s w st] agree_status [of s w n c st] by (simp_all add: good_def x)
  show ?thesis
    using e g st cn by (auto simp: SetConnectorStatus_sim_def x split: if_splits option.splits dest: good_sendStatus)
qed

lemma agree_heartbeat: "agree (s, w) \<Longrightarrow> agree (s\<lparr>heartbeat_ns := h\<rparr>, w)"
  using agree_sessions [of s w "s\<lparr>heartbeat_ns := h\<rparr>"] agreeD(1) [of s w] by (simp add: same_sessions_def sim_inv_def)

lemma good_boot: "good b x \<Longrightarrow> boot call x = (e, x') \<Longrightarrow> good b x'"
  by (auto simp: boot_def Let_def split: prod.splits sum.splits if_splits dest!: good_call)
    (auto simp: good_def action_defs intro: agree_heartbeat)

lemma good_report: "good b x \<Longrightarrow> report_connectors call now is x = (e, x') \<Longrightarrow> good b x'"
  by (induction "is" arbitrary: x) (auto split: prod.splits option.splits dest: good_sendStatus)

lemma good_reportInitialStatus: "good b x \<Longrightarrow> reportInitialStatus call now x = (e, x') \<Longrightarrow> good b x'"
  by (auto simp: reportInitialStatus_def split: prod.splits option.splits dest: good_sendStatus good_report)

lemma agree_goroutines: "agree (s\<lparr>goroutines := gs\<rparr>, w) = agree (s, w)"
  by (simp add: agree_def sim_inv_def)

lemma agree_Close: "agree (s, w) \<Longrightarrow> agree (Close_sim s, w)"
  by (simp add: agree_def sim_inv_def Close_sim_def)

subsection \<open>Sessions\<close>

lemma good_agree: "good b x \<Longrightarrow> agree x" "agree x \<Longrightarrow> good False x"
  by (simp_all add: good_def)

lemma agree_SetConnectorStatus:
  "agree x \<Longrightarrow> SetConnectorStatus_sim call now n st x = (e, x') \<Longrightarrow> agree x'"
  using good_SetConnectorStatus [of False x now n st e x'] by (simp add: good_def)

lemma StartTransactionReq_station:
  "sim_inv s \<Longrightarrow> connectors s n = Some c \<Longrightarrow>
   StartTransactionReq_ok \<lparr>str_ConnectorID = n, str_IDTag = tag, str_MeterStart = c_meter c,
      str_Timestamp = t, str_ReservationID = None\<rparr>"
proof -
  assume i: "sim_inv s" and c: "connectors s n = Some c"
  have "n \<in> {1..so_Connectors (opts s)}" using i c by (auto simp: sim_inv_def)
  then have "in_int64 n" using i by (auto simp: sim_inv_def in_int64_def int64_min_def)
  then show ?thesis using sim_inv_connector [OF i c] by (simp add: StartTransactionReq_ok_def connector_ok_def)
qed

lemma agree_started:
  assumes "agree (s, w)" "connectors s n = Some c" "runs w k = Some n" "in_int64 k"
  shows "agree (put_connector n (c\<lparr>c_transactionID := k, c_reservationID := 0\<rparr>) s, w)"
proof (rule agreeI)
  show "sim_inv (put_connector n (c\<lparr>c_transactionID := k, c_reservationID := 0\<rparr>) s)"
    using sim_inv_put [OF agreeD(1) [OF assms(1)] assms(2)] sim_inv_connector [OF agreeD(1) [OF assms(1)] assms(2)]
      assms(4) by (simp add: connector_ok_def)
qed (use assms in \<open>auto dest: agreeD split: if_splits\<close>)

lemma agree_stopped:
  assumes "agree (s, w)" "connectors s n = Some c" "c_transactionID c \<noteq> 0"
    "call ActionStopTransaction (AnyJson (StopTransactionReq_json q))
       (put_connector n (c\<lparr>c_meter := m, c_transactionID := 0\<rparr>) s, w) = (r, (s', w'))"
    "spr_TransactionID q = c_transactionID c" "StopTransactionReq_ok q" "in_int64 m"
  shows "agree (s', w')"
proof (rule agreeI)
  let ?s = "put_connector n (c\<lparr>c_meter := m, c_transactionID := 0\<rparr>) s"
  have si: "sim_inv ?s"
    using sim_inv_put [OF agreeD(1) [OF assms(1)] assms(2)] assms(7) by (simp add: connector_ok_def)
  then show "sim_inv s'" using link_station [OF assms(4)] by blast
  have w: "winv w" by (rule agreeD(2) [OF assms(1)])
  then show "winv w'" using link_winv [OF assms(4)] by (simp add: action_defs)
  fix n' c' assume c': "connectors s' n' = Some c'" "c_transactionID c' \<noteq> 0"
  then obtain c0 where c0: "connectors ?s n' = Some c0" "c_transactionID c0 = c_transactionID c'"
    using same_sessions_tx [OF link_sessions [OF assms(4)]] by metis
  then have n: "n' \<noteq> n" and r': "runs w (c_transactionID c') = Some n'"
    using c'(2) agreeD(3) [OF assms(1), of n' c0] by (auto split: if_splits)
  moreover have "runs w (c_transactionID c) = Some n" by (rule agreeD(3) [OF assms(1-3)])
  ultimately have "c_transactionID c' \<noteq> spr_TransactionID q" using assms(5) by auto
  then show "runs w' (c_transactionID c') = Some n'"
    using link_stop [OF assms(4) w assms(6)] r' by blast
qed

lemma agree_startTransaction:
  assumes "good True x" "startTransaction_sim call now n tag x = (e, x')"
  shows "agree x'"
proof (cases "connectors (fst x) n")
  case None
  then show ?thesis using assms by (simp add: startTransaction_sim_def good_def)
next
  case (Some c)
  define tag' where "tag' = (if tag = [] then so_IDTag (opts (fst x)) else tag)"
  obtain e1 s1 w1 where p: "SetConnectorStatus_sim call now n ''Preparing'' x = (e1, (s1, w1))"
    by (metis surj_pair)
  have g1: "good True (s1, w1)" by (rule good_SetConnectorStatus [OF assms(1) p])
  define q where "q = \<lparr>str_ConnectorID = n, str_IDTag = tag', str_MeterStart = c_meter c,
    str_Timestamp = format_rfc3339 False (utc (now w1)), str_ReservationID = None\<rparr>"
  have q: "StartTransactionReq_ok q"
    unfolding q_def using StartTransactionReq_station Some assms(1) by (cases x) (auto simp: good_def dest: agreeD)
  obtain r s2 w2 where k: "call ActionStartTransaction (AnyJson (StartTransactionReq_json q)) (s1, w1) = (r, (s2, w2))"
    by (metis surj_pair)
  have a2: "agree (s2, w2)" using agree_call [OF k] g1 by (simp add: good_def action_defs)
  have conf: "runs w2 (stc_TransactionID conf) = Some n \<and> in_int64 (stc_TransactionID conf)"
    if "r = Inr body" "decodeInto ''StartTransactionConf'' StartTransactionConf_fields StartTransactionConf_zero body = Inr conf"
      "iti_Status (stc_IDTagInfo conf) = AuthAccepted" for body conf
    using link_start [OF k [unfolded that(1)] _ _ q that(2,3)] g1 agreeD(2) [of s1 w1]
    by (simp add: good_def q_def)
  have st: "agree (case connectors s2 n of None \<Rightarrow> (s2, w2)
      | Some c2 \<Rightarrow> (put_connector n (c2\<lparr>c_transactionID := stc_TransactionID conf, c_reservationID := 0\<rparr>) s2, w2))"
    if "r = Inr body" "decodeInto ''StartTransactionConf'' StartTransactionConf_fields StartTransactionConf_zero body = Inr conf"
      "iti_Status (stc_IDTagInfo conf) = AuthAccepted" for body conf
    using conf [OF that] a2 agree_started [of s2 w2 n] by (simp split: option.split)
  show ?thesis
    using assms(2) Some p k good_agree(1) [OF g1] a2 st
    by (auto simp: startTransaction_sim_def Let_def tag'_def [symmetric] q_def [symmetric]
        split: option.splits sum.splits if_splits dest: agree_SetConnectorStatus)
qed

lemma agree_stopTransaction:
  assumes "agree x" "stopTransaction_sim call now n reason x = (e, x')"
  shows "agree x'"
proof -
  obtain s w where x: "x = (s, w)" by (cases x)
  show ?thesis
  proof (cases "connectors s n")
    case None
    then show ?thesis using assms by (simp add: stopTransaction_sim_def x)
  next
    case (Some c)
    let ?m = "wrap64 (c_meter c + 1000)"
    define q where "q = \<lparr>spr_TransactionID = c_transactionID c, spr_MeterStop = ?m,
      spr_Timestamp = format_rfc3339 False (utc (now w)), spr_IDTag = [], spr_Reason = reason\<rparr>"
    obtain r s2 w2 where k: "call ActionStopTransaction (AnyJson (StopTransactionReq_json q))
        (put_connector n (c\<lparr>c_meter := ?m, c_transactionID := 0\<rparr>) s, w) = (r, (s2, w2))"
      by (metis surj_pair)
    have "StopTransactionReq_ok q"
      using sim_inv_connector [OF agreeD(1) Some] assms(1) by (simp add: q_def StopTransactionReq_ok_def x connector_ok_def)
    then have a2: "c_transactionID c \<noteq> 0 \<Longrightarrow> agree (s2, w2)"
      using agree_stopped [OF _ Some _ k] assms(1) by (simp add: q_def x)
    show ?thesis
      using assms Some k a2
      by (auto simp: stopTransaction_sim_def x Let_def q_def [symmetric]
          split: option.splits sum.splits if_splits prod.splits dest: agree_SetConnectorStatus)
  qed
qed

lemma agree_run_deferred: "good True x \<Longrightarrow> agree (run_deferred call now d x)"
proof (cases d)
  case (StartTx n tag)
  then show "good True x \<Longrightarrow> ?thesis"
    using agree_startTransaction [OF _ surjective_pairing] by (simp add: run_deferred_def)
next
  case (StopTx n)
  then show "good True x \<Longrightarrow> ?thesis"
    using agree_stopTransaction [OF good_agree(1) surjective_pairing] by (simp add: run_deferred_def)
next
  case HeartbeatNow
  then show "good True x \<Longrightarrow> ?thesis"
    using good_agree(1) [OF good_call [OF surjective_pairing]] by (simp add: run_deferred_def action_defs)
next
  case BootAgain
  then show "good True x \<Longrightarrow> ?thesis"
    using good_agree(1) [OF good_boot [OF _ surjective_pairing]] by (simp add: run_deferred_def)
next
  case (SendStatus n st)
  then show "good True x \<Longrightarrow> ?thesis"
    using good_agree(1) [OF good_sendStatus [OF _ surjective_pairing]] by (simp add: run_deferred_def)
next
  case (SetStatus n st)
  then show "good True x \<Longrightarrow> ?thesis"
    using good_agree(1) [OF good_SetConnectorStatus [OF _ surjective_pairing]] by (simp add: run_deferred_def)
qed

lemma agree_run_goroutine: "good True x \<Longrightarrow> agree (run_goroutine call now i fired x)"
  by (cases x) (auto simp: run_goroutine_def Let_def good_def agree_goroutines intro!: agree_run_deferred)

lemma agree_Connect: "good True x \<Longrightarrow> agree (snd (Connect_opened call now x))"
proof -
  assume g: "good True x"
  obtain e1 s1 w1 where b: "boot call x = (e1, (s1, w1))" by (metis surj_pair)
  obtain e2 s2 w2 where r: "reportInitialStatus call now (s1, w1) = (e2, (s2, w2))" by (metis surj_pair)
  have g1: "good True (s1, w1)" by (rule good_boot [OF g b])
  have "good True (s2, w2)" by (rule good_reportInitialStatus [OF g1 r])
  with g1 b r show ?thesis
    by (simp add: Connect_opened_def good_def agree_Close split: option.split)
qed

text \<open>Commands that arrive while the station waits for nothing.\<close>

lemma agree_command: "agree (s, w) \<Longrightarrow> agree (snd (HandleCall_sim env peer a p s), w)"
  using agree_sessions [of s w] sim_effect_sessions [OF sim_effect_HandleCall]
    sim_effect_inv [OF sim_effect_HandleCall] agreeD(1) [of s w] by blast

end

subsection \<open>The CSMS at the other end\<close>

text \<open>The handler's effect on the recorded transactions: only StartTransaction and StopTransaction
  messages touch them.\<close>

lemma core_ops_tx:
  assumes "svc_inv w"
  shows "tx_of (Seen t cp w) j k = tx_of w j k" "nextTxID (Seen t cp w) = nextTxID w"
    "tx_of (Heartbeat t cp w) j k = tx_of w j k" "nextTxID (Heartbeat t cp w) = nextTxID w"
    "tx_of (Booted t cp info w) j k = tx_of w j k" "nextTxID (Booted t cp info w) = nextTxID w"
    "tx_of (SetConnectorStatus t cp n st e w) j k = tx_of w j k"
    "nextTxID (SetConnectorStatus t cp n st e w) = nextTxID w"
    "tx_of (RecordMeterValues t cp n d w) j k = tx_of w j k"
    "nextTxID (RecordMeterValues t cp n d w) = nextTxID w"
  using locked_op_tx_other [OF assms, of "Op_Seen t cp" j k] locked_op_tx_other [OF assms, of "Op_Heartbeat t cp" j k]
    locked_op_tx_other [OF assms, of "Op_Booted t cp info" j k]
    locked_op_tx_other [OF assms, of "Op_SetConnectorStatus t cp n st e" j k]
    locked_op_tx_other [OF assms, of "Op_RecordMeterValues t cp n d" j k]
  by (simp_all add: Seen_def Heartbeat_def Booted_def SetConnectorStatus_def RecordMeterValues_def)

definition quiet_tx :: "Service \<Rightarrow> Service \<Rightarrow> bool" where
  "quiet_tx w w' \<longleftrightarrow> (\<forall>j k. tx_of w' j k = tx_of w j k) \<and> nextTxID w' = nextTxID w"

lemma quiet_tx_same [simp]: "quiet_tx w w"
  by (simp add: quiet_tx_def)

lemma quiet_tx_ops:
  assumes "svc_inv w"
  shows "quiet_tx w (Seen t cp w)" "quiet_tx w (Heartbeat t cp w)" "quiet_tx w (Booted t cp info w)"
    "quiet_tx w (SetConnectorStatus t cp n st e w)" "quiet_tx w (RecordMeterValues t cp n d w)"
  by (simp_all add: quiet_tx_def core_ops_tx [OF assms])

lemma quiet_tx_handlers:
  assumes "svc_inv w"
  shows "quiet_tx w (snd (bootNotification c t cp p w))" "quiet_tx w (snd (heartbeat t cp w))"
    "quiet_tx w (snd (statusNotification t cp p w))" "quiet_tx w (snd (authorize c t cp p w))"
    "quiet_tx w (snd (meterValues t cp p w))" "quiet_tx w (snd (dataTransfer t cp p w))"
    "quiet_tx w (snd (statusOnly t cp p w))"
  by (simp_all add: bootNotification_def heartbeat_def statusNotification_def authorize_def
      meterValues_def dataTransfer_def statusOnly_def Let_def quiet_tx_ops [OF assms]
      split: sum.split option.split)

lemma HandleCall_other_tx:
  "svc_inv w \<Longrightarrow> a \<noteq> ActionStartTransaction \<Longrightarrow> a \<noteq> ActionStopTransaction \<Longrightarrow>
   quiet_tx w (snd (HandleCall c t cp a p w))"
  unfolding HandleCall_def by (simp add: quiet_tx_handlers)

text \<open>A transaction recorded as running, by its connector.\<close>

definition running :: "string \<Rightarrow> Service \<Rightarrow> int \<rightharpoonup> int" where
  "running cp w k =
     (case tx_of w cp k of Some tx \<Rightarrow> if Active tx then Some (tx_ConnectorID tx) else None | None \<Rightarrow> None)"

lemma running_quiet: "quiet_tx w w' \<Longrightarrow> running cp w' k = running cp w k"
  by (simp add: quiet_tx_def running_def)

lemma HandleCall_start:
  assumes "svc_inv w" "tx_bound w"
  shows "quiet_tx w (snd (HandleCall c t cp ActionStartTransaction p w)) \<or>
         (\<exists>req at. decode ''StartTransactionReq'' StartTransactionReq_fields StartTransactionReq_zero p = Inr req \<and>
            HandleCall c t cp ActionStartTransaction p w =
              (Inr (StartTransactionConf_json \<lparr>stc_TransactionID = nextTxID w,
                  stc_IDTagInfo = \<lparr>iti_Status = AuthAccepted, iti_ExpiryDate = [], iti_ParentIDTag = []\<rparr>\<rparr>),
               commit (locked_op (Op_StartTransaction (s_now t) (s_now' t) cp (str_ConnectorID req)
                  (str_IDTag req) (str_MeterStart req) at) w)))"
proof -
  have hc: "HandleCall c t cp ActionStartTransaction p w = startTransaction c t cp p w"
    by (simp add: HandleCall_def action_defs)
  have id: "fst (StartTransaction a b cp n tag m at w) = nextTxID w"
    and st: "snd (StartTransaction a b cp n tag m at w) =
      commit (snd (StartTransaction_locked a b cp n tag m at w))" for a b n tag m at
    by (simp_all add: StartTransaction_def StartTransaction_locked_def Let_def)
  show ?thesis
    unfolding hc
    by (auto simp: startTransaction_def Let_def case_prod_beta id st quiet_tx_ops [OF assms(1)]
        split: sum.split option.split)
qed

lemma HandleCall_stop:
  "HandleCall c t cp ActionStopTransaction p w =
     (case decode ''StopTransactionReq'' StopTransactionReq_fields StopTransactionReq_zero p of
        Inl e \<Rightarrow> (Inl e, w)
      | Inr req \<Rightarrow>
          (Inr (StopTransactionConf_json \<lparr>spc_IDTagInfo = None\<rparr>),
           commit (locked_op (Op_StopTransaction (s_now t) (s_now' t) cp (spr_TransactionID req)
              (spr_MeterStop req) (spr_Reason req) (parseTime (spr_Timestamp req) (h_now t))) w)))"
  by (simp add: HandleCall_def action_defs stopTransaction_def StopTransaction_def case_prod_beta Let_def
      split: sum.split)

text \<open>
  A call of the station: the message may be lost, or reach the CSMS and be answered, and the answer
  may be lost. The commands in \<open>cmds\<close> are the ones the station serves while it waits.
\<close>

datatype fate = Delivered | Lost go_error | AnswerLost go_error

definition csms_call ::
  "Config \<Rightarrow> (Service \<Rightarrow> clocks) \<Rightarrow> string \<Rightarrow> (Simulator \<times> Service \<Rightarrow> sim_env inbound list) \<Rightarrow>
   (Simulator \<times> Service \<Rightarrow> fate) \<Rightarrow> (Simulator \<times> Service) caller" where
  "csms_call c t cp cmds fate action payload x =
     (case x of (s, w) \<Rightarrow>
        let s' = snd (serve HandleCall_sim cp (cmds x) s) in
        case payload of
          AnyJson j \<Rightarrow>
            (case fate x of
               Lost e \<Rightarrow> (Inl e, (s', w))
             | AnswerLost e \<Rightarrow> (Inl e, (s', snd (HandleCall c (t w) cp action (Some j) w)))
             | Delivered \<Rightarrow>
                 (case HandleCall c (t w) cp action (Some j) w of
                    (Inl e, w') \<Rightarrow> (Inl (ERPC e), (s', w'))
                  | (Inr j', w') \<Rightarrow> (Inr (Some j'), (s', w'))))
        | AnyNil \<Rightarrow> (Inl (EOther ''no payload''), (s', w))
        | AnyBad e \<Rightarrow> (Inl (EOther e), (s', w)))"

definition service_ok :: "Service \<Rightarrow> bool" where
  "service_ok w \<longleftrightarrow> svc_inv w \<and> tx_bound w"

definition has_room :: "Service \<Rightarrow> bool" where
  "has_room w \<longleftrightarrow> nextTxID w < int64_max"

lemma csms_call_cases:
  assumes "csms_call c t cp cmds fate a p (s, w) = (r, (s', w'))"
  shows "s' = snd (serve HandleCall_sim cp (cmds (s, w)) s)"
    "w' = w \<or> (\<exists>j. p = AnyJson j \<and> w' = snd (HandleCall c (t w) cp a (Some j) w))"
  using assms
  by (auto simp: csms_call_def Let_def split: go_any.splits fate.splits prod.splits sum.splits)

lemma csms_call_answer:
  "csms_call c t cp cmds fate a (AnyJson j) (s, w) = (Inr body, (s', w')) \<Longrightarrow>
   \<exists>j'. body = Some j' \<and> HandleCall c (t w) cp a (Some j) w = (Inr j', w')"
  by (auto simp: csms_call_def Let_def split: fate.splits prod.splits sum.splits)

lemma quiet_tx_service_ok: "quiet_tx w w' \<Longrightarrow> svc_inv w' \<Longrightarrow> service_ok w \<Longrightarrow> service_ok w'"
  by (simp add: quiet_tx_def service_ok_def tx_bound_def)

lemma service_ok_op: "service_ok w \<Longrightarrow> (is_start x \<Longrightarrow> has_room w) \<Longrightarrow> service_ok (commit (locked_op x w))"
proof (cases "is_start x \<or> is_stop x")
  case False
  assume w: "service_ok w"
  from False show ?thesis
    using locked_op_tx_other [of w x] w
    by (simp add: service_ok_def tx_bound_def svc_inv_commit svc_inv_locked)
next
  case True
  assume w: "service_ok w" and r: "is_start x \<Longrightarrow> has_room w"
  show ?thesis
  proof (cases "is_start x")
    case True
    then show ?thesis
      using tx_bound_locked [of w x] w r
      by (simp add: service_ok_def has_room_def tx_bound_def svc_inv_commit svc_inv_locked)
  next
    case False
    then obtain t t' i k m q at where x: "x = Op_StopTransaction t t' i k m q at"
      using True by (cases x) auto
    have "svc_inv (commit (locked_op x w))" using w by (simp add: service_ok_def svc_inv_commit svc_inv_locked)
    then show ?thesis
      using w by (auto simp: x service_ok_def tx_bound_def stop_tx split: option.splits if_splits)
  qed
qed

lemma running_start:
  assumes "service_ok w" "running cp w k = Some n"
  shows "running cp (commit (locked_op (Op_StartTransaction t t' i m tag ms at) w)) k = Some n"
proof -
  have "k < nextTxID w" using assms by (force simp: running_def service_ok_def tx_bound_def split: option.splits)
  then show ?thesis using assms(2) by (simp add: running_def start_tx)
qed

lemma running_stop:
  "running cp w k = Some n \<Longrightarrow> k \<noteq> k' \<or> i \<noteq> cp \<Longrightarrow>
   running cp (commit (locked_op (Op_StopTransaction t t' i k' m q at) w)) k = Some n"
  by (auto simp: running_def stop_tx)

lemma HandleCall_service_ok:
  assumes "service_ok w" "a = ActionStartTransaction \<Longrightarrow> has_room w"
  shows "service_ok (snd (HandleCall c t cp a p w))"
proof -
  have inv: "svc_inv w" "tx_bound w" using assms(1) by (simp_all add: service_ok_def)
  have q: "svc_inv (snd (HandleCall c t cp a p w))" by (rule v16.handle_inv [OF inv(1)])
  consider "a = ActionStartTransaction" | "a = ActionStopTransaction"
    | "a \<noteq> ActionStartTransaction" "a \<noteq> ActionStopTransaction" by blast
  then show ?thesis
  proof cases
    case 1
    then show ?thesis
      using HandleCall_start [OF inv, of c t cp p] quiet_tx_service_ok [OF _ q assms(1)]
        service_ok_op [OF assms(1)] assms(2) by (auto simp del: locked_op.simps)
  next
    case 2
    then show ?thesis
      using assms(1)
      by (auto simp: HandleCall_stop simp del: locked_op.simps split: sum.split intro!: service_ok_op)
  next
    case 3
    then show ?thesis using quiet_tx_service_ok [OF HandleCall_other_tx q assms(1)] inv by blast
  qed
qed

lemma HandleCall_running:
  assumes "service_ok w" "a \<noteq> ActionStopTransaction" "running cp w k = Some n"
  shows "running cp (snd (HandleCall c t cp a p w)) k = Some n"
proof (cases "a = ActionStartTransaction")
  case True
  have inv: "svc_inv w" "tx_bound w" using assms(1) by (simp_all add: service_ok_def)
  show ?thesis
    using HandleCall_start [OF inv, of c t cp p] running_quiet running_start [OF assms(1,3)] assms(3)
    unfolding True by force
next
  case False
  then show ?thesis
    using running_quiet [OF HandleCall_other_tx [OF _ False assms(2)]] assms by (simp add: service_ok_def)
qed

lemma has_room_HandleCall:
  assumes "service_ok w" "a \<noteq> ActionStartTransaction"
  shows "has_room (snd (HandleCall c t cp a p w)) = has_room w"
proof (cases "a = ActionStopTransaction")
  case True
  then show ?thesis by (simp add: HandleCall_stop has_room_def stop_tx split: sum.split)
next
  case False
  then show ?thesis
    using HandleCall_other_tx [of w a c t cp p] assms by (simp add: quiet_tx_def has_room_def service_ok_def)
qed

lemma HandleCall_started:
  assumes "service_ok w" "has_room w" "StartTransactionReq_ok q"
    "HandleCall c t cp ActionStartTransaction (Some (StartTransactionReq_json q)) w = (Inr j, w')"
    "decodeInto ''StartTransactionConf'' StartTransactionConf_fields StartTransactionConf_zero (Some j) = Inr conf"
    "iti_Status (stc_IDTagInfo conf) = AuthAccepted"
  shows "running cp w' (stc_TransactionID conf) = Some (str_ConnectorID q) \<and> in_int64 (stc_TransactionID conf)"
proof -
  have dec: "decode ''StartTransactionReq'' StartTransactionReq_fields StartTransactionReq_zero
      (Some (StartTransactionReq_json q)) = Inr q"
    using assms(3) by (simp add: decode_def)
  have ok: "StartTransactionConf_ok \<lparr>stc_TransactionID = nextTxID w, stc_IDTagInfo = i\<rparr>" for i
    using assms(1,2) by (simp add: StartTransactionConf_ok_def in_int64_def int64_min_def service_ok_def tx_bound_def has_room_def)
  have ok0: "StartTransactionConf_ok \<lparr>stc_TransactionID = 0, stc_IDTagInfo = i\<rparr>" for i
    by (simp add: StartTransactionConf_ok_def)
  have hc: "HandleCall c t cp ActionStartTransaction p w = startTransaction c t cp p w" for p
    by (simp add: HandleCall_def action_defs)
  have id: "fst (StartTransaction a b cp n tag m at w) = nextTxID w"
    and st: "snd (StartTransaction a b cp n tag m at w) =
      commit (snd (StartTransaction_locked a b cp n tag m at w))" for a b n tag m at
    by (simp_all add: StartTransaction_def StartTransaction_locked_def Let_def)
  show ?thesis
    using assms(4-6) ok [unfolded StartTransactionConf_ok_def] unfolding hc
    by (auto simp: startTransaction_def dec Let_def case_prod_beta id st decodeInto_def ok ok0 AuthInvalid_def AuthAccepted_def
        running_def start_tx Active_def is_zero_def zero_time_def split: option.splits if_splits)
qed

interpretation csms: session_link "csms_call c t cp cmds fate" "running cp" service_ok has_room
  for c t cp cmds fate
proof unfold_locales
  fix a p s w r s' w' k n
  assume k: "csms_call c t cp cmds fate a p (s, w) = (r, (s', w'))"
  note cc = csms_call_cases [OF k]
  show "same_sessions s s'" by (simp add: cc(1) serve_sim_sessions)
  show "sim_inv s'" if "sim_inv s" using that by (simp add: cc(1) serve_sim_inv)
  show "service_ok w'" if "service_ok w" "a = ActionStartTransaction \<Longrightarrow> has_room w"
    using cc(2) that HandleCall_service_ok by blast
  show "has_room w'" if "service_ok w" "has_room w" "a \<noteq> ActionStartTransaction"
    using cc(2) that has_room_HandleCall by blast
  show "running cp w' k = Some n"
    if "service_ok w" "a = ActionStartTransaction \<Longrightarrow> has_room w" "a \<noteq> ActionStopTransaction" "running cp w k = Some n"
    using cc(2) that HandleCall_running by blast
next
  fix q s w r s' w' k n
  assume k: "csms_call c t cp cmds fate ActionStopTransaction (AnyJson (StopTransactionReq_json q)) (s, w) = (r, (s', w'))"
    and a: "service_ok w" "StopTransactionReq_ok q" "k \<noteq> spr_TransactionID q" "running cp w k = Some n"
  have "decode ''StopTransactionReq'' StopTransactionReq_fields StopTransactionReq_zero
      (Some (StopTransactionReq_json q)) = Inr q"
    using a(2) by (simp add: decode_def)
  then show "running cp w' k = Some n"
    using csms_call_cases(2) [OF k] a running_stop by (auto simp: HandleCall_stop)
next
  fix q s w body s' w' conf
  assume k: "csms_call c t cp cmds fate ActionStartTransaction (AnyJson (StartTransactionReq_json q)) (s, w) = (Inr body, (s', w'))"
    and a: "service_ok w" "has_room w" "StartTransactionReq_ok q"
      "decodeInto ''StartTransactionConf'' StartTransactionConf_fields StartTransactionConf_zero body = Inr conf"
      "iti_Status (stc_IDTagInfo conf) = AuthAccepted"
  from csms_call_answer [OF k] obtain j where j: "body = Some j"
    "HandleCall c (t w) cp ActionStartTransaction (Some (StartTransactionReq_json q)) w = (Inr j, w')" by blast
  show "running cp w' (stc_TransactionID conf) = Some (str_ConnectorID q) \<and> in_int64 (stc_TransactionID conf)"
    using HandleCall_started [OF a(1-3) j(2)] a(4,5) j(1) by blast
qed

subsection \<open>Station and CSMS running together\<close>

text \<open>
  One step of the pair: the station answers a command, a side effect of a command runs, the
  station connects, an operator changes a status or starts or stops a session locally, the
  station closes, or the CSMS does anything that is not a stop of this station's transactions,
  such as serving another station, noticing a disconnect or marking the station offline. Every
  call of the station may be lost, or its answer, and commands are served while it waits.
\<close>

inductive station_step :: "Config \<Rightarrow> string \<Rightarrow> Simulator \<times> Service \<Rightarrow> Simulator \<times> Service \<Rightarrow> bool" for c cp where
  st_command: "station_step c cp (s, w) (snd (HandleCall_sim env peer a p s), w)"
| st_goroutine: "has_room (snd x) \<Longrightarrow>
    station_step c cp x (run_goroutine (csms_call c t cp cmds fate) now i fired x)"
| st_connect: "has_room (snd x) \<Longrightarrow>
    station_step c cp x (snd (Connect_opened (csms_call c t cp cmds fate) now x))"
| st_status: "station_step c cp x (snd (SetConnectorStatus_sim (csms_call c t cp cmds fate) now n st x))"
| st_start: "has_room (snd x) \<Longrightarrow>
    station_step c cp x (snd (StartTransaction_sim (csms_call c t cp cmds fate) now n x))"
| st_stop: "station_step c cp x (snd (StopTransaction_sim (csms_call c t cp cmds fate) now n x))"
| st_close: "station_step c cp (s, w) (Close_sim s, w)"
| st_csms: "has_room w \<Longrightarrow> \<not> (is_stop op \<and> op_cp op = cp) \<Longrightarrow>
    station_step c cp (s, w) (s, commit (locked_op op w))"

definition station_init :: "Simulator \<times> Service \<Rightarrow> bool" where
  "station_init x \<longleftrightarrow>
     (\<exists>r conf. in_int64 (so_Connectors r) \<and> New_sim r = Inr (fst x) \<and> snd x = New conf)"

lemma agree_csms_op:
  assumes "csms.agree cp (s, w)" "has_room w" "\<not> (is_stop op \<and> op_cp op = cp)"
  shows "csms.agree cp (s, commit (locked_op op w))"
proof (rule csms.agreeI)
  show "sim_inv s" by (rule csms.agreeD(1) [OF assms(1)])
  have w: "service_ok w" by (rule csms.agreeD(2) [OF assms(1)])
  then show "service_ok (commit (locked_op op w))" using service_ok_op assms(2) by blast
  fix n c assume c: "connectors s n = Some c" "c_transactionID c \<noteq> 0"
  have r: "running cp w (c_transactionID c) = Some n" by (rule csms.agreeD(3) [OF assms(1) c])
  show "running cp (commit (locked_op op w)) (c_transactionID c) = Some n"
  proof (cases op)
    case (Op_StartTransaction t t' i m tag ms at)
    then show ?thesis using running_start [OF w r] by simp
  next
    case (Op_StopTransaction t t' i k m q at)
    then show ?thesis using running_stop [OF r, of k i] assms(3) by auto
  qed (use r locked_op_tx_other [of w op cp "c_transactionID c"] w in \<open>auto simp: running_def service_ok_def\<close>)
qed

interpretation stations: invariant_system station_init "station_step c cp" "csms.agree cp" for c cp
proof unfold_locales
  fix x assume "station_init x"
  then obtain r conf where r: "in_int64 (so_Connectors r)" "New_sim r = Inr (fst x)" "snd x = New conf"
    by (auto simp: station_init_def)
  have "c_transactionID c = 0" if "connectors (fst x) n = Some c" for n c
    using New_sim_connectors [OF r(2) that] by (simp add: new_connector_def)
  then show "csms.agree cp x"
    using sim_inv_New [OF r(2,1)] r(3) by (auto simp: csms.agree_def service_ok_def svc_inv_New tx_bound_New)
next
  fix x y assume a: "csms.agree cp x" and st: "station_step c cp x y"
  from st show "csms.agree cp y"
  proof (cases rule: station_step.cases)
    case st_command
    then show ?thesis using a csms.agree_command by blast
  next
    case st_goroutine
    then show ?thesis using a csms.agree_run_goroutine by (auto simp: csms.good_def)
  next
    case st_connect
    then show ?thesis using a csms.agree_Connect by (auto simp: csms.good_def)
  next
    case st_status
    then show ?thesis using a csms.agree_SetConnectorStatus [OF _ surjective_pairing] by blast
  next
    case st_start
    then show ?thesis
      using a csms.agree_startTransaction [OF _ surjective_pairing] by (auto simp: csms.good_def StartTransaction_sim_def)
  next
    case st_stop
    then show ?thesis using a csms.agree_stopTransaction [OF _ surjective_pairing] by (auto simp: StopTransaction_sim_def)
  next
    case st_close
    then show ?thesis using a csms.agree_Close by blast
  next
    case st_csms
    then show ?thesis using a agree_csms_op by blast
  qed
qed

end
