(* ===== verification/Station_Props.thy ===== *)
theory Station_Props
  imports Station
begin

text \<open>
  Properties of the simulated station, alone and together with the CSMS: the sessions the two
  sides believe in, reservations, the advertised capabilities, and a full remote session from
  the command to the recorded stop. Some theorems record how the code behaves in corner cases.
\<close>

subsection \<open>A connection that delivers\<close>

text \<open>The connection on which every message arrives and no command comes in between, and what the
  station's reports and sessions do over it.\<close>

definition direct :: "Config \<Rightarrow> (Service \<Rightarrow> clocks) \<Rightarrow> string \<Rightarrow> (Simulator \<times> Service) caller" where
  "direct c t cp = csms_call c t cp (\<lambda>_. []) (\<lambda>_. Delivered)"

lemma direct_call:
  "direct c t cp a (AnyJson j) (s, w) =
     (case HandleCall c (t w) cp a (Some j) w of
        (Inl e, w') \<Rightarrow> (Inl (ERPC e), (s, w')) | (Inr j', w') \<Rightarrow> (Inr (Some j'), (s, w')))"
  by (simp add: direct_def csms_call_def)

lemma put_connector_twice [simp]: "put_connector n k (put_connector n k' s) = put_connector n k s"
  by (simp add: put_connector_def)

lemma station_statuses:
  "statusMap ''Available'' = Some StatusAvailable" "statusMap ''Preparing'' = Some StatusAvailable"
  "statusMap ''Charging'' = Some StatusCharging" "statusMap ''Finishing'' = Some StatusAvailable"
  "statusMap ''Reserved'' = Some StatusReserved" "statusMap [] = None"
  by (simp_all add: statusMap_def)

lemma direct_sendStatus:
  assumes "in_int64 n" "0 \<le> n" "statusMap st \<noteq> None"
  shows "sendStatus (direct c t cp) now n st (s, w) =
      (None, (s, SetConnectorStatus (s_now (t w)) cp n (MapStatus st) ''NoError'' w))"
proof -
  define q where "q = \<lparr>snr_ConnectorID = n, snr_ErrorCode = ''NoError'', snr_Status = st, snr_Info = [],
    snr_Timestamp = format_rfc3339 False (utc (now w)), snr_VendorID = [], snr_VendorErrorCode = []\<rparr>"
  have dec: "decode ''StatusNotificationReq'' StatusNotificationReq_fields StatusNotificationReq_zero
      (Some (StatusNotificationReq_json q)) = Inr q"
    using assms(1) by (simp add: decode_def q_def StatusNotificationReq_ok_def)
  have "st \<noteq> []" using assms(3) station_statuses(6) by metis
  then have val: "StatusNotificationReq_validate statusMap q = None"
    using assms(2,3) by (simp add: StatusNotificationReq_validate_def q_def)
  define w' where "w' = SetConnectorStatus (s_now (t w)) cp n (MapStatus st) ''NoError'' w"
  have "HandleCall c (t w) cp ActionStatusNotification (Some (StatusNotificationReq_json q)) w = (Inr emptyConf, w')"
    using dec val by (simp add: HandleCall_def action_defs statusNotification_def w'_def) (simp add: q_def)
  then show ?thesis by (simp add: sendStatus_def direct_call q_def [symmetric] w'_def)
qed

lemma direct_status:
  assumes "service_ok w" "in_int64 n" "0 \<le> n" "statusMap st \<noteq> None"
  shows "\<exists>w'. sendStatus (direct c t cp) now n st (s, w) = (None, (s, w')) \<and> quiet_tx w w' \<and> service_ok w'"
proof -
  let ?w = "SetConnectorStatus (s_now (t w)) cp n (MapStatus st) ''NoError'' w"
  have "quiet_tx w ?w" using assms(1) by (simp add: quiet_tx_ops service_ok_def)
  moreover have "service_ok ?w"
    using service_ok_op [OF assms(1), of "Op_SetConnectorStatus (s_now (t w)) cp n (MapStatus st) ''NoError''"]
    by (simp add: SetConnectorStatus_def)
  ultimately show ?thesis by (simp add: direct_sendStatus assms)
qed

lemma station_connector:
  "sim_inv s \<Longrightarrow> connectors s n = Some k \<Longrightarrow> in_int64 n \<and> 1 \<le> n \<and> n \<noteq> 0"
proof -
  assume i: "sim_inv s" and c: "connectors s n = Some k"
  have "n \<in> {1..so_Connectors (opts s)}" using i c by (auto simp: sim_inv_def)
  then show ?thesis using i by (auto simp: sim_inv_def in_int64_def int64_min_def)
qed

lemma direct_set:
  assumes "service_ok w" "in_int64 n" "1 \<le> n" "connectors s n = Some k" "statusMap st \<noteq> None"
  shows "\<exists>w'. SetConnectorStatus_sim (direct c t cp) now n st (s, w) =
           (None, (put_connector n (k\<lparr>c_status := st\<rparr>) s, w')) \<and> quiet_tx w w' \<and> service_ok w'"
  using direct_status [OF assms(1,2) _ assms(5)] assms(3,4) by (simp add: SetConnectorStatus_sim_def)

lemma quiet_tx_trans: "quiet_tx a b \<Longrightarrow> quiet_tx b d \<Longrightarrow> quiet_tx a d"
  by (simp add: quiet_tx_def)

lemma direct_start:
  assumes "service_ok w" "has_room w" "sim_inv s" "connectors s n = Some k"
    "tag \<noteq> []" "equal_fold tag (DefaultIDTag (cf_Auth c))"
  shows "\<exists>w'. startTransaction_sim (direct c t cp) now n tag (s, w) =
           (None, (put_connector n (k\<lparr>c_status := ''Charging'', c_transactionID := nextTxID w,
                                     c_reservationID := 0\<rparr>) s, w')) \<and>
         service_ok w' \<and> nextTxID w' = nextTxID w + 1 \<and>
         (\<forall>j. running cp w' j = (if j = nextTxID w then Some n else running cp w j))"
proof -
  have n: "in_int64 n" "1 \<le> n" "n \<noteq> 0" using station_connector [OF assms(3,4)] by auto
  obtain w1 where p: "SetConnectorStatus_sim (direct c t cp) now n ''Preparing'' (s, w) =
      (None, (put_connector n (k\<lparr>c_status := ''Preparing''\<rparr>) s, w1))" "quiet_tx w w1" "service_ok w1"
    using direct_set [OF assms(1) n(1,2) assms(4), of "''Preparing''" c t cp now] by (auto simp: station_statuses)
  have id1: "nextTxID w1 = nextTxID w" using p(2) by (simp add: quiet_tx_def)
  define q where "q = \<lparr>str_ConnectorID = n, str_IDTag = tag, str_MeterStart = c_meter k,
    str_Timestamp = format_rfc3339 False (utc (now w1)), str_ReservationID = None\<rparr>"
  define op where "op = Op_StartTransaction (s_now (t w1)) (s_now' (t w1)) cp n tag (c_meter k)
    (parseTime (str_Timestamp q) (h_now (t w1)))"
  define w2 where "w2 = commit (locked_op op w1)"
  define conf where "conf = \<lparr>stc_TransactionID = nextTxID w,
    stc_IDTagInfo = \<lparr>iti_Status = AuthAccepted, iti_ExpiryDate = [], iti_ParentIDTag = []\<rparr>\<rparr>"
  have q: "StartTransactionReq_ok q"
    unfolding q_def by (rule csms.StartTransactionReq_station [OF assms(3,4)])
  then have dec: "decode ''StartTransactionReq'' StartTransactionReq_fields StartTransactionReq_zero
      (Some (StartTransactionReq_json q)) = Inr q" by (simp add: decode_def)
  have val: "StartTransactionReq_validate q = None"
    using n assms(5) by (simp add: StartTransactionReq_validate_def q_def)
  have hc: "HandleCall c (t w1) cp ActionStartTransaction (Some (StartTransactionReq_json q)) w1 =
      (Inr (StartTransactionConf_json conf), w2)"
    using assms(6) by (simp add: HandleCall_def action_defs startTransaction_def dec val knownTag_def Let_def
        case_prod_beta StartTransaction_def w2_def op_def conf_def)
      (simp add: q_def id1 StartTransaction_locked_def Let_def)
  have "in_int64 (nextTxID w)"
    using assms(1,2) by (simp add: in_int64_def int64_min_def service_ok_def tx_bound_def has_room_def)
  then have dc: "decodeInto ''StartTransactionConf'' StartTransactionConf_fields StartTransactionConf_zero
      (Some (StartTransactionConf_json conf)) = Inr conf"
    by (simp add: decodeInto_def StartTransactionConf_ok_def conf_def)
  have room1: "has_room w1" using assms(2) id1 by (simp add: has_room_def)
  have ok2: "service_ok w2" unfolding w2_def using service_ok_op [OF p(3)] room1 by blast
  have id2: "nextTxID w2 = nextTxID w + 1"
    using assms(1,2) id1 by (simp add: w2_def op_def start_tx wrap64_id in_int64_def int64_min_def
        service_ok_def tx_bound_def has_room_def)
  let ?k = "k\<lparr>c_status := ''Preparing'', c_transactionID := nextTxID w, c_reservationID := 0\<rparr>"
  obtain w3 where f: "SetConnectorStatus_sim (direct c t cp) now n ''Charging'' (put_connector n ?k s, w2) =
      (None, (put_connector n (?k\<lparr>c_status := ''Charging''\<rparr>) s, w3))" "quiet_tx w2 w3" "service_ok w3"
    using direct_set [OF ok2 n(1,2), of "put_connector n ?k s" ?k "''Charging''" c t cp now] by (auto simp: station_statuses)
  have "startTransaction_sim (direct c t cp) now n tag (s, w) =
      (None, (put_connector n (k\<lparr>c_status := ''Charging'', c_transactionID := nextTxID w, c_reservationID := 0\<rparr>) s, w3))"
    using assms(4,5) p(1) hc f(1) dc
    by (simp add: startTransaction_sim_def Let_def q_def [symmetric] direct_call)
      (cases k, simp add: conf_def)
  moreover have "running cp w3 j = (if j = nextTxID w then Some n else running cp w j)" for j
    using running_quiet [OF f(2)] running_quiet [OF p(2), of cp j]
    by (simp add: w2_def op_def running_def start_tx id1 Active_def is_zero_def zero_time_def)
  ultimately show ?thesis using f(2,3) id2 by (auto simp: quiet_tx_def)
qed

lemma direct_stop:
  assumes "service_ok w" "sim_inv s" "connectors s n = Some k" "c_transactionID k \<noteq> 0"
    "running cp w (c_transactionID k) = Some n" "\<And>w. \<not> is_zero (s_now (t w))"
  shows "\<exists>w'. stopTransaction_sim (direct c t cp) now n reason (s, w) =
           (None, (put_connector n (k\<lparr>c_status := ''Available'', c_transactionID := 0,
                                     c_meter := wrap64 (c_meter k + 1000)\<rparr>) s, w')) \<and>
         service_ok w' \<and> nextTxID w' = nextTxID w \<and> running cp w' = (running cp w)(c_transactionID k := None) \<and>
         (\<exists>tx. tx_of w' cp (c_transactionID k) = Some tx \<and> MeterStop tx = wrap64 (c_meter k + 1000) \<and>
               Reason tx = reason \<and> \<not> Active tx)"
proof -
  have n: "in_int64 n" "1 \<le> n" "n \<noteq> 0" using station_connector [OF assms(2,3)] by auto
  let ?m = "wrap64 (c_meter k + 1000)"
  let ?k = "k\<lparr>c_meter := ?m, c_transactionID := 0\<rparr>"
  define q where "q = \<lparr>spr_TransactionID = c_transactionID k, spr_MeterStop = ?m,
    spr_Timestamp = format_rfc3339 False (utc (now w)), spr_IDTag = [], spr_Reason = reason\<rparr>"
  have "StopTransactionReq_ok q"
    using sim_inv_connector [OF assms(2,3)] by (simp add: q_def StopTransactionReq_ok_def connector_ok_def)
  then have dec: "decode ''StopTransactionReq'' StopTransactionReq_fields StopTransactionReq_zero
      (Some (StopTransactionReq_json q)) = Inr q" by (simp add: decode_def)
  define op where "op = Op_StopTransaction (s_now (t w)) (s_now' (t w)) cp (c_transactionID k) ?m reason
    (parseTime (spr_Timestamp q) (h_now (t w)))"
  define w1 where "w1 = commit (locked_op op w)"
  have hc: "HandleCall c (t w) cp ActionStopTransaction (Some (StopTransactionReq_json q)) w =
      (Inr (StopTransactionConf_json \<lparr>spc_IDTagInfo = None\<rparr>), w1)"
    by (simp add: HandleCall_stop dec w1_def op_def) (simp add: q_def)
  have ok1: "service_ok w1" unfolding w1_def by (rule service_ok_op [OF assms(1)]) (simp add: op_def)
  obtain tx where tx: "tx_of w cp (c_transactionID k) = Some tx" "Active tx"
    using assms(5) by (auto simp: running_def split: option.splits if_splits)
  define tx' where "tx' = stopped (s_now (t w)) (parseTime (spr_Timestamp q) (h_now (t w))) ?m reason tx"
  have tx1: "tx_of w1 cp j = (if j = c_transactionID k then Some tx' else tx_of w cp j)" for j
    using tx by (simp add: w1_def op_def stop_tx tx'_def)
  have inactive: "\<not> Active tx'" "MeterStop tx' = ?m" "Reason tx' = reason"
    using assms(6) [of w] by (simp_all add: tx'_def stopped_def Active_def)
  obtain w2 where f: "SetConnectorStatus_sim (direct c t cp) now n ''Finishing'' (put_connector n ?k s, w1) =
      (None, (put_connector n (?k\<lparr>c_status := ''Finishing''\<rparr>) s, w2))" "quiet_tx w1 w2" "service_ok w2"
    using direct_set [OF ok1 n(1,2), of "put_connector n ?k s" ?k "''Finishing''" c t cp now]
    by (auto simp: station_statuses)
  let ?f = "?k\<lparr>c_status := ''Finishing''\<rparr>"
  obtain w3 where g: "SetConnectorStatus_sim (direct c t cp) now n ''Available'' (put_connector n ?f s, w2) =
      (None, (put_connector n (?f\<lparr>c_status := ''Available''\<rparr>) s, w3))" "quiet_tx w2 w3" "service_ok w3"
    using direct_set [OF f(3) n(1,2), of "put_connector n ?f s" ?f "''Available''" c t cp now]
    by (auto simp: station_statuses)
  have q3: "quiet_tx w1 w3" by (rule quiet_tx_trans [OF f(2) g(2)])
  have tx3: "tx_of w3 cp j = (if j = c_transactionID k then Some tx' else tx_of w cp j)" for j
    using q3 tx1 by (simp add: quiet_tx_def)
  have "stopTransaction_sim (direct c t cp) now n reason (s, w) =
      (None, (put_connector n (k\<lparr>c_status := ''Available'', c_transactionID := 0, c_meter := ?m\<rparr>) s, w3))"
    using assms(3,4) hc f(1) g(1)
    by (simp add: stopTransaction_sim_def Let_def q_def [symmetric] direct_call) (cases k, simp)
  moreover have "running cp w3 = (running cp w)(c_transactionID k := None)"
    using inactive(1) by (auto simp: running_def fun_eq_iff tx3)
  moreover have "nextTxID w3 = nextTxID w" using q3 by (simp add: quiet_tx_def w1_def op_def stop_tx)
  ultimately show ?thesis using g(3) tx3 inactive by auto
qed

subsection \<open>Commands from the CSMS\<close>

text \<open>The CSMS's side of the same connection: a command is answered by the station.\<close>

definition station_call :: "sim_env \<Rightarrow> Simulator caller" where
  "station_call env action payload s =
     (case payload of
        AnyJson j \<Rightarrow>
          (case HandleCall_sim env [] action (Some j) s of
             (Inl e, s') \<Rightarrow> (Inl (ERPC e), s') | (Inr j', s') \<Rightarrow> (Inr (Some j'), s'))
      | AnyNil \<Rightarrow> (Inl (EOther ''no payload''), s)
      | AnyBad e \<Rightarrow> (Inl (EOther e), s))"

lemma command_station:
  assumes "dispatch_sim ks action (Some req) s = (Inr (JObj [(''status'', JStr st)]), s')"
  shows "command (station_call (answering ks)) action req s =
           (Inr \<lparr>Status = MapCommandStatus action st, Raw = st\<rparr>, s')"
  by (simp add: command_def station_call_def assms decode_status)

lemma run_goroutine_last:
  "run_goroutine call now (length (goroutines s)) True (after d s, w) = run_deferred call now d (s, w)"
  by (simp add: run_goroutine_def Let_def) (simp add: after_def)

lemmas status_conf_defs = ReserveNowConf_json_def CancelReservationConf_json_def
  RemoteStartTransactionConf_json_def RemoteStopTransactionConf_json_def UnlockConnectorConf_json_def
  TriggerMessageConf_json_def enc_defs

lemma RemoteStart_station:
  assumes "evse_mapping_ok c" "e \<in> set (lo_EVSEs (cf_Location c))" "in_int64 (ev_OCPPConnectorID e)"
    "connectors s (ev_OCPPConnectorID e) = Some k" "c_transactionID k = 0"
  shows "RemoteStart (station_call (answering ks)) c \<lparr>rs_RemoteStartID = i, rs_EVSEUID = ev_UID e, rs_IDTag = tag\<rparr> s =
           (Inr \<lparr>Status = CommandAccepted, Raw = ''Accepted''\<rparr>, after (StartTx (ev_OCPPConnectorID e) tag) s)"
proof -
  let ?q = "\<lparr>rsr_ConnectorID = Some (ev_OCPPConnectorID e), rsr_IDTag = tag\<rparr>"
  have "decodeCommand ''RemoteStartTransactionReq'' RemoteStartTransactionReq_fields RemoteStartTransactionReq_zero
      (Some (RemoteStartTransactionReq_json ?q)) = Inr ?q"
    using assms(3) by (simp add: RemoteStartTransactionReq_ok_def)
  then have "dispatch_sim ks ActionRemoteStartTransaction (Some (RemoteStartTransactionReq_json ?q)) s =
      (Inr (JObj [(''status'', JStr ''Accepted'')]), after (StartTx (ev_OCPPConnectorID e) tag) s)"
    using assms(4,5) by (simp add: dispatch_sim_def command_action_defs remoteStart_def Let_def
        status_conf_defs command_status_defs)
  then show ?thesis
    using command_station assms(1,2) by (simp add: RemoteStart_def connectorID_ok MapCommandStatus_def
        commandStatusMap_def command_action_defs command_status_defs)
qed

lemma RemoteStop_station:
  assumes "in_int64 j" "j \<noteq> 0" "enumerates ks (connectors s)" "connectors s n = Some k" "c_transactionID k = j" "n \<noteq> 0"
    "\<And>n' k'. connectors s n' = Some k' \<Longrightarrow> c_transactionID k' = j \<Longrightarrow> n' = n"
  shows "RemoteStop (station_call (answering ks)) (itoa j) s =
           (Inr \<lparr>Status = CommandAccepted, Raw = ''Accepted''\<rparr>, after (StopTx n) s)"
proof -
  let ?q = "\<lparr>rpr_TransactionID = j\<rparr>"
  have dec: "decodeCommand ''RemoteStopTransactionReq'' RemoteStopTransactionReq_fields RemoteStopTransactionReq_zero
      (Some (RemoteStopTransactionReq_json ?q)) = Inr ?q"
    using assms(1) by (simp add: RemoteStopTransactionReq_ok_def)
  have "n \<in> set ks" using assms(3,4) by (auto simp: enumerates_def)
  then have f: "find_connector ks (\<lambda>c. c_transactionID c = j \<and> c_transactionID c \<noteq> 0) s = n"
    by (rule find_connector_unique [OF _ assms(4)]) (simp_all add: assms(2,5) assms(7))
  have "dispatch_sim ks ActionRemoteStopTransaction (Some (RemoteStopTransactionReq_json ?q)) s =
      (Inr (JObj [(''status'', JStr ''Accepted'')]), after (StopTx n) s)"
    using assms(6) by (simp add: dispatch_sim_def command_action_defs remoteStop_def Let_def dec f
        status_conf_defs command_status_defs)
  from command_station [OF this] show ?thesis
    using assms(1) by (simp add: RemoteStop_def MapCommandStatus_def
        commandStatusMap_def command_action_defs command_status_defs)
qed

subsection \<open>Concrete systems for the witnesses\<close>

definition demo_opts :: Options where
  "demo_opts = \<lparr>so_URL = ''ws://csms'', so_ID = ''CP1'', so_Version = [], so_Connectors = 2, so_Vendor = [],
     so_Model = [], so_Firmware = [], so_SerialNumber = [], so_IDTag = ''TAG'', so_Scenario = [],
     so_SlowDelay = 0\<rparr>"

definition demo_station :: Simulator where
  "demo_station = projr (New_sim demo_opts)"

definition demo_link :: "(Simulator \<times> Service) caller" where
  "demo_link = direct (one_evse ''E'') (\<lambda>_. clk) ''CP1''"

definition demo_now :: "Service \<Rightarrow> go_time" where
  "demo_now w = Time 1000000000 0 None"

definition demo_start :: "Simulator \<times> Service" where
  "demo_start = (demo_station, New (Some (one_evse ''E'')))"

definition demo_charging :: "Simulator \<times> Service" where
  "demo_charging = snd (StartTransaction_sim demo_link demo_now 1 demo_start)"

lemma New_demo: "New_sim demo_opts = Inr demo_station"
proof -
  have "isl (New_sim demo_opts) = False" by code_simp
  then show ?thesis by (cases "New_sim demo_opts") (simp_all add: demo_station_def)
qed

lemma demo_opts_int64: "in_int64 (so_Connectors demo_opts)"
  by (simp add: demo_opts_def in_int64_def int64_min_def int64_max_def)

lemma sim_inv_demo: "sim_inv demo_station"
  by (rule sim_inv_New [OF New_demo demo_opts_int64])

lemma demo_connectors: "connectors demo_station = [1 \<mapsto> new_connector, 2 \<mapsto> new_connector]"
  and demo_IDTag: "so_IDTag (opts demo_station) = ''TAG''"
  and demo_scenario: "so_Scenario (opts demo_station) = ScenarioNormal"
  and demo_goroutines: "goroutines demo_station = []" "closed demo_station = False"
  by (simp_all add: conjunct1 [OF New_sim_eq [OF New_demo]] applyDefaults_sim_def demo_opts_def
      upto_rec1 fun_eq_iff)

lemma reach_demo_start: "reachable station_init (station_step c cp) demo_start"
proof (rule reach_init)
  show "station_init demo_start"
    using New_demo demo_opts_int64 by (auto simp: station_init_def demo_start_def)
qed

lemma demo_service: "service_ok (snd demo_start)" "has_room (snd demo_start)" "nextTxID (snd demo_start) = 1"
proof -
  show "nextTxID (snd demo_start) = 1" "has_room (snd demo_start)" by code_simp+
  show "service_ok (snd demo_start)" by (simp add: demo_start_def service_ok_def svc_inv_New tx_bound_New)
qed

lemma reach_demo_charging: "reachable station_init (station_step (one_evse ''E'') ''CP1'') demo_charging"
  using reach_step [OF reach_demo_start st_start [OF demo_service(2)]]
  unfolding demo_charging_def demo_link_def direct_def by blast

lemma demo_tag: "equal_fold ''TAG'' (DefaultIDTag (cf_Auth (one_evse ''E'')))"
  by code_simp

lemma demo_charging_eq:
  "\<exists>w. demo_charging = (put_connector 1 (new_connector\<lparr>c_status := ''Charging'', c_transactionID := 1, c_reservationID := 0\<rparr>)
     demo_station, w) \<and> service_ok w \<and> nextTxID w = 2 \<and> running ''CP1'' w 1 = Some 1"
  using direct_start [OF demo_service(1,2) sim_inv_demo, of 1 new_connector "''TAG''" "one_evse ''E''" "\<lambda>_. clk" "''CP1''" demo_now]
    demo_tag
  by (auto simp: demo_charging_def demo_link_def StartTransaction_sim_def demo_start_def demo_IDTag demo_connectors
      demo_service(3) [unfolded demo_start_def, simplified])

subsection \<open>Sessions\<close>

text \<open>
  Property C8. However commands, side effects, local operations, lost messages, lost answers and the
  CSMS's own activity interleave, a transaction the station believes to run on a connector is
  recorded by the CSMS as running, for this charge point and on this connector, as long as fewer
  than 2^63 transactions have been started; and the connector holds no reservation.
\<close>

theorem station_sessions_recorded:
  assumes "reachable station_init (station_step c cp) (s, w)"
    "connectors s n = Some k" "c_transactionID k \<noteq> 0"
  shows "(\<exists>tx. tx_of w cp (c_transactionID k) = Some tx \<and> Active tx \<and> tx_ConnectorID tx = n) \<and>
         c_reservationID k = 0 \<and> 1 \<le> n \<and> n \<le> so_Connectors (opts s)"
proof -
  have a: "csms.agree cp (s, w)" by (rule stations.reachable_inv [OF assms(1)])
  have "running cp w (c_transactionID k) = Some n" by (rule csms.agreeD(3) [OF a assms(2,3)])
  then have "\<exists>tx. tx_of w cp (c_transactionID k) = Some tx \<and> Active tx \<and> tx_ConnectorID tx = n"
    by (auto simp: running_def split: option.splits if_splits)
  moreover have "n \<in> dom (connectors s)" using assms(2) by blast
  ultimately show ?thesis
    using csms.agreeD(1) [OF a] sim_inv_connector [OF csms.agreeD(1) [OF a] assms(2)] assms(3)
    by (auto simp: connector_ok_def sim_inv_def)
qed

theorem station_sessions_recorded_witness:
  "case connectors (fst demo_charging) 1 of
     Some k \<Rightarrow> c_transactionID k = 1 \<and> c_reservationID k = 0 \<and>
       (\<exists>tx. tx_of (snd demo_charging) ''CP1'' 1 = Some tx \<and> Active tx \<and> tx_ConnectorID tx = 1)
   | None \<Rightarrow> False"
proof -
  obtain w where w: "demo_charging = (put_connector 1
      (new_connector\<lparr>c_status := ''Charging'', c_transactionID := 1, c_reservationID := 0\<rparr>) demo_station, w)"
    using demo_charging_eq by blast
  let ?k = "new_connector\<lparr>c_status := ''Charging'', c_transactionID := 1, c_reservationID := 0\<rparr>"
  have k: "connectors (fst demo_charging) 1 = Some ?k" "c_transactionID ?k = 1" by (simp_all add: w)
  have "reachable station_init (station_step (one_evse ''E'') ''CP1'') (fst demo_charging, snd demo_charging)"
    using reach_demo_charging by simp
  from station_sessions_recorded [OF this k(1)] k show ?thesis by simp
qed

text \<open>
  Property C15. A remote session works end to end. For an idle connector of a configured EVSE the
  CSMS's remote start is accepted, the station then starts the session the CSMS records under
  the next free id, the CSMS's remote stop of that id is accepted, and the station then ends it:
  the CSMS has it stopped remotely with a meter reading 1000 above the connector's, everything
  else it believed to run is unchanged, and the connector is free again.
\<close>

theorem remote_session:
  assumes "evse_mapping_ok c" "e \<in> set (lo_EVSEs (cf_Location c))" "n = ev_OCPPConnectorID e"
    "reachable station_init (station_step c' cp) (s, w)" "has_room w"
    "connectors s n = Some k" "c_transactionID k = 0"
    "tag \<noteq> []" "equal_fold tag (DefaultIDTag (cf_Auth c))" "enumerates ks (connectors s)"
    "\<And>w. \<not> is_zero (s_now (t w))"
  shows "\<exists>s1 w1 s2 w2 tx.
    RemoteStart (station_call (answering ks)) c \<lparr>rs_RemoteStartID = i, rs_EVSEUID = ev_UID e, rs_IDTag = tag\<rparr> s =
      (Inr \<lparr>Status = CommandAccepted, Raw = ''Accepted''\<rparr>, after (StartTx n tag) s) \<and>
    run_goroutine (direct c t cp) now (length (goroutines s)) True (after (StartTx n tag) s, w) = (s1, w1) \<and>
    ConnectorStatus s1 n = ''Charging'' \<and> TransactionID_sim s1 n = nextTxID w \<and>
    running cp w1 = (running cp w)(nextTxID w \<mapsto> n) \<and>
    RemoteStop (station_call (answering ks)) (itoa (nextTxID w)) s1 =
      (Inr \<lparr>Status = CommandAccepted, Raw = ''Accepted''\<rparr>, after (StopTx n) s1) \<and>
    run_goroutine (direct c t cp) now (length (goroutines s1)) True (after (StopTx n) s1, w1) = (s2, w2) \<and>
    ConnectorStatus s2 n = ''Available'' \<and> TransactionID_sim s2 n = 0 \<and>
    running cp w2 = running cp w \<and>
    tx_of w2 cp (nextTxID w) = Some tx \<and> \<not> Active tx \<and> Reason tx = ''Remote'' \<and>
    MeterStop tx = wrap64 (c_meter k + 1000)"
proof -
  have ag: "csms.agree cp (s, w)" by (rule stations.reachable_inv [OF assms(4)])
  note si = csms.agreeD(1) [OF ag] and ok = csms.agreeD(2) [OF ag]
  have n: "in_int64 n" "1 \<le> n" "n \<noteq> 0" using station_connector [OF si assms(6)] by auto
  have id: "in_int64 (nextTxID w)" "nextTxID w \<noteq> 0"
    using ok assms(5) by (auto simp: service_ok_def tx_bound_def in_int64_def int64_min_def has_room_def)
  have fresh: "tx_of w cp (nextTxID w) = None"
    using ok by (cases "tx_of w cp (nextTxID w)") (auto simp: service_ok_def tx_bound_def)
  let ?k = "k\<lparr>c_status := ''Charging'', c_transactionID := nextTxID w, c_reservationID := 0\<rparr>"
  let ?s1 = "put_connector n ?k s"
  obtain w1 where w1: "startTransaction_sim (direct c t cp) now n tag (s, w) = (None, (?s1, w1))"
    "service_ok w1" "\<And>j. running cp w1 j = (if j = nextTxID w then Some n else running cp w j)"
    using direct_start [OF ok assms(5) si assms(6,8,9), of t cp now] by blast
  have si1: "sim_inv ?s1"
    using sim_inv_put [OF si assms(6)] sim_inv_connector [OF si assms(6)] id by (simp add: connector_ok_def)
  have c1: "connectors ?s1 n = Some ?k" "c_transactionID ?k \<noteq> 0" using id by simp_all
  obtain w2 where w2: "stopTransaction_sim (direct c t cp) now n ''Remote'' (?s1, w1) =
      (None, (put_connector n (?k\<lparr>c_status := ''Available'', c_transactionID := 0,
                                  c_meter := wrap64 (c_meter ?k + 1000)\<rparr>) ?s1, w2))"
    "running cp w2 = (running cp w1)(c_transactionID ?k := None)"
    "\<exists>tx. tx_of w2 cp (c_transactionID ?k) = Some tx \<and> MeterStop tx = wrap64 (c_meter ?k + 1000) \<and>
       Reason tx = ''Remote'' \<and> \<not> Active tx"
    using direct_stop [OF w1(2) si1 c1, of cp t c now "''Remote''"] w1(3) assms(11) by auto
  have none: "running cp w (nextTxID w) = None" by (simp add: running_def fresh)
  then have uniq: "n' = n" if "connectors ?s1 n' = Some k'" "c_transactionID k' = nextTxID w" for n' k'
    using that csms.agreeD(3) [OF ag, of n' k'] id(2) by (auto split: if_splits)
  have ks: "enumerates ks (connectors ?s1)"
    using assms(6,10) by (auto simp: enumerates_def)
  have stop: "RemoteStop (station_call (answering ks)) (itoa (nextTxID w)) ?s1 =
      (Inr \<lparr>Status = CommandAccepted, Raw = ''Accepted''\<rparr>, after (StopTx n) ?s1)"
    by (rule RemoteStop_station [OF id ks c1(1) _ n(3) uniq]) simp_all
  have same: "running cp w2 = running cp w" and run1: "running cp w1 = (running cp w)(nextTxID w \<mapsto> n)"
    using w1(3) w2(2) none by (auto simp: fun_eq_iff)
  obtain tx where tx: "tx_of w2 cp (nextTxID w) = Some tx" "MeterStop tx = wrap64 (c_meter k + 1000)"
    "Reason tx = ''Remote''" "\<not> Active tx" using w2(3) by auto
  show ?thesis
    using RemoteStart_station [OF assms(1,2), of s k ks i tag] assms(3,6,7) n(1) stop w1(1) w2(1) same run1 tx
    by (simp add: run_goroutine_last run_deferred_def ConnectorStatus_def TransactionID_sim_def)
qed

lemma demo_evse:
  "evse_mapping_ok (one_evse ''E'')"
  "\<lparr>ev_UID = ''E'', ev_EVSEID = ''DE*ABC*E1'', ev_OCPPConnectorID = 1, ev_Connectors = []\<rparr>
     \<in> set (lo_EVSEs (cf_Location (one_evse ''E'')))"
  by (simp_all add: evse_mapping_ok_def one_evse_def Let_def)

lemma demo_enumerates: "enumerates [1, 2] (connectors demo_station)"
  by (auto simp: enumerates_def demo_connectors split: if_splits)

theorem remote_session_witness:
  "\<exists>s w. run_goroutine demo_link demo_now 0 True (after (StartTx 1 ''TAG'') demo_station, snd demo_start) = (s, w) \<and>
     ConnectorStatus s 1 = ''Charging'' \<and>
     RemoteStop (station_call (answering [1, 2])) (itoa 1) s =
       (Inr \<lparr>Status = CommandAccepted, Raw = ''Accepted''\<rparr>, after (StopTx 1) s)"
proof -
  let ?e = "\<lparr>ev_UID = ''E'', ev_EVSEID = ''DE*ABC*E1'', ev_OCPPConnectorID = 1, ev_Connectors = []\<rparr>"
  have r: "reachable station_init (station_step (one_evse ''E'') ''CP1'') (demo_station, snd demo_start)"
    using reach_demo_start by (simp add: demo_start_def)
  have k: "connectors demo_station 1 = Some new_connector" "c_transactionID new_connector = 0"
    by (simp_all add: demo_connectors new_connector_def)
  have z: "\<not> is_zero (s_now ((\<lambda>_. clk) w))" for w :: Service by (simp add: clk_def is_zero_def)
  have one: "1 = ev_OCPPConnectorID ?e" by simp
  show ?thesis
    using remote_session [OF demo_evse one r demo_service(2) k _ demo_tag demo_enumerates z, of undefined demo_now]
    by (simp add: demo_goroutines demo_service(3)) (simp add: demo_link_def, blast)
qed

lemma RemoteStop_rejected:
  assumes "find_connector ks (\<lambda>c. c_transactionID c = i \<and> c_transactionID c \<noteq> 0) s = 0" "in_int64 i"
  shows "fst (RemoteStop (station_call (answering ks)) (itoa i) s) = Inr \<lparr>Status = CommandRejected, Raw = ''Rejected''\<rparr>"
proof -
  have "decodeCommand ''RemoteStopTransactionReq'' RemoteStopTransactionReq_fields RemoteStopTransactionReq_zero
      (Some (RemoteStopTransactionReq_json \<lparr>rpr_TransactionID = i\<rparr>)) = Inr \<lparr>rpr_TransactionID = i\<rparr>"
    using assms(2) by (simp add: RemoteStopTransactionReq_ok_def)
  then have "dispatch_sim ks ActionRemoteStopTransaction (Some (RemoteStopTransactionReq_json \<lparr>rpr_TransactionID = i\<rparr>)) s =
      (Inr (JObj [(''status'', JStr ''Rejected'')]), s)"
    using assms(1)
    by (simp add: dispatch_sim_def command_action_defs remoteStop_def status_conf_defs command_status_defs)
  from command_station [OF this] show ?thesis
    using assms(2)
    by (simp add: RemoteStop_def MapCommandStatus_def commandStatusMap_def command_action_defs command_status_defs)
qed


subsection \<open>Reservations and capabilities\<close>

text \<open>
  CancelReservation compares the requested id with every connector's, and 0 stands for
  no reservation: a request for id 0, or one without an id, is accepted while nothing is
  reserved, and shows a charging connector as Available although its session keeps running.
\<close>

theorem cancel_zero_frees_charging_connector:
  "ConnectorStatus (fst demo_charging) 1 = ''Charging'' \<and> ReservationID_sim (fst demo_charging) 1 = 0 \<and>
   (case HandleCall_sim (answering [1, 2]) [] ActionCancelReservation (Some (JObj [])) (fst demo_charging) of
      (r, s) \<Rightarrow> r = Inr (JObj [(''status'', JStr ''Accepted'')]) \<and> ConnectorStatus s 1 = ''Available'' \<and>
                TransactionID_sim s 1 = 1 \<and> goroutines s = [SendStatus 1 ''Available''])"
proof -
  obtain w where w: "demo_charging = (put_connector 1
      (new_connector\<lparr>c_status := ''Charging'', c_transactionID := 1, c_reservationID := 0\<rparr>) demo_station, w)"
    using demo_charging_eq by blast
  have "decodeCommand ''CancelReservationReq'' CancelReservationReq_fields CancelReservationReq_zero
      (Some (JObj [])) = Inr CancelReservationReq_zero"
    by (simp add: decodeCommand_def dec_struct_def)
  then show ?thesis
    by (simp add: w ConnectorStatus_def ReservationID_sim_def TransactionID_sim_def dispatch_sim_def
        command_action_defs cancelReservation_def find_connector_def CancelReservationReq_zero_def Let_def
        status_conf_defs command_status_defs demo_goroutines)
qed

lemma ReserveNow_station:
  assumes "evse_mapping_ok c" "e \<in> set (lo_EVSEs (cf_Location c))" "n = ev_OCPPConnectorID e"
    "in_int64 n" "in_int64 i" "connectors s n = Some k" "c_transactionID k = 0" "c_status k = ''Available''"
  shows "ReserveNow (station_call (answering ks)) c
           \<lparr>rr_ReservationID = i, rr_EVSEUID = ev_UID e, rr_IDTag = tag, rr_ExpiresAt = at\<rparr> s =
         (if so_Scenario (opts s) = ScenarioRejectReserve
          then (Inr \<lparr>Status = CommandRejected, Raw = ''Rejected''\<rparr>, s)
          else if so_Scenario (opts s) = ScenarioOccupied
          then (Inr \<lparr>Status = CommandOccupied, Raw = ''Occupied''\<rparr>, s)
          else (Inr \<lparr>Status = CommandAccepted, Raw = ''Accepted''\<rparr>,
                after (SendStatus n ''Reserved'')
                  (put_connector n (k\<lparr>c_reservationID := i, c_status := ''Reserved''\<rparr>) s)))"
proof -
  define q where "q = \<lparr>rnr_ConnectorID = n, rnr_ExpiryDate = format_rfc3339 False (utc at), rnr_IDTag = tag,
    rnr_ParentIDTag = [], rnr_ReservationID = i\<rparr>"
  have dec: "decodeCommand ''ReserveNowReq'' ReserveNowReq_fields ReserveNowReq_zero
      (Some (ReserveNowReq_json q)) = Inr q"
    using assms(4,5) by (simp add: ReserveNowReq_ok_def q_def)
  define st where "st = (if so_Scenario (opts s) = ScenarioRejectReserve then ''Rejected''
    else if so_Scenario (opts s) = ScenarioOccupied then ''Occupied'' else ''Accepted'')"
  define s' where "s' = (if so_Scenario (opts s) \<in> {ScenarioRejectReserve, ScenarioOccupied} then s
    else after (SendStatus n ''Reserved'') (put_connector n (k\<lparr>c_reservationID := i, c_status := ''Reserved''\<rparr>) s))"
  have "reserveNow (Some (ReserveNowReq_json q)) s = (reserve_conf st, s')"
    using assms(6-8) by (simp add: reserveNow_def dec st_def s'_def command_status_defs)
      (simp add: q_def command_status_defs)
  then have "dispatch_sim ks ActionReserveNow (Some (ReserveNowReq_json q)) s =
      (Inr (JObj [(''status'', JStr st)]), s')"
    by (simp add: dispatch_sim_def reserve_conf_def status_conf_defs)
  from command_station [OF this]
  have cmd: "ReserveNow (station_call (answering ks)) c
      \<lparr>rr_ReservationID = i, rr_EVSEUID = ev_UID e, rr_IDTag = tag, rr_ExpiresAt = at\<rparr> s =
      (Inr \<lparr>Status = MapCommandStatus ActionReserveNow st, Raw = st\<rparr>, s')"
    using connectorID_ok [OF assms(1,2)] assms(3) by (simp add: ReserveNow_def q_def)
  have "MapCommandStatus ActionReserveNow ''Accepted'' = CommandAccepted"
    "MapCommandStatus ActionReserveNow ''Occupied'' = CommandOccupied"
    "MapCommandStatus ActionReserveNow ''Rejected'' = CommandRejected"
    by (simp_all add: MapCommandStatus_def commandStatusMap_def command_status_defs)
  then show ?thesis unfolding cmd by (simp add: st_def s'_def)
qed

lemma CancelReservation_station:
  assumes "in_int64 i"
  shows "CancelReservation (station_call (answering ks)) i s =
    (case find_connector ks (\<lambda>k. c_reservationID k = i) s of n \<Rightarrow>
       if n = 0 then (Inr \<lparr>Status = CommandRejected, Raw = ''Rejected''\<rparr>, s)
       else (case connectors s n of
               None \<Rightarrow> (Inr \<lparr>Status = CommandRejected, Raw = ''Rejected''\<rparr>, s)
             | Some k \<Rightarrow> (Inr \<lparr>Status = CommandAccepted, Raw = ''Accepted''\<rparr>,
                 after (SendStatus n ''Available'')
                   (put_connector n (k\<lparr>c_reservationID := 0, c_status := ''Available''\<rparr>) s))))"
proof -
  have dec: "decodeCommand ''CancelReservationReq'' CancelReservationReq_fields CancelReservationReq_zero
      (Some (CancelReservationReq_json \<lparr>crr_ReservationID = i\<rparr>)) = Inr \<lparr>crr_ReservationID = i\<rparr>"
    using assms by (simp add: CancelReservationReq_ok_def)
  have m: "MapCommandStatus ActionCancelReservation ''Accepted'' = CommandAccepted"
    "MapCommandStatus ActionCancelReservation ''Rejected'' = CommandRejected"
    by (simp_all add: MapCommandStatus_def commandStatusMap_def command_action_defs command_status_defs)
  have "dispatch_sim ks ActionCancelReservation p s = cancelReservation ks p s" for p
    by (simp add: dispatch_sim_def command_action_defs)
  then show ?thesis
    by (simp add: CancelReservation_def command_def station_call_def cancelReservation_def dec Let_def
        status_conf_defs command_status_defs decode_status m split: option.split)
qed



lemma key_loop_profiles:
  "key_loop [\<lparr>cfk_Key = KeySupportedFeatureProfiles, cfk_Readonly = True, cfk_Value = profiles s\<rparr>]
     \<lparr>Reservation = False, RemoteTrigger = False\<rparr> =
   \<lparr>Reservation = so_Scenario (opts s) \<noteq> ScenarioRejectReserve, RemoteTrigger = True\<rparr>"
proof -
  have "profile_loop (split_on CHR '','' ''Core,FirmwareManagement,RemoteTrigger'')
      \<lparr>Reservation = False, RemoteTrigger = False\<rparr> = \<lparr>Reservation = False, RemoteTrigger = True\<rparr>"
    and "profile_loop (split_on CHR '','' ''Core,FirmwareManagement,RemoteTrigger,Reservation'')
      \<lparr>Reservation = False, RemoteTrigger = False\<rparr> = \<lparr>Reservation = True, RemoteTrigger = True\<rparr>"
    by code_simp+
  then show ?thesis by (simp add: profiles_def)
qed

lemma Capabilities_station:
  "Capabilities_of (station_call (answering ks)) s =
     (Inr \<lparr>Reservation = so_Scenario (opts s) \<noteq> ScenarioRejectReserve, RemoteTrigger = True\<rparr>, s)"
proof -
  let ?key = "\<lparr>cfk_Key = KeySupportedFeatureProfiles, cfk_Readonly = True, cfk_Value = profiles s\<rparr>"
  let ?conf = "\<lparr>gcc_ConfigurationKey = [?key], gcc_UnknownKey = []\<rparr>"
  have "wanted_keys (all_keys s) [KeySupportedFeatureProfiles] GetConfigurationConf_zero = ?conf"
    by (simp add: all_keys_def GetConfigurationConf_zero_def)
  moreover have "decodeCommand ''GetConfigurationReq'' GetConfigurationReq_fields GetConfigurationReq_zero
      (Some (GetConfigurationReq_json \<lparr>gcr_Key = ks\<rparr>)) = Inr \<lparr>gcr_Key = ks\<rparr>" for ks
    by simp
  ultimately have "dispatch_sim ks ActionGetConfiguration
      (Some (GetConfigurationReq_json \<lparr>gcr_Key = [KeySupportedFeatureProfiles]\<rparr>)) s =
      (Inr (GetConfigurationConf_json ?conf), s)"
    by (simp add: dispatch_sim_def command_action_defs getConfiguration_def)
  then have "GetConfiguration (station_call (answering ks)) [KeySupportedFeatureProfiles] s = (Inr ?conf, s)"
    by (simp add: GetConfiguration_def station_call_def unmarshal_def)
  then show ?thesis by (simp add: Capabilities_of_def key_loop_profiles del: key_loop.simps)
qed

text \<open>
  The station honours what it advertises: the CSMS's capability query reports
  reservations exactly when the scenario does not refuse them, and a station that does not
  advertise them rejects the reservation of every connector, while one that does never rejects
  that of an available connector. The query changes nothing.
\<close>

theorem capabilities_honoured:
  assumes "evse_mapping_ok c" "e \<in> set (lo_EVSEs (cf_Location c))" "sim_inv s" "in_int64 i"
    "connectors s (ev_OCPPConnectorID e) = Some k" "c_transactionID k = 0" "c_status k = ''Available''"
  shows "\<exists>caps res s'. Capabilities_of (station_call (answering ks)) s = (Inr caps, s) \<and> RemoteTrigger caps \<and>
    ReserveNow (station_call (answering ks)) c
      \<lparr>rr_ReservationID = i, rr_EVSEUID = ev_UID e, rr_IDTag = tag, rr_ExpiresAt = at\<rparr> s = (Inr res, s') \<and>
    (Reservation caps \<longleftrightarrow> Status res \<noteq> CommandRejected)"
proof -
  have "in_int64 (ev_OCPPConnectorID e)" using station_connector [OF assms(3,5)] by simp
  from ReserveNow_station [OF assms(1,2) refl this assms(4-7), of ks tag at] show ?thesis
    by (simp add: Capabilities_station)
qed

theorem capabilities_honoured_witness:
  "Reservation (projr (fst (Capabilities_of (station_call (answering [1, 2])) demo_station)))"
proof -
  let ?e = "\<lparr>ev_UID = ''E'', ev_EVSEID = ''DE*ABC*E1'', ev_OCPPConnectorID = 1, ev_Connectors = []\<rparr>"
  have k: "connectors demo_station (ev_OCPPConnectorID ?e) = Some new_connector" "c_transactionID new_connector = 0"
    "c_status new_connector = ''Available''"
    by (simp_all add: demo_connectors new_connector_def)
  have res: "ReserveNow (station_call (answering [1, 2])) (one_evse ''E'')
      \<lparr>rr_ReservationID = 1, rr_EVSEUID = ev_UID ?e, rr_IDTag = tag, rr_ExpiresAt = at\<rparr> demo_station = (Inr res, s') \<Longrightarrow>
      Status res \<noteq> CommandRejected" for tag at res s'
    using ReserveNow_station [OF demo_evse refl _ _ k, of 1 "[1, 2]" tag at]
    by (auto simp: demo_scenario scenario_defs)
  show ?thesis
    using capabilities_honoured [OF demo_evse sim_inv_demo _ k, of 1 "[1, 2]" "''TAG''" zero_time] res by fastforce
qed

subsection \<open>Heartbeats\<close>

text \<open>
  The heartbeat loop of a station ends exactly when it is told to stop, or a heartbeat
  fails, after some number of heartbeats; otherwise it runs forever. A silent station ends it at
  once, having sent nothing.
\<close>

theorem heartbeat_loop_ends_iff:
  "if so_Scenario (opts (fst x)) = ScenarioSilent then heartbeatLoop call timer x = Some x
   else (\<exists>y. heartbeatLoop call timer x = Some y) \<longleftrightarrow> (\<exists>n. loop_stops call timer ((heartbeat_once call ^^ n) x))"
  using heartbeat_rounds_ends [of call timer _ x] heartbeat_rounds_ended [of call timer x]
  by (auto simp: heartbeatLoop_def)

end
