(* ===== verification/Csms_Server.thy ===== *)
theory Csms_Server
  imports Core_Props Ocpp_Rpc
begin

text \<open>
  The CSMS server (\<open>internal/ocpp/csms/server.go\<close>): the handshake (which identity a request path
  names, which OCPP version is agreed on, what is refused) and the registry of live connections,
  as a system of goroutines running \<open>serveConn\<close>. The connection itself (\<open>conn.Run\<close>) is here only
  the time between being connected and having ended, during which its handler may call the core.
\<close>

subsection \<open>Paths\<close>

text \<open>\<open>path.Clean\<close> of a rooted path, as the list of its elements: empty and dot elements vanish, a
  dot-dot removes the element before it.\<close>

fun clean_elems :: "string list \<Rightarrow> string list \<Rightarrow> string list" where
  "clean_elems [] acc = rev acc"
| "clean_elems (e # es) acc =
     (if e = [] \<or> e = ''.'' then clean_elems es acc
      else if e = ''..'' then clean_elems es (tl acc)
      else clean_elems es (e # acc))"

definition clean_rooted :: "string \<Rightarrow> string" where
  "clean_rooted p = ''/'' @ go_join ''/'' (clean_elems (split_on CHR ''/'' p) [])"

text \<open>\<open>path.Base\<close>: the last element, \<open>.\<close> for the empty path and \<open>/\<close> for one of slashes only.\<close>

definition path_base :: "string \<Rightarrow> string" where
  "path_base p =
     (if p = [] then ''.''
      else let b = last (split_on CHR ''/'' (drop_while_end CHR ''/'' p)) in if b = [] then ''/'' else b)"

definition chargePointID :: "string \<Rightarrow> string" where
  "chargePointID urlPath =
     (let cleaned = drop_while_end CHR ''/'' (clean_rooted (''/'' @ urlPath));
          i = path_base cleaned
      in if i = ''/'' \<or> i = ''.'' then [] else i)"

subsection \<open>The handshake\<close>

text \<open>\<open>handlers\<close> are the versions with a handler; \<open>offered\<close> the subprotocols of the request.\<close>

definition versionList :: "Version set \<Rightarrow> string list" where
  "versionList handlers = map Subprotocol (filter (\<lambda>v. v \<in> handlers) [Version16, Version201])"

fun negotiate :: "Version set \<Rightarrow> string list \<Rightarrow> (Version \<times> string) option" where
  "negotiate handlers [] = None"
| "negotiate handlers (p # ps) =
     (case VersionFromSubprotocol p of
        None \<Rightarrow> negotiate handlers ps
      | Some v \<Rightarrow> if v \<in> handlers then Some (v, p) else negotiate handlers ps)"

text \<open>The outcome of \<open>ServeHTTP\<close> before the connection runs: an HTTP status with a message, or an
  upgrade to the given version and subprotocol.\<close>

datatype handshake = Refused nat string | Upgrade string Version string

definition ServeHTTP ::
  "Version set \<Rightarrow> (string \<Rightarrow> bool) option \<Rightarrow> string \<Rightarrow> string list \<Rightarrow> handshake" where
  "ServeHTTP handlers accept urlPath offered =
     (let i = chargePointID urlPath
      in if i = [] then Refused 404 ''charge point id missing from path''
         else if (case accept of None \<Rightarrow> False | Some f \<Rightarrow> \<not> f i) then Refused 404 ''unknown charge point''
         else case negotiate handlers offered of
                None \<Rightarrow> Refused 400 ''no supported OCPP subprotocol offered''
              | Some (v, sub) \<Rightarrow> Upgrade i v sub)"

subsection \<open>The registry\<close>

text \<open>
  Where a goroutine running \<open>serveConn\<close> stands: before it registers, registered but not yet
  reported to the core, in \<open>conn.Run\<close>, back from it, removed from the registry but not yet
  reported gone, or finished.
\<close>

datatype serve_phase = Registering | Connecting | Running | Ended string | Reporting string | Finished

record serving =
  sv_id :: string
  sv_version :: Version
  sv_closed :: bool
  sv_phase :: serve_phase

record server =
  srv_conns :: "string \<rightharpoonup> nat"
  srv_threads :: "serving list"
  srv_core :: Service

definition NewServer :: "Service \<Rightarrow> server" where
  "NewServer core = \<lparr>srv_conns = Map.empty, srv_threads = [], srv_core = core\<rparr>"

text \<open>
  \<open>Options\<close> without the logger; a handler is represented by its version, and what \<open>NewChargePoint\<close>
  makes of a connection by the configuration the adapter resolves EVSEs with.
\<close>

record csms_Options =
  cs_Bind :: string
  cs_Core :: "Service option"
  cs_Handlers :: "Version set"
  cs_NewChargePoint :: "(Version \<Rightarrow> go_error + Config) option"
  cs_Accept :: "(string \<Rightarrow> bool) option"
  cs_CallTimeout :: int
  cs_IdleTimeout :: int

definition New_csms :: "csms_Options \<Rightarrow> string + csms_Options \<times> server" where
  "New_csms r =
     (case cs_Core r of
        None \<Rightarrow> Inl ''csms: Core is required''
      | Some core \<Rightarrow>
          if cs_Handlers r = {} then Inl ''csms: at least one handler is required''
          else Inr (r\<lparr>cs_CallTimeout := if cs_CallTimeout r \<le> 0 then 30 * second else cs_CallTimeout r,
                      cs_IdleTimeout := if cs_IdleTimeout r \<le> 0 then 90 * second else cs_IdleTimeout r\<rparr>,
                    NewServer core))"

definition set_thread :: "nat \<Rightarrow> serving \<Rightarrow> server \<Rightarrow> server" where
  "set_thread k t s = s\<lparr>srv_threads := (srv_threads s)[k := t]\<rparr>"

definition close_conn :: "nat \<Rightarrow> server \<Rightarrow> server" where
  "close_conn k s = set_thread k ((srv_threads s ! k)\<lparr>sv_closed := True\<rparr>) s"

text \<open>The first critical section: an older connection of the identity is closed and replaced.\<close>

definition register :: "nat \<Rightarrow> server \<Rightarrow> server" where
  "register k s =
     (let i = sv_id (srv_threads s ! k);
          s = (case srv_conns s i of Some old \<Rightarrow> close_conn old s | None \<Rightarrow> s)
      in set_thread k ((srv_threads s ! k)\<lparr>sv_phase := Connecting\<rparr>) (s\<lparr>srv_conns := (srv_conns s)(i \<mapsto> k)\<rparr>))"

text \<open>The second one: only the current connection is removed and goes on to report.\<close>

definition unregister :: "nat \<Rightarrow> string \<Rightarrow> server \<Rightarrow> server" where
  "unregister k reason s =
     (let t = srv_threads s ! k
      in if srv_conns s (sv_id t) = Some k
         then set_thread k (t\<lparr>sv_phase := Reporting reason\<rparr>) (s\<lparr>srv_conns := (srv_conns s)(sv_id t := None)\<rparr>)
         else set_thread k (t\<lparr>sv_phase := Finished\<rparr>) s)"

definition ChargePoint :: "server \<Rightarrow> string \<Rightarrow> nat option" where
  "ChargePoint s i = srv_conns s i"

text \<open>\<open>Command\<close>: \<open>wrap\<close> is \<open>NewChargePoint\<close>, absent when it is not configured.\<close>

definition Command :: "(nat \<Rightarrow> go_error + 'c) option \<Rightarrow> server \<Rightarrow> string \<Rightarrow> go_error + 'c" where
  "Command wrap s i =
     (case ChargePoint s i of
        None \<Rightarrow> Inl (ENotConnected i)
      | Some k \<Rightarrow> (case wrap of None \<Rightarrow> Inl (EOther ''csms: no NewChargePoint configured'') | Some f \<Rightarrow> f k))"

text \<open>The identities connected, in the order \<open>ks\<close> the map is visited.\<close>

definition Connected_ids :: "string list \<Rightarrow> server \<Rightarrow> string list" where
  "Connected_ids ks s = filter (\<lambda>i. srv_conns s i \<noteq> None) ks"

text \<open>The critical section of \<open>Shutdown\<close>: every registered connection is closed.\<close>

definition close_all :: "server \<Rightarrow> server" where
  "close_all s =
     s\<lparr>srv_threads := map (\<lambda>(k, t). if srv_conns s (sv_id t) = Some k then t\<lparr>sv_closed := True\<rparr> else t)
       (enumerate 0 (srv_threads s))\<rparr>"

inductive srv_step :: "server \<Rightarrow> server \<Rightarrow> bool" where
  srv_accept: "i \<noteq> [] \<Longrightarrow> srv_step s (s\<lparr>srv_threads := srv_threads s @
     [\<lparr>sv_id = i, sv_version = v, sv_closed = False, sv_phase = Registering\<rparr>]\<rparr>)"
| srv_register: "k < length (srv_threads s) \<Longrightarrow> sv_phase (srv_threads s ! k) = Registering \<Longrightarrow>
     srv_step s (register k s)"
| srv_connected: "k < length (srv_threads s) \<Longrightarrow> t = srv_threads s ! k \<Longrightarrow> sv_phase t = Connecting \<Longrightarrow>
     srv_step s (set_thread k (t\<lparr>sv_phase := Running\<rparr>) (s\<lparr>srv_core := Connected now (sv_id t) (srv_core s)\<rparr>))"
| srv_handle: "k < length (srv_threads s) \<Longrightarrow> sv_phase (srv_threads s ! k) = Running \<Longrightarrow>
     op_cp x = sv_id (srv_threads s ! k) \<Longrightarrow>
     (\<And>at i. x \<noteq> Op_Connected at i) \<Longrightarrow> (\<And>at i r. x \<noteq> Op_Disconnected at i r) \<Longrightarrow>
     srv_step s (s\<lparr>srv_core := commit (locked_op x (srv_core s))\<rparr>)"
| srv_ended: "k < length (srv_threads s) \<Longrightarrow> t = srv_threads s ! k \<Longrightarrow> sv_phase t = Running \<Longrightarrow>
     srv_step s (set_thread k (t\<lparr>sv_phase := Ended reason, sv_closed := True\<rparr>) s)"
| srv_unregister: "k < length (srv_threads s) \<Longrightarrow> sv_phase (srv_threads s ! k) = Ended reason \<Longrightarrow>
     srv_step s (unregister k reason s)"
| srv_disconnected: "k < length (srv_threads s) \<Longrightarrow> t = srv_threads s ! k \<Longrightarrow> sv_phase t = Reporting reason \<Longrightarrow>
     srv_step s (set_thread k (t\<lparr>sv_phase := Finished\<rparr>)
       (s\<lparr>srv_core := Disconnected now (sv_id t) reason (srv_core s)\<rparr>))"
| srv_shutdown: "srv_step s (close_all s)"

definition srv_init :: "server \<Rightarrow> bool" where
  "srv_init s \<longleftrightarrow> (\<exists>conf. s = NewServer (New conf))"

subsection \<open>Identities in request paths\<close>

lemma split_on_append: "split_on c (a @ c # b) = split_on c a @ split_on c b"
  by (induction c a rule: split_on.induct) (auto split: list.split)

lemma clean_elems_append: "clean_elems (xs @ ys) acc = clean_elems ys (rev (clean_elems xs acc))"
  by (induction xs acc rule: clean_elems.induct) simp_all

lemma clean_elems_empty: "clean_elems (replicate n []) acc = rev acc"
  by (induction n) simp_all

lemma split_on_slashes: "split_on c (replicate n c) = replicate (Suc n) []"
  by (induction n) simp_all

lemma go_join_snoc: "go_join [c] (xs @ [x]) = (if xs = [] then x else go_join [c] xs @ c # x)"
  by (induction "[c]" xs rule: go_join.induct) auto

lemma drop_while_end_id: "s = [] \<or> last s \<noteq> c \<Longrightarrow> drop_while_end c s = s"
  by (cases s rule: rev_cases) simp_all

lemma last_split_on: "c \<notin> set i \<Longrightarrow> last (split_on c (a @ c # i)) = i"
  by (simp add: split_on_append split_on_no_sep)

lemma clean_last:
  assumes "CHR ''/'' \<notin> set i" "i \<notin> {[], ''.'', ''..''}"
  shows "\<exists>xs. clean_elems (split_on CHR ''/'' (''/'' @ pre @ ''/'' @ i @ replicate n CHR ''/'')) [] = xs @ [i]"
proof -
  have s: "split_on CHR ''/'' (''/'' @ pre @ ''/'' @ i @ replicate n CHR ''/'') =
      split_on CHR ''/'' (''/'' @ pre) @ i # replicate n []"
  proof (cases n)
    case 0
    then show ?thesis
      using split_on_append [of "CHR ''/''" "''/'' @ pre" i] assms(1) by (simp add: split_on_no_sep)
  next
    case (Suc m)
    have "split_on CHR ''/'' (i @ CHR ''/'' # replicate m CHR ''/'') = i # replicate (Suc m) []"
      unfolding split_on_append split_on_slashes using assms(1) by (simp add: split_on_no_sep)
    then show ?thesis
      using split_on_append [of "CHR ''/''" "''/'' @ pre" "i @ replicate n CHR ''/''"] Suc by simp
  qed
  show ?thesis
    unfolding s clean_elems_append using assms(2) by (simp add: clean_elems_empty)
qed

subsection \<open>Who is online\<close>

lemma IsOnline_ensure: "IsOnline s i = online (ensure i s)"
  by (simp add: IsOnline_def ensure_def newChargePoint_def split: option.split)

lemma IsOnline_commit [simp]: "IsOnline (commit r) i = IsOnline (snd r) i"
  by (simp add: IsOnline_def commit_def publishAll_def)

lemma IsOnline_nextTxID [simp]: "IsOnline (s\<lparr>nextTxID := n\<rparr>) i = IsOnline s i"
  by (simp add: IsOnline_def)

lemma IsOnline_put: "IsOnline (put_cp i cp s) j = (if j = i then online cp else IsOnline s j)"
  by (simp add: IsOnline_def put_cp_def)

lemma online_recompute: "svc_inv s \<Longrightarrow> cp_pre i cp \<Longrightarrow> online (snd (recompute at cp)) = online cp"
  by (simp add: cp_pre_recompute)

lemma IsOnline_Connected: "svc_inv s \<Longrightarrow> IsOnline (Connected at i s) j \<longleftrightarrow> j = i \<or> IsOnline s j"
proof -
  assume "svc_inv s"
  then have p: "cp_pre i ((ensure i s)\<lparr>online := True, lastSeen := at\<rparr>)"
    using cp_inv_ensure cp_inv_pre by simp
  show ?thesis
    by (simp add: Connected_def Connected_locked_def Let_def cp_pre_recompute [OF p] IsOnline_put)
qed

lemma IsOnline_Disconnected: "svc_inv s \<Longrightarrow> IsOnline (Disconnected at i r s) j \<longleftrightarrow> j \<noteq> i \<and> IsOnline s j"
proof -
  assume "svc_inv s"
  then have p: "cp_pre i ((ensure i s)\<lparr>online := False\<rparr>)" using cp_inv_ensure cp_inv_pre by simp
  show ?thesis
    by (simp add: Disconnected_def Disconnected_locked_def Let_def cp_pre_recompute [OF p] IsOnline_put)
qed

lemma online_addEVSE [simp]: "online (addEVSE u n cp) = online cp"
  by (simp add: addEVSE_def)

lemma IsOnline_other_ops:
  assumes "svc_inv s" "\<And>at i. x \<noteq> Op_Connected at i" "\<And>at i r. x \<noteq> Op_Disconnected at i r"
  shows "IsOnline (snd (locked_op x s)) j = IsOnline s j"
proof -
  have st: "online (status_cp at i n st c s) = online (ensure i s)" for at i n st c
    by (simp add: status_cp_def Let_def)
  show ?thesis
    using assms
    by (cases x) (auto simp: Booted_locked_def Seen_locked_def Heartbeat_locked_def
        SetConnectorStatus_eq StartTransaction_locked_def StopTransaction_locked_def RecordMeterValues_locked_def
        Let_def IsOnline_put st IsOnline_ensure [symmetric] split: option.splits)
qed

subsection \<open>Connections of one identity that do not overlap\<close>

fun live :: "serve_phase \<Rightarrow> bool" where
  "live Connecting = True" | "live Running = True" | "live (Ended r) = True" | "live _ = False"

fun reported_on :: "serve_phase \<Rightarrow> bool" where
  "reported_on Running = True" | "reported_on (Ended r) = True" | "reported_on (Reporting r) = True"
| "reported_on _ = False"

definition serial :: "server \<Rightarrow> bool" where
  "serial s \<longleftrightarrow>
     (\<forall>j < length (srv_threads s). \<forall>k < length (srv_threads s). j \<noteq> k \<longrightarrow>
        sv_id (srv_threads s ! j) = sv_id (srv_threads s ! k) \<longrightarrow>
        sv_phase (srv_threads s ! j) = Finished \<or> sv_phase (srv_threads s ! k) = Finished)"

definition serial_step :: "server \<Rightarrow> server \<Rightarrow> bool" where
  "serial_step s s' \<longleftrightarrow> srv_step s s' \<and> serial s'"

definition srv_inv :: "server \<Rightarrow> bool" where
  "srv_inv s \<longleftrightarrow>
     svc_inv (srv_core s) \<and> serial s \<and>
     (\<forall>i k. srv_conns s i = Some k \<longleftrightarrow>
        k < length (srv_threads s) \<and> sv_id (srv_threads s ! k) = i \<and> live (sv_phase (srv_threads s ! k))) \<and>
     (\<forall>i. IsOnline (srv_core s) i \<longleftrightarrow>
        (\<exists>k < length (srv_threads s). sv_id (srv_threads s ! k) = i \<and> reported_on (sv_phase (srv_threads s ! k))))"

lemma serial_other:
  assumes "serial s" "k < length (srv_threads s)" "sv_phase (srv_threads s ! k) \<noteq> Finished"
    "j < length (srv_threads s)" "j \<noteq> k" "sv_id (srv_threads s ! j) = sv_id (srv_threads s ! k)"
  shows "sv_phase (srv_threads s ! j) = Finished"
  using assms by (auto simp: serial_def)

lemma srv_inv_update:
  assumes inv: "srv_inv s" and k: "k < length (srv_threads s)" "t = srv_threads s ! k" "sv_phase t \<noteq> Finished"
    and thr: "srv_threads s' = (srv_threads s)[k := t']" and id: "sv_id t' = sv_id t"
    and conns: "srv_conns s' = (srv_conns s)(sv_id t := if live (sv_phase t') then Some k else None)"
    and core: "svc_inv (srv_core s')"
      "\<And>j. IsOnline (srv_core s') j \<longleftrightarrow> (if j = sv_id t then reported_on (sv_phase t') else IsOnline (srv_core s) j)"
  shows "srv_inv s'"
proof -
  have ser: "serial s" using inv by (simp add: srv_inv_def)
  have oth: "sv_phase (srv_threads s ! j) = Finished"
    if "j < length (srv_threads s)" "j \<noteq> k" "sv_id (srv_threads s ! j) = sv_id t" for j
    using serial_other [OF ser k(1) _ that(1,2)] k that by simp
  have 1: "serial s'" using ser oth k id by (auto simp: serial_def thr nth_list_update)
  have 2: "srv_conns s' i = Some m \<longleftrightarrow>
      m < length (srv_threads s') \<and> sv_id (srv_threads s' ! m) = i \<and> live (sv_phase (srv_threads s' ! m))" for i m
    using inv oth [of m] k id by (auto simp: srv_inv_def conns thr nth_list_update)
  have 3: "IsOnline (srv_core s') i \<longleftrightarrow>
      (\<exists>m < length (srv_threads s'). sv_id (srv_threads s' ! m) = i \<and> reported_on (sv_phase (srv_threads s' ! m)))" for i
  proof (cases "i = sv_id t")
    case True
    have "(\<exists>m < length (srv_threads s'). sv_id (srv_threads s' ! m) = i \<and> reported_on (sv_phase (srv_threads s' ! m)))
      \<longleftrightarrow> reported_on (sv_phase t')"
      using oth k id True by (auto simp: thr nth_list_update)
    then show ?thesis using core(2) [of i] True by simp
  next
    case False
    then show ?thesis using inv core(2) [of i] k id by (auto simp: srv_inv_def thr nth_list_update)
  qed
  show ?thesis unfolding srv_inv_def using core(1) 1 2 3 by blast
qed

lemma srv_inv_live:
  "srv_inv s \<Longrightarrow> k < length (srv_threads s) \<Longrightarrow> live (sv_phase (srv_threads s ! k)) \<Longrightarrow>
   srv_conns s (sv_id (srv_threads s ! k)) = Some k"
  by (simp add: srv_inv_def)

lemma srv_inv_free:
  assumes "srv_inv s" "k < length (srv_threads s)" "sv_phase (srv_threads s ! k) \<noteq> Finished"
    "\<not> live (sv_phase (srv_threads s ! k))"
  shows "srv_conns s (sv_id (srv_threads s ! k)) = None"
proof (cases "srv_conns s (sv_id (srv_threads s ! k))")
  case (Some m)
  then have m: "m < length (srv_threads s)" "sv_id (srv_threads s ! m) = sv_id (srv_threads s ! k)"
      "live (sv_phase (srv_threads s ! m))" using assms(1) by (simp_all add: srv_inv_def)
  have "m \<noteq> k" using m(3) assms(4) by auto
  then have "sv_phase (srv_threads s ! m) = Finished"
    using serial_other [of s k m] assms m by (simp add: srv_inv_def)
  then show ?thesis using m(3) by simp
qed

lemma srv_inv_on:
  assumes "srv_inv s" "k < length (srv_threads s)" "sv_phase (srv_threads s ! k) \<noteq> Finished"
  shows "IsOnline (srv_core s) (sv_id (srv_threads s ! k)) \<longleftrightarrow> reported_on (sv_phase (srv_threads s ! k))"
proof -
  have ser: "serial s" and on: "IsOnline (srv_core s) (sv_id (srv_threads s ! k)) \<longleftrightarrow>
      (\<exists>m < length (srv_threads s). sv_id (srv_threads s ! m) = sv_id (srv_threads s ! k) \<and>
         reported_on (sv_phase (srv_threads s ! m)))"
    using assms(1) by (simp_all add: srv_inv_def)
  have "m = k" if "m < length (srv_threads s)" "sv_id (srv_threads s ! m) = sv_id (srv_threads s ! k)"
      "reported_on (sv_phase (srv_threads s ! m))" for m
    using serial_other [OF ser assms(2,3) that(1) _ that(2)] that(3) by (cases "m = k") auto
  then show ?thesis using on assms(2) by blast
qed

lemma set_thread_simps [simp]:
  "srv_threads (set_thread k t s) = (srv_threads s)[k := t]" "srv_conns (set_thread k t s) = srv_conns s"
  "srv_core (set_thread k t s) = srv_core s"
  by (simp_all add: set_thread_def)

lemma srv_inv_cong_threads:
  assumes "srv_inv s" "srv_conns s' = srv_conns s" "srv_core s' = srv_core s"
    "length (srv_threads s') = length (srv_threads s)"
    "\<And>k. k < length (srv_threads s) \<Longrightarrow> sv_id (srv_threads s' ! k) = sv_id (srv_threads s ! k) \<and>
       sv_phase (srv_threads s' ! k) = sv_phase (srv_threads s ! k)"
  shows "srv_inv s'"
  using assms by (simp add: srv_inv_def serial_def cong: conj_cong)

lemma svc_inv_Connected: "svc_inv s \<Longrightarrow> svc_inv (Connected at i s)"
  using svc_inv_commit [OF svc_inv_locked, of s "Op_Connected at i"] by (simp add: Connected_def)

lemma svc_inv_Disconnected: "svc_inv s \<Longrightarrow> svc_inv (Disconnected at i r s)"
  using svc_inv_commit [OF svc_inv_locked, of s "Op_Disconnected at i r"] by (simp add: Disconnected_def)

lemma srv_inv_step: "srv_step s s' \<Longrightarrow> serial s' \<Longrightarrow> srv_inv s \<Longrightarrow> srv_inv s'"
proof (induction rule: srv_step.induct)
  case (srv_accept i s v)
  let ?t = "\<lparr>sv_id = i, sv_version = v, sv_closed = False, sv_phase = Registering\<rparr>"
  let ?s = "s\<lparr>srv_threads := srv_threads s @ [?t]\<rparr>"
  have old: "srv_threads ?s ! k = srv_threads s ! k" if "k < length (srv_threads s)" for k
    using that by (simp add: nth_append)
  have new: "srv_threads ?s ! length (srv_threads s) = ?t" by simp
  have c: "(k < length (srv_threads ?s) \<and> P (srv_threads ?s ! k)) \<longleftrightarrow> k < length (srv_threads s) \<and> P (srv_threads s ! k)"
    if "\<not> P ?t" for P k
    using that old new by (cases "k = length (srv_threads s)") (auto simp: less_Suc_eq)
  show ?case
    using srv_accept.prems c [of "\<lambda>t. sv_id t = j \<and> live (sv_phase t)" for j]
      c [of "\<lambda>t. sv_id t = j \<and> reported_on (sv_phase t)" for j]
    by (simp add: srv_inv_def)
next
  case (srv_register k s)
  then have free: "srv_conns s (sv_id (srv_threads s ! k)) = None" by (intro srv_inv_free) auto
  show ?case
    by (rule srv_inv_update [OF srv_register.prems(2) srv_register.hyps(1) refl,
          where t' = "(srv_threads s ! k)\<lparr>sv_phase := Connecting\<rparr>"])
      (use srv_register free srv_inv_on [of s k] in \<open>auto simp: register_def Let_def srv_inv_def\<close>)
next
  case (srv_connected k s t now)
  have inv: "svc_inv (srv_core s)" using srv_connected by (simp add: srv_inv_def)
  show ?case
    by (rule srv_inv_update [OF srv_connected.prems(2) srv_connected.hyps(1,2), where t' = "t\<lparr>sv_phase := Running\<rparr>"])
      (use srv_connected srv_inv_live [of s k] inv in \<open>auto simp: svc_inv_Connected IsOnline_Connected\<close>)
next
  case (srv_handle k s x)
  have inv: "svc_inv (srv_core s)" using srv_handle by (simp add: srv_inv_def)
  have "svc_inv (commit (locked_op x (srv_core s)))" by (intro svc_inv_commit svc_inv_locked inv)
  then show ?case
    using srv_handle IsOnline_other_ops [OF inv srv_handle.hyps(4,5)] by (simp add: srv_inv_def serial_def)
next
  case (srv_ended k s t reason)
  show ?case
    by (rule srv_inv_update [OF srv_ended.prems(2) srv_ended.hyps(1,2),
          where t' = "t\<lparr>sv_phase := Ended reason, sv_closed := True\<rparr>"])
      (use srv_ended srv_inv_live [of s k] srv_inv_on [of s k] in \<open>auto simp: srv_inv_def\<close>)
next
  case (srv_unregister k s reason)
  have cur: "srv_conns s (sv_id (srv_threads s ! k)) = Some k"
    using srv_unregister by (intro srv_inv_live) auto
  show ?case
    by (rule srv_inv_update [OF srv_unregister.prems(2) srv_unregister.hyps(1) refl,
          where t' = "(srv_threads s ! k)\<lparr>sv_phase := Reporting reason\<rparr>"])
      (use srv_unregister cur srv_inv_on [of s k] in \<open>auto simp: unregister_def Let_def srv_inv_def\<close>)
next
  case (srv_disconnected k s t reason now)
  have inv: "svc_inv (srv_core s)" using srv_disconnected by (simp add: srv_inv_def)
  have free: "srv_conns s (sv_id t) = None" using srv_disconnected by (auto intro!: srv_inv_free)
  show ?case
    by (rule srv_inv_update [OF srv_disconnected.prems(2) srv_disconnected.hyps(1,2), where t' = "t\<lparr>sv_phase := Finished\<rparr>"])
      (use srv_disconnected free inv in \<open>auto simp: svc_inv_Disconnected IsOnline_Disconnected\<close>)
next
  case (srv_shutdown s)
  show ?case
    by (rule srv_inv_cong_threads [OF srv_shutdown.prems(2)]) (auto simp: close_all_def nth_enumerate_eq)
qed

lemma srv_inv_init: "srv_init s \<Longrightarrow> srv_inv s"
proof -
  assume "srv_init s"
  then obtain conf where s: "s = NewServer (New conf)" by (auto simp: srv_init_def)
  have on: "online (fold (\<lambda>e. addEVSE (ev_UID e) (ev_OCPPConnectorID e)) es cp) = online cp" for es cp
    by (induction es arbitrary: cp) simp_all
  have "\<not> IsOnline (New conf) i" for i
    by (auto simp: IsOnline_def New_def Let_def on newChargePoint_def split: option.splits if_splits)
  then show ?thesis by (simp add: s NewServer_def srv_inv_def svc_inv_New serial_def)
qed

interpretation serial_srv: invariant_system srv_init serial_step srv_inv
  by unfold_locales (auto simp: serial_step_def intro: srv_inv_init srv_inv_step)

subsection \<open>Schedules\<close>

text \<open>Running a given schedule of \<open>serveConn\<close> goroutines; an action that is not enabled does nothing.\<close>

datatype srv_action = AAccept string | ARegister nat | AConnected nat | AEnded nat | AUnregister nat | ADisconnected nat

fun srv_act :: "srv_action \<Rightarrow> server \<Rightarrow> server" where
  "srv_act (AAccept i) s =
     (if i = [] then s else s\<lparr>srv_threads := srv_threads s @
        [\<lparr>sv_id = i, sv_version = Version16, sv_closed = False, sv_phase = Registering\<rparr>]\<rparr>)"
| "srv_act (ARegister k) s =
     (if k < length (srv_threads s) \<and> sv_phase (srv_threads s ! k) = Registering then register k s else s)"
| "srv_act (AConnected k) s =
     (if k < length (srv_threads s) \<and> sv_phase (srv_threads s ! k) = Connecting
      then set_thread k ((srv_threads s ! k)\<lparr>sv_phase := Running\<rparr>)
             (s\<lparr>srv_core := Connected (Time 1 0 None) (sv_id (srv_threads s ! k)) (srv_core s)\<rparr>) else s)"
| "srv_act (AEnded k) s =
     (if k < length (srv_threads s) \<and> sv_phase (srv_threads s ! k) = Running
      then set_thread k ((srv_threads s ! k)\<lparr>sv_phase := Ended ''closed'', sv_closed := True\<rparr>) s else s)"
| "srv_act (AUnregister k) s =
     (if k < length (srv_threads s) \<and> sv_phase (srv_threads s ! k) = Ended ''closed'' then unregister k ''closed'' s else s)"
| "srv_act (ADisconnected k) s =
     (if k < length (srv_threads s) \<and> sv_phase (srv_threads s ! k) = Reporting ''closed''
      then set_thread k ((srv_threads s ! k)\<lparr>sv_phase := Finished\<rparr>)
             (s\<lparr>srv_core := Disconnected (Time 1 0 None) (sv_id (srv_threads s ! k)) ''closed'' (srv_core s)\<rparr>) else s)"

lemma srv_act_reachable: "reachable srv_init srv_step s \<Longrightarrow> reachable srv_init srv_step (srv_act a s)"
  by (cases a)
    (auto intro: reach_step srv_accept srv_register srv_connected srv_ended srv_unregister srv_disconnected)

lemma srv_fold_reachable: "reachable srv_init srv_step s \<Longrightarrow> reachable srv_init srv_step (fold srv_act as s)"
  by (induction as arbitrary: s) (simp_all add: srv_act_reachable)

lemma srv_start: "reachable srv_init srv_step (NewServer (New c))"
  by (rule reach_init) (auto simp: srv_init_def)

subsection \<open>Properties\<close>

text \<open>
  The identity of a charge point is the last element of the request path, whatever
  prefix its vendor puts before it and however many slashes follow it.
\<close>

theorem chargePointID_any_prefix:
  assumes "CHR ''/'' \<notin> set i" "i \<notin> {[], ''.'', ''..''}"
  shows "chargePointID (pre @ ''/'' @ i @ replicate n CHR ''/'') = i"
proof -
  obtain xs where xs: "clean_elems (split_on CHR ''/'' (''/'' @ pre @ ''/'' @ i @ replicate n CHR ''/'')) [] = xs @ [i]"
    using clean_last [OF assms, of pre n] by blast
  have li: "last i \<noteq> CHR ''/''" using assms by (metis insertI1 last_in_set)
  let ?a = "if xs = [] then [] else ''/'' @ go_join ''/'' xs"
  have c: "clean_rooted (''/'' @ pre @ ''/'' @ i @ replicate n CHR ''/'') = ?a @ CHR ''/'' # i"
    unfolding clean_rooted_def xs by (simp add: go_join_snoc)
  have d: "drop_while_end CHR ''/'' (?a @ CHR ''/'' # i) = ?a @ CHR ''/'' # i"
    using assms(2) li by (intro drop_while_end_id) auto
  have "path_base (?a @ CHR ''/'' # i) = i"
    unfolding path_base_def d last_split_on [OF assms(1)] using assms(2) by simp
  moreover have "i \<noteq> ''/''" using assms(1) by auto
  ultimately show ?thesis using assms(2) unfolding chargePointID_def Let_def c d by simp
qed

theorem chargePointID_any_prefix_witness: "chargePointID ''/steve/websocket/CP-7/'' = ''CP-7''"
  using chargePointID_any_prefix [of "''CP-7''" "''/steve/websocket''" 1] by simp

text \<open>
  Version negotiation takes the first subprotocol the charger offers that the server
  has a handler for, skipping those it does not know; it fails exactly when there is none.
\<close>

theorem negotiate_first_common:
  "map_option snd (negotiate hs ps) = List.find (\<lambda>p. \<exists>v \<in> hs \<inter> {Version16, Version201}. p = Subprotocol v) ps \<and>
   (case negotiate hs ps of None \<Rightarrow> True | Some (v, p) \<Rightarrow> v \<in> hs \<and> p = Subprotocol v)"
proof (induction ps)
  case (Cons q ps)
  show ?case
  proof (cases "\<exists>w \<in> hs \<inter> {Version16, Version201}. q = Subprotocol w")
    case True
    then obtain w where w: "w \<in> hs" "w \<in> {Version16, Version201}" "q = Subprotocol w" by blast
    then have "VersionFromSubprotocol q = Some w" by (simp add: VersionFromSubprotocol_Some)
    then show ?thesis using w True by simp
  next
    case False
    then have n: "negotiate hs (q # ps) = negotiate hs ps"
      using VersionFromSubprotocol_Some [of q] by (auto split: option.splits)
    then show ?thesis using Cons.IH False by simp
  qed
qed simp

text \<open>
  Property C31. When the connections of an identity do not overlap (the next one is accepted after
  the previous one's goroutine has finished), the core's view is exact: a charge point is online
  exactly from the moment its connection was reported until the moment it is reported gone, and
  the registry holds exactly the connections that are registered and not yet removed.
\<close>

theorem online_iff_connected:
  assumes "reachable srv_init serial_step s"
  shows "(IsOnline (srv_core s) i \<longleftrightarrow>
            (\<exists>t \<in> set (srv_threads s). sv_id t = i \<and> reported_on (sv_phase t))) \<and>
         (ChargePoint s i \<noteq> None \<longleftrightarrow> (\<exists>t \<in> set (srv_threads s). sv_id t = i \<and> live (sv_phase t)))"
proof -
  have inv: "srv_inv s" by (rule serial_srv.reachable_inv [OF assms])
  have ex: "(\<exists>k < length (srv_threads s). P (srv_threads s ! k)) \<longleftrightarrow> (\<exists>t \<in> set (srv_threads s). P t)" for P
    by (metis in_set_conv_nth)
  have "IsOnline (srv_core s) i \<longleftrightarrow> (\<exists>t \<in> set (srv_threads s). sv_id t = i \<and> reported_on (sv_phase t))"
    using inv unfolding ex [symmetric] by (simp add: srv_inv_def)
  moreover have "ChargePoint s i \<noteq> None \<longleftrightarrow> (\<exists>t \<in> set (srv_threads s). sv_id t = i \<and> live (sv_phase t))"
    using inv unfolding ex [symmetric] by (simp add: srv_inv_def ChargePoint_def)
  ultimately show ?thesis by blast
qed

theorem online_iff_connected_witness:
  "\<not> IsOnline (srv_core (NewServer (New None))) ''CP''"
proof -
  have "reachable srv_init serial_step (NewServer (New None))"
    by (rule reach_init) (auto simp: srv_init_def)
  from online_iff_connected [OF this, of "''CP''"] show ?thesis by (simp add: NewServer_def)
qed


text \<open>
  Overlapping connections can also leave a station online for good: a goroutine that
  was superseded between registering and reporting reports the station connected late, and as it
  is not the current connection it never reports it gone. All goroutines have finished, nothing is
  registered, and the core still says online.
\<close>

theorem superseded_connection_stuck_online:
  "let s = fold srv_act [AAccept ''CP'', ARegister 0, AAccept ''CP'', ARegister 1, AConnected 1,
             AEnded 1, AUnregister 1, ADisconnected 1, AConnected 0, AEnded 0, AUnregister 0]
             (NewServer (New None))
   in reachable srv_init srv_step s \<and> ChargePoint s ''CP'' = None \<and>
      map sv_phase (srv_threads s) = [Finished, Finished] \<and> IsOnline (srv_core s) ''CP''"
  unfolding Let_def
  by (intro conjI srv_fold_reachable srv_start) code_simp+

end
