(* ===== verification/Go_Net.thy ===== *)
theory Go_Net
  imports Go_Text
begin

text \<open>
  The parts of Go's \<open>time\<close>, \<open>net\<close> and \<open>net/netip\<close> packages the configuration is checked with:
  \<open>time.ParseDuration\<close> and \<open>Duration.String\<close>, \<open>net.SplitHostPort\<close> and \<open>net.ParseIP\<close>, as of Go
  1.24. Only whether a text is accepted and its value matter to the program, so a rejected text is
  \<^const>\<open>None\<close>.
\<close>

subsection \<open>Floating point\<close>

text \<open>
  \<open>ParseDuration\<close> computes the fraction of a unit in \<open>float64\<close>. A positive double is \<open>m * 2 ^ e\<close>;
  \<open>to_double\<close> rounds a quotient to 53 bits, to nearest and ties to even. The numbers that occur
  are far from the ends of the exponent range.
\<close>

function bit_len :: "int \<Rightarrow> int" where
  "bit_len n = (if n \<le> 0 then 0 else 1 + bit_len (n div 2))"
  by pat_completeness auto
termination
  by (relation "measure nat") auto

declare bit_len.simps [simp del]

definition round_half_even :: "int \<Rightarrow> int \<Rightarrow> int" where
  "round_half_even p q =
     (let d = p div q; r = p mod q in if 2 * r < q \<or> 2 * r = q \<and> even d then d else d + 1)"

definition scaled :: "int \<Rightarrow> int \<Rightarrow> int \<Rightarrow> int \<times> int" where
  "scaled p q e = (if e \<ge> 0 then (p, q * 2 ^ nat e) else (p * 2 ^ nat (- e), q))"

definition to_double :: "int \<Rightarrow> int \<Rightarrow> int \<times> int" where
  "to_double p q =
     (if p = 0 then (0, 0)
      else let e0 = bit_len p - bit_len q - 53;
               (a, b) = scaled p q e0;
               e = (if a < 2 ^ 53 * b then e0 else e0 + 1);
               (a', b') = scaled p q e
           in (round_half_even a' b', e))"

definition mult_double :: "int \<times> int \<Rightarrow> int \<times> int \<Rightarrow> int \<times> int" where
  "mult_double x y =
     (case (x, y) of ((m, e), (n, g)) \<Rightarrow>
        if e + g \<ge> 0 then to_double (m * n * 2 ^ nat (e + g)) 1 else to_double (m * n) (2 ^ nat (- (e + g))))"

definition trunc_double :: "int \<times> int \<Rightarrow> int" where
  "trunc_double x = (case x of (m, e) \<Rightarrow> if e \<ge> 0 then m * 2 ^ nat e else m div 2 ^ nat (- e))"

subsection \<open>Durations\<close>

fun leadingInt :: "int \<Rightarrow> string \<Rightarrow> (int \<times> string) option" where
  "leadingInt x [] = Some (x, [])"
| "leadingInt x (c # s) =
     (if \<not> is_digit c then Some (x, c # s)
      else if x > 2 ^ 63 div 10 then None
      else let y = x * 10 + int (char_digit c) in if y > 2 ^ 63 then None else leadingInt y s)"

text \<open>\<open>leadingFraction\<close> gives the digits' value and the power of ten it is scaled by; digits that no
  longer fit are dropped.\<close>

fun leadingFraction :: "int \<Rightarrow> nat \<Rightarrow> bool \<Rightarrow> string \<Rightarrow> int \<times> nat \<times> string" where
  "leadingFraction x k overflow [] = (x, k, [])"
| "leadingFraction x k overflow (c # s) =
     (if \<not> is_digit c then (x, k, c # s)
      else if overflow \<or> x > (2 ^ 63 - 1) div 10 then leadingFraction x k True s
      else let y = x * 10 + int (char_digit c) in
           if y > 2 ^ 63 then leadingFraction x k True s else leadingFraction y (Suc k) False s)"

definition unitMap :: "string \<rightharpoonup> int" where
  "unitMap = map_of
     [(''ns'', 1), (''us'', 1000), ([CHR 0xC2, CHR 0xB5] @ ''s'', 1000), ([CHR 0xCE, CHR 0xBC] @ ''s'', 1000),
      (''ms'', 1000000), (''s'', 1000000000), (''m'', 60 * 1000000000), (''h'', 3600 * 1000000000)]"

definition unit_char :: "char \<Rightarrow> bool" where
  "unit_char c \<longleftrightarrow> c \<noteq> CHR ''.'' \<and> \<not> is_digit c"

text \<open>One number with its unit, as nanoseconds, and the rest of the text.\<close>

definition duration_term :: "string \<Rightarrow> (int \<times> string) option" where
  "duration_term s =
     (if s = [] \<or> unit_char (hd s) then None
      else case leadingInt 0 s of
        None \<Rightarrow> None
      | Some (v, s1) \<Rightarrow>
          let pre = length s1 \<noteq> length s;
              (f, k, s2) = (case s1 of
                 c # r \<Rightarrow> if c = CHR ''.'' then leadingFraction 0 0 False r else (0, 0, s1)
               | [] \<Rightarrow> (0, 0, s1));
              post = (case s1 of c # r \<Rightarrow> c = CHR ''.'' \<and> length s2 \<noteq> length r | [] \<Rightarrow> False);
              u = takeWhile unit_char s2;
              rest = dropWhile unit_char s2
          in if \<not> pre \<and> \<not> post \<or> u = [] then None
             else case unitMap u of
               None \<Rightarrow> None
             | Some unit \<Rightarrow>
                 if v > 2 ^ 63 div unit then None
                 else let w = v * unit + (if f > 0
                        then trunc_double (mult_double (to_double f 1) (to_double unit (10 ^ k))) else 0)
                      in if w > 2 ^ 63 then None else Some (w, rest))"

lemma leadingInt_length: "leadingInt x s = Some (v, r) \<Longrightarrow> length r \<le> length s"
  by (induction x s rule: leadingInt.induct) (auto simp: Let_def split: if_splits)

lemma leadingFraction_length: "leadingFraction x k ov s = (f, j, r) \<Longrightarrow> length r \<le> length s"
  by (induction x k ov s rule: leadingFraction.induct) (auto simp: Let_def split: if_splits)

lemma duration_term_consumes:
  assumes "duration_term s = Some (w, rest)"
  shows "length rest < length s"
proof -
  obtain v s1 where s1: "leadingInt 0 s = Some (v, s1)"
    using assms by (auto simp: duration_term_def split: if_splits option.splits)
  define p where "p = (case s1 of
      c # r \<Rightarrow> if c = CHR ''.'' then leadingFraction 0 0 False r else (0, 0, s1) | [] \<Rightarrow> (0, 0, s1))"
  obtain f k s2 where p: "p = (f, k, s2)" by (cases p)
  have "length s2 \<le> length s1"
    using p leadingFraction_length unfolding p_def by (fastforce split: list.splits if_splits)
  also have "\<dots> \<le> length s" by (rule leadingInt_length [OF s1])
  finally have s2: "length s2 \<le> length s" .
  have r: "rest = dropWhile unit_char s2" "takeWhile unit_char s2 \<noteq> []"
    using assms s1 p unfolding p_def
    by (auto simp: duration_term_def Let_def split: if_splits option.splits)
  have "length (takeWhile unit_char s2) + length (dropWhile unit_char s2) = length s2"
    by (metis length_append takeWhile_dropWhile_id)
  then show ?thesis using r s2 by (cases "takeWhile unit_char s2") auto
qed

text \<open>The loop; the sum is an unsigned 64-bit number.\<close>

function duration_loop :: "int \<Rightarrow> string \<Rightarrow> int option" where
  "duration_loop d s =
     (if s = [] then Some d
      else case duration_term s of
        None \<Rightarrow> None
      | Some (w, rest) \<Rightarrow>
          let d' = (d + w) mod 2 ^ 64 in if d' > 2 ^ 63 then None else duration_loop d' rest)"
  by pat_completeness auto
termination
  by (relation "measure (\<lambda>(d, s). length s)") (auto dest: duration_term_consumes)

declare duration_loop.simps [simp del]

definition ParseDuration :: "string \<Rightarrow> int option" where
  "ParseDuration orig =
     (let neg = (orig \<noteq> [] \<and> hd orig = CHR ''-'');
          s = (if orig \<noteq> [] \<and> (hd orig = CHR ''-'' \<or> hd orig = CHR ''+'') then tl orig else orig)
      in if s = ''0'' then Some 0
         else if s = [] then None
         else case duration_loop 0 s of
           None \<Rightarrow> None
         | Some d \<Rightarrow>
             if neg then Some (wrap64 (- wrap64 d))
             else if d > 2 ^ 63 - 1 then None
             else Some d)"

text \<open>\<open>Duration.String\<close>.\<close>

definition fmtFrac :: "int \<Rightarrow> nat \<Rightarrow> string" where
  "fmtFrac u prec =
     (let ds = itoa (u mod 10 ^ prec);
          padded = replicate (prec - length ds) CHR ''0'' @ ds;
          digits = rev (dropWhile (\<lambda>c. c = CHR ''0'') (rev padded))
      in if digits = [] then [] else CHR ''.'' # digits)"

definition Duration_String :: "int \<Rightarrow> string" where
  "Duration_String d =
     (let u = \<bar>d\<bar>;
          small = (\<lambda>prec unit. itoa (u div 10 ^ prec) @ (if prec = 0 then [] else fmtFrac u prec) @ unit);
          s = u div 1000000000;
          body = (if u = 0 then ''0s''
                  else if u < 1000 then small 0 ''ns''
                  else if u < 1000000 then small 3 ([CHR 0xC2, CHR 0xB5] @ ''s'')
                  else if u < 1000000000 then small 6 ''ms''
                  else (if s div 60 = 0 then []
                        else (if s div 3600 = 0 then [] else itoa (s div 3600) @ ''h'')
                             @ itoa (s div 60 mod 60) @ ''m'')
                       @ itoa (s mod 60) @ fmtFrac u 9 @ ''s'')
      in (if d < 0 then CHR ''-'' # body else body))"

subsection \<open>Addresses\<close>

fun index_of :: "char \<Rightarrow> string \<Rightarrow> nat option" where
  "index_of c [] = None"
| "index_of c (x # s) = (if x = c then Some 0 else map_option Suc (index_of c s))"

definition last_index_of :: "char \<Rightarrow> string \<Rightarrow> nat option" where
  "last_index_of c s = map_option (\<lambda>i. length s - 1 - i) (index_of c (rev s))"

definition SplitHostPort :: "string \<Rightarrow> (string \<times> string) option" where
  "SplitHostPort hp =
     (case last_index_of CHR '':'' hp of
        None \<Rightarrow> None
      | Some i \<Rightarrow>
          (case (if hd hp = CHR ''[''
                 then (case index_of CHR '']'' hp of
                         None \<Rightarrow> None
                       | Some e \<Rightarrow> if e + 1 = i then Some (take (e - 1) (drop 1 hp), 1, e + 1) else None)
                 else let host = take i hp in
                      if index_of CHR '':'' host \<noteq> None then None else Some (host, 0, 0)) of
             None \<Rightarrow> None
           | Some (host, j, k) \<Rightarrow>
               if index_of CHR ''['' (drop j hp) \<noteq> None \<or> index_of CHR '']'' (drop k hp) \<noteq> None then None
               else Some (host, drop (i + 1) hp)))"

text \<open>A field of a dotted quad: one to three digits, no leading zero, at most 255.\<close>

definition ipv4_field :: "string \<Rightarrow> bool" where
  "ipv4_field s \<longleftrightarrow> s \<noteq> [] \<and> length s \<le> 3 \<and> list_all is_digit s \<and>
     (hd s = CHR ''0'' \<longrightarrow> length s = 1) \<and> digits_value s \<le> 255"

definition ipv4 :: "string \<Rightarrow> bool" where
  "ipv4 s \<longleftrightarrow> (let fs = split_on CHR ''.'' s in length fs = 4 \<and> list_all ipv4_field fs)"

definition is_hex_char :: "char \<Rightarrow> bool" where
  "is_hex_char c \<longleftrightarrow> is_digit c \<or> CHR ''a'' \<le> c \<and> c \<le> CHR ''f'' \<or> CHR ''A'' \<le> c \<and> c \<le> CHR ''F''"

text \<open>
  The loop of \<open>parseIPv6\<close>: \<open>i\<close> bytes are filled, \<open>ellipsis\<close> says whether \<open>::\<close> was seen. It returns
  the number of bytes filled, whether there was an ellipsis and the rest of the text.
\<close>

function ipv6_loop :: "nat \<Rightarrow> bool \<Rightarrow> string \<Rightarrow> (nat \<times> bool \<times> string) option" where
  "ipv6_loop i ell s =
     (if i \<ge> 16 then Some (i, ell, s)
      else let h = takeWhile is_hex_char s; r = dropWhile is_hex_char s in
           if h = [] \<or> length h > 4 then None
           else if r \<noteq> [] \<and> hd r = CHR ''.''
           then (if \<not> ell \<and> i \<noteq> 12 \<or> i + 4 > 16 \<or> \<not> ipv4 s then None else Some (i + 4, ell, []))
           else if r = [] then Some (i + 2, ell, [])
           else if hd r \<noteq> CHR '':'' \<or> length r = 1 then None
           else let t = tl r in
                if hd t = CHR '':''
                then (if ell then None
                      else if tl t = [] then Some (i + 2, True, [])
                      else ipv6_loop (i + 2) True (tl t))
                else ipv6_loop (i + 2) ell t)"
  by pat_completeness auto
termination
  by (relation "measure (\<lambda>(i, ell, s). 16 - i)") auto

declare ipv6_loop.simps [simp del]

definition ipv6 :: "string \<Rightarrow> bool" where
  "ipv6 s \<longleftrightarrow>
     (let lead = (take 2 s = ''::''); t = (if lead then drop 2 s else s) in
      if lead \<and> t = [] then True
      else case ipv6_loop 0 lead t of
        None \<Rightarrow> False
      | Some (i, ell, rest) \<Rightarrow> rest = [] \<and> (if i < 16 then ell else \<not> ell))"

text \<open>
  \<open>net.ParseIP\<close>, as far as whether it succeeds: the first of \<open>.\<close>, \<open>:\<close> and \<open>%\<close> decides the form,
  and an address with a zone is no IP.
\<close>

definition ParseIP :: "string \<Rightarrow> bool" where
  "ParseIP s \<longleftrightarrow>
     (case List.find (\<lambda>c. c \<in> {CHR ''.'', CHR '':'', CHR ''%''}) s of
        None \<Rightarrow> False
      | Some c \<Rightarrow> if c = CHR ''.'' then ipv4 s else c = CHR '':'' \<and> CHR ''%'' \<notin> set s \<and> ipv6 s)"

end
