(* ===== verification/Config_Validate.thy ===== *)
theory Config_Validate
  imports Config_Types Go_Net
begin

text \<open>
  Validation of the configuration (\<open>internal/config/validate.go\<close>, \<open>enums.go\<close>, \<open>errors.go\<close> and
  \<open>duration.go\<close>). A validator is the list of the problems found so far, and every check appends
  to it; the result is the list sorted by path, and the configuration with its durations
  resolved. The regular expressions are anchored sequences of character classes without
  overlap, written as predicates. \<open>url.Parse\<close> is the argument \<open>url_parse\<close>, which gives the error
  text or the scheme and the host.
\<close>

subsection \<open>Problems (errors.go)\<close>

record FieldError =
  Path :: string
  Msg :: string

type_synonym ValidationErrors = "FieldError list"

definition FieldError_Error :: "FieldError \<Rightarrow> string" where
  "FieldError_Error e = Path e @ '': '' @ Msg e"

definition ValidationErrors_Error :: "ValidationErrors \<Rightarrow> string" where
  "ValidationErrors_Error es =
     (if es = [] then ''config: no problems''
      else (if length es = 1 then ''config: 1 problem:''
            else ''config: '' @ dec (length es) @ '' problems:'')
           @ concat (map (\<lambda>e. [CHR 0x0A] @ ''  - '' @ FieldError_Error e) es))"

definition Paths :: "ValidationErrors \<Rightarrow> string list" where
  "Paths es = map Path es"

definition sortByPath :: "ValidationErrors \<Rightarrow> ValidationErrors" where
  "sortByPath es = sort_key Path es"

definition add_error :: "string \<Rightarrow> string \<Rightarrow> ValidationErrors \<Rightarrow> ValidationErrors" where
  "add_error path msg v = v @ [\<lparr>Path = path, Msg = msg\<rparr>]"

text \<open>A check that reports a problem when its condition holds.\<close>

definition flag :: "bool \<Rightarrow> string \<Rightarrow> string \<Rightarrow> ValidationErrors \<Rightarrow> ValidationErrors" where
  "flag problem path msg v = (if problem then add_error path msg v else v)"

definition required :: "string \<Rightarrow> string \<Rightarrow> ValidationErrors \<Rightarrow> bool \<times> ValidationErrors" where
  "required path val v =
     (if trim_space val = [] then (False, add_error path ''is required'' v) else (True, v))"

subsection \<open>Enumerations (enums.go)\<close>

definition connectorStandards :: "string list" where
  "connectorStandards =
     [''CHADEMO'', ''CHAOJI'', ''DOMESTIC_A'', ''DOMESTIC_B'', ''DOMESTIC_C'', ''DOMESTIC_D'', ''DOMESTIC_E'',
      ''DOMESTIC_F'', ''DOMESTIC_G'', ''DOMESTIC_H'', ''DOMESTIC_I'', ''DOMESTIC_J'',
      ''DOMESTIC_K'', ''DOMESTIC_L'', ''DOMESTIC_M'', ''DOMESTIC_N'', ''DOMESTIC_O'', ''GBT_AC'', ''GBT_DC'',
      ''IEC_60309_2_single_16'', ''IEC_60309_2_three_16'', ''IEC_60309_2_three_32'', ''IEC_60309_2_three_64'',
      ''IEC_62196_T1'', ''IEC_62196_T1_COMBO'', ''IEC_62196_T2'', ''IEC_62196_T2_COMBO'',
      ''IEC_62196_T3A'', ''IEC_62196_T3C'',
      ''NEMA_5_20'', ''NEMA_6_30'', ''NEMA_6_50'', ''NEMA_10_30'', ''NEMA_10_50'', ''NEMA_14_30'', ''NEMA_14_50'',
      ''PANTOGRAPH_BOTTOM_UP'', ''PANTOGRAPH_TOP_DOWN'', ''TESLA_R'', ''TESLA_S'']"

definition connectorFormats :: "string list" where
  "connectorFormats = [''SOCKET'', ''CABLE'']"

definition powerTypes :: "string list" where
  "powerTypes = [''AC_1_PHASE'', ''AC_2_PHASE'', ''AC_2_PHASE_SPLIT'', ''AC_3_PHASE'', ''DC'']"

definition ocppVersions :: "string list" where
  "ocppVersions = [''1.6'', ''2.0.1'']"

text \<open>\<open>sorted\<close>: the members of a set in order.\<close>

definition sorted_set :: "string list \<Rightarrow> string list" where
  "sorted_set vs = sort (remdups vs)"

subsection \<open>Patterns\<close>

definition is_upper :: "char \<Rightarrow> bool" where
  "is_upper c \<longleftrightarrow> CHR ''A'' \<le> c \<and> c \<le> CHR ''Z''"

definition is_lower :: "char \<Rightarrow> bool" where
  "is_lower c \<longleftrightarrow> CHR ''a'' \<le> c \<and> c \<le> CHR ''z''"

definition is_alpha :: "char \<Rightarrow> bool" where
  "is_alpha c \<longleftrightarrow> is_upper c \<or> is_lower c"

definition is_alnum :: "char \<Rightarrow> bool" where
  "is_alnum c \<longleftrightarrow> is_alpha c \<or> is_digit c"

definition chargePointIDRe :: "string \<Rightarrow> bool" where
  "chargePointIDRe s \<longleftrightarrow>
     1 \<le> length s \<and> length s \<le> 48 \<and> list_all (\<lambda>c. is_alnum c \<or> c \<in> set ''._:~-'') s"

definition idTagRe :: "string \<Rightarrow> bool" where
  "idTagRe s \<longleftrightarrow> 1 \<le> length s \<and> length s \<le> 20 \<and> list_all (\<lambda>c. CHR 0x21 \<le> c \<and> c \<le> CHR 0x7E) s"

definition countryCodeRe :: "string \<Rightarrow> bool" where
  "countryCodeRe s \<longleftrightarrow> length s = 2 \<and> list_all is_upper s"

definition partyIDRe :: "string \<Rightarrow> bool" where
  "partyIDRe s \<longleftrightarrow> length s = 3 \<and> list_all is_upper s"

definition alpha3Re :: "string \<Rightarrow> bool" where
  "alpha3Re s \<longleftrightarrow> length s = 3 \<and> list_all is_upper s"

text \<open>An optional minus, up to \<open>n\<close> digits, a point and five to seven digits.\<close>

definition unsigned_part :: "string \<Rightarrow> string" where
  "unsigned_part s = (if s \<noteq> [] \<and> hd s = CHR ''-'' then tl s else s)"

definition coordinateRe :: "nat \<Rightarrow> string \<Rightarrow> bool" where
  "coordinateRe n s \<longleftrightarrow>
     (let u = unsigned_part s; a = takeWhile is_digit u; b = dropWhile is_digit u in
      1 \<le> length a \<and> length a \<le> n \<and> b \<noteq> [] \<and> hd b = CHR ''.'' \<and>
      5 \<le> length (tl b) \<and> length (tl b) \<le> 7 \<and> list_all is_digit (tl b))"

definition latitudeRe :: "string \<Rightarrow> bool" where "latitudeRe = coordinateRe 2"
definition longitudeRe :: "string \<Rightarrow> bool" where "longitudeRe = coordinateRe 3"

definition drop_star :: "string \<Rightarrow> string" where
  "drop_star s = (if s \<noteq> [] \<and> hd s = CHR ''*'' then tl s else s)"

definition evseIDRe :: "string \<Rightarrow> bool" where
  "evseIDRe s \<longleftrightarrow>
     (let r1 = drop_star (drop 2 s); r2 = drop_star (drop 3 r1) in
      2 \<le> length s \<and> list_all is_alpha (take 2 s) \<and>
      3 \<le> length r1 \<and> list_all is_alnum (take 3 r1) \<and>
      r2 \<noteq> [] \<and> hd r2 \<in> {CHR ''E'', CHR ''e''} \<and>
      1 \<le> length (tl r2) \<and> length (tl r2) \<le> 30 \<and>
      list_all (\<lambda>c. is_alnum c \<or> c = CHR ''*'') (tl r2))"

subsection \<open>Hosts\<close>

definition isWildcardHost :: "string \<Rightarrow> bool" where
  "isWildcardHost host \<longleftrightarrow> host \<in> {[], ''0.0.0.0'', ''::'', ''[::]''}"

definition hostLabel :: "string \<Rightarrow> bool" where
  "hostLabel l \<longleftrightarrow> l \<noteq> [] \<and> length l \<le> 63 \<and> hd l \<noteq> CHR ''-'' \<and> last l \<noteq> CHR ''-'' \<and>
     list_all (\<lambda>c. is_alnum c \<or> c = CHR ''-'') l"

definition isHostname :: "string \<Rightarrow> bool" where
  "isHostname s \<longleftrightarrow> s \<noteq> [] \<and> length s \<le> 253 \<and> list_all hostLabel (split_on CHR ''.'' s)"

subsection \<open>Durations (duration.go)\<close>

definition parse_dur :: "Duration \<Rightarrow> Duration option" where
  "parse_dur d = map_option (\<lambda>v. d\<lparr>dur := v\<rparr>) (ParseDuration (raw d))"

definition setDefault :: "int \<Rightarrow> Duration \<Rightarrow> Duration" where
  "setDefault v d = d\<lparr>raw := Duration_String v, dur := v\<rparr>"

definition NewDuration :: "int \<Rightarrow> Duration" where
  "NewDuration v = \<lparr>raw = Duration_String v, dur = v\<rparr>"

definition positiveDuration ::
  "string \<Rightarrow> Duration \<Rightarrow> ValidationErrors \<Rightarrow> bool \<times> Duration \<times> ValidationErrors" where
  "positiveDuration path d v =
     (case parse_dur d of
        None \<Rightarrow> (False, d, add_error path (go_quote (raw d) @ '' is not a duration; want e.g. '' @ go_quote ''90s'') v)
      | Some d' \<Rightarrow>
          if dur d' \<le> 0 then (False, d', add_error path (''must be greater than zero, got '' @ raw d') v)
          else (True, d', v))"

subsection \<open>Sections\<close>

definition validateCharger :: "Charger \<Rightarrow> ValidationErrors \<Rightarrow> Charger \<times> ValidationErrors" where
  "validateCharger c v =
     (let (given, v) = required ''charger.id'' (ch_ID c) v;
          v = flag (given \<and> \<not> chargePointIDRe (ch_ID c)) ''charger.id'' (go_quote (ch_ID c) @
                      '' is not usable as a URL path segment; allowed: letters, digits and . _ : ~ - (max 48)'') v;
          ip = trim_space (ch_IP c);
          v = flag (ip \<noteq> [] \<and> \<not> ParseIP ip \<and> \<not> isHostname ip) ''charger.ip'' (go_quote ip @ '' is neither an IP address nor a hostname'') v;
          v = flag (ch_OCPPVersion c \<notin> set ocppVersions) ''charger.ocpp_version'' (go_quote (ch_OCPPVersion c) @
                      '' is not supported; want one of '' @ go_join '', '' (sorted_set ocppVersions)) v;
          (intervalOK, i, v) = positiveDuration ''charger.heartbeat_interval'' (ch_HeartbeatInterval c) v;
          (timeoutOK, t, v) = positiveDuration ''charger.heartbeat_timeout'' (ch_HeartbeatTimeout c) v;
          (_, k, v) = positiveDuration ''charger.call_timeout'' (ch_CallTimeout c) v;
          v = flag (intervalOK \<and> timeoutOK \<and> dur t \<le> dur i) ''charger.heartbeat_timeout''
                      (''must be greater than charger.heartbeat_interval ('' @ raw i @ ''), got '' @ raw t) v
      in (c\<lparr>ch_HeartbeatInterval := i, ch_HeartbeatTimeout := t, ch_CallTimeout := k\<rparr>, v))"

definition validateBind :: "string \<Rightarrow> string \<Rightarrow> ValidationErrors \<Rightarrow> (string \<times> int) option \<times> ValidationErrors" where
  "validateBind path bind v =
     (case required path bind v of
        (False, v) \<Rightarrow> (None, v)
      | (True, v) \<Rightarrow>
          (case SplitHostPort bind of
             None \<Rightarrow> (None, add_error path (go_quote bind @ '' is not a host:port address'') v)
           | Some (host, portStr) \<Rightarrow>
               (case atoi portStr of
                  None \<Rightarrow> (None, add_error path (go_quote bind @ '' does not have a valid port (1-65535)'') v)
                | Some port \<Rightarrow>
                    if port < 0 \<or> port > 65535
                    then (None, add_error path (go_quote bind @ '' does not have a valid port (1-65535)'') v)
                    else if port = 0
                    then (None, add_error path
                       ''port 0 picks a random port that nothing can be pointed at; choose a fixed port'' v)
                    else if host \<noteq> [] \<and> \<not> isWildcardHost host \<and> \<not> ParseIP host \<and> \<not> isHostname host
                    then (None, add_error path (go_quote host @ '' is not a valid host'') v)
                    else (Some (host, port), v))))"

definition validateServer :: "ServerConf \<Rightarrow> ValidationErrors \<Rightarrow> ValidationErrors" where
  "validateServer c v =
     (let (ocpp, v) = validateBind ''server.ocpp_bind'' (sv_OCPPBind c) v;
          (ocpi, v) = validateBind ''server.ocpi_bind'' (sv_OCPIBind c) v
      in case (ocpp, ocpi) of
           (Some (ocppHost, ocppPort), Some (ocpiHost, ocpiPort)) \<Rightarrow>
             flag (ocppPort = ocpiPort \<and> (ocppHost = ocpiHost \<or> isWildcardHost ocppHost \<or> isWildcardHost ocpiHost))
               ''server.ocpi_bind''
               (''cannot share port '' @ itoa ocpiPort @ '' with server.ocpp_bind ('' @ sv_OCPPBind c @ '')'') v
         | _ \<Rightarrow> v)"

definition validateAuth :: "Auth \<Rightarrow> ValidationErrors \<Rightarrow> ValidationErrors" where
  "validateAuth c v =
     (let (given, v) = required ''auth.default_id_tag'' (DefaultIDTag c) v in
      flag (given \<and> \<not> idTagRe (DefaultIDTag c)) ''auth.default_id_tag'' (go_quote (DefaultIDTag c) @
        '' is not a valid OCPP idTag; want 1-20 printable ASCII characters without spaces'') v)"

definition minTokenLen :: nat where "minTokenLen = 8"

definition validateToken :: "string \<Rightarrow> string \<Rightarrow> ValidationErrors \<Rightarrow> ValidationErrors" where
  "validateToken path token v =
     (case required path token v of
        (False, v) \<Rightarrow> v
      | (True, v) \<Rightarrow>
          let v = flag (length token < minTokenLen) path (''must be at least '' @ dec minTokenLen @ '' characters'') v
          in flag (list_ex (\<lambda>c. c \<in> {CHR '' '', CHR 0x09, CHR 0x0D, CHR 0x0A}) token)
               path ''must not contain whitespace'' v)"

text \<open>The checks of the advertised root and of the debounce time.\<close>

definition validateBaseURL ::
  "(string \<Rightarrow> string + string \<times> string) \<Rightarrow> string \<Rightarrow> ValidationErrors \<Rightarrow> ValidationErrors" where
  "validateBaseURL url_parse u v =
     (case required ''ocpi.public_base_url'' u v of
        (False, v) \<Rightarrow> v
      | (True, v) \<Rightarrow>
          (case url_parse u of
             Inl e \<Rightarrow> add_error ''ocpi.public_base_url'' (go_quote u @ '' is not a valid URL: '' @ e) v
           | Inr (scheme, host) \<Rightarrow>
               if scheme \<noteq> ''http'' \<and> scheme \<noteq> ''https''
               then add_error ''ocpi.public_base_url'' (go_quote u @ '' must use http or https'') v
               else if host = []
               then add_error ''ocpi.public_base_url'' (go_quote u @ '' is missing a host'') v
               else v))"

definition validateDebounce :: "Duration \<Rightarrow> ValidationErrors \<Rightarrow> Duration \<times> ValidationErrors" where
  "validateDebounce d v =
     (case parse_dur d of
        None \<Rightarrow> (d, add_error ''ocpi.push.debounce''
                      (go_quote (raw d) @ '' is not a duration; want e.g. '' @ go_quote ''500ms'') v)
      | Some d' \<Rightarrow> (d', flag (dur d' < 0) ''ocpi.push.debounce'' (''must not be negative, got '' @ raw d') v))"

definition validateOCPI ::
  "(string \<Rightarrow> string + string \<times> string) \<Rightarrow> OCPI \<Rightarrow> ValidationErrors \<Rightarrow> OCPI \<times> ValidationErrors" where
  "validateOCPI url_parse c v =
     (let (given, v) = required ''ocpi.country_code'' (oc_CountryCode c) v;
          v = flag (given \<and> \<not> countryCodeRe (oc_CountryCode c)) ''ocpi.country_code'' (go_quote (oc_CountryCode c) @
                      '' must be two uppercase letters, e.g. '' @ go_quote ''DE'') v;
          (given, v) = required ''ocpi.party_id'' (oc_PartyID c) v;
          v = flag (given \<and> \<not> partyIDRe (oc_PartyID c)) ''ocpi.party_id'' (go_quote (oc_PartyID c) @
                      '' must be three uppercase letters, e.g. '' @ go_quote ''FRY'') v;
          v = validateBaseURL url_parse (oc_PublicBaseURL c) v;
          v = validateToken ''ocpi.token_a'' (oc_TokenA c) v;
          v = validateToken ''ocpi.token_c'' (oc_TokenC c) v;
          v = flag (oc_TokenA c \<noteq> [] \<and> oc_TokenA c = oc_TokenC c) ''ocpi.token_c'' ''must differ from ocpi.token_a'' v;
          (d, v) = validateDebounce (pu_Debounce (oc_Push c)) v;
          v = flag (pu_MaxRetries (oc_Push c) < 0) ''ocpi.push.max_retries'' (''must not be negative, got '' @ itoa (pu_MaxRetries (oc_Push c))) v
      in (c\<lparr>oc_Push := (oc_Push c)\<lparr>pu_Debounce := d\<rparr>\<rparr>, v))"

text \<open>
  A coordinate that matches its pattern is a decimal number with at most seven decimals, which
  \<open>ParseFloat\<close> accepts. \<open>coord_value\<close> is the number in units of 10^-7: rounding to a double is
  monotone and keeps whole numbers, and a number of this form beyond a bound is at least 10^-7
  beyond it, so the comparison with the bound is the exact one. Outside the bounds the number
  has at most ten significant digits, so \<open>%v\<close> prints these digits without trailing zeros.
\<close>

definition dec_value :: "string \<Rightarrow> int" where
  "dec_value s = foldl (\<lambda>n c. 10 * n + int (char_digit c)) 0 s"

definition coord_value :: "string \<Rightarrow> int" where
  "coord_value s =
     (let u = unsigned_part s; a = takeWhile is_digit u; b = tl (dropWhile is_digit u);
          n = dec_value a * 10 ^ 7 + dec_value b * 10 ^ (7 - length b)
      in if u = s then n else - n)"

definition format_coord :: "string \<Rightarrow> string" where
  "format_coord s =
     (let u = unsigned_part s;
          a = dropWhile (\<lambda>c. c = CHR ''0'') (takeWhile is_digit u);
          b = rev (dropWhile (\<lambda>c. c = CHR ''0'') (rev (tl (dropWhile is_digit u))))
      in (if u = s then [] else ''-'') @ (if a = [] then ''0'' else a) @ (if b = [] then [] else CHR ''.'' # b))"

definition validateCoordinate ::
  "string \<Rightarrow> string \<Rightarrow> (string \<Rightarrow> bool) \<Rightarrow> int \<Rightarrow> int \<Rightarrow> ValidationErrors \<Rightarrow> ValidationErrors" where
  "validateCoordinate path val pattern lo hi v =
     (case required path val v of
        (False, v) \<Rightarrow> v
      | (True, v) \<Rightarrow>
          if \<not> pattern val
          then add_error path (go_quote val @
                 '' must be decimal degrees as a string with 5 to 7 decimal places, e.g. '' @ go_quote ''52.520008'') v
          else if coord_value val < lo * 10 ^ 7 \<or> coord_value val > hi * 10 ^ 7
          then add_error path (format_coord val @ '' is out of range ('' @ itoa lo @ '' to '' @ itoa hi @ '')'') v
          else v)"

text \<open>An enumeration field: it is required, and has to be a member.\<close>

definition validateEnum :: "string \<Rightarrow> string \<Rightarrow> string list \<Rightarrow> string \<Rightarrow> ValidationErrors \<Rightarrow> ValidationErrors" where
  "validateEnum path val members msg v =
     (let (given, v) = required path val v in
      flag (given \<and> val \<notin> set members) path (go_quote val @ msg) v)"

text \<open>The body of the loop over the connectors, and the loop.\<close>

definition check_connector ::
  "string \<Rightarrow> nat \<Rightarrow> Connector \<Rightarrow> (string \<rightharpoonup> nat) \<Rightarrow> ValidationErrors \<Rightarrow> (string \<rightharpoonup> nat) \<times> ValidationErrors" where
  "check_connector base j conn seen v =
     (let path = base @ ''.connectors['' @ dec j @ '']'';
          (given, v) = required (path @ ''.id'') (cn_ID conn) v;
          (seen, v) = (if \<not> given then (seen, v)
             else case seen (cn_ID conn) of
               Some first \<Rightarrow> (seen, add_error (path @ ''.id'') (go_quote (cn_ID conn) @ '' is already used by '' @
                                base @ ''.connectors['' @ dec first @ '']'') v)
             | None \<Rightarrow> (seen(cn_ID conn \<mapsto> j), v));
          v = validateEnum (path @ ''.standard'') (cn_Standard conn) connectorStandards
                '' is not an OCPI 2.3.0 ConnectorType'' v;
          v = validateEnum (path @ ''.format'') (cn_Format conn) connectorFormats
                ('' is not a ConnectorFormat; want one of '' @ go_join '', '' (sorted_set connectorFormats)) v;
          v = validateEnum (path @ ''.power_type'') (cn_PowerType conn) powerTypes
                ('' is not a PowerType; want one of '' @ go_join '', '' (sorted_set powerTypes)) v;
          v = flag (cn_MaxVoltage conn \<le> 0) (path @ ''.max_voltage'') (''must be greater than zero, got '' @ itoa (cn_MaxVoltage conn)) v;
          v = flag (cn_MaxAmperage conn \<le> 0) (path @ ''.max_amperage'') (''must be greater than zero, got '' @ itoa (cn_MaxAmperage conn)) v;
          v = flag (cn_MaxElectricPower conn < 0) (path @ ''.max_electric_power'')
                      (''must not be negative, got '' @ itoa (cn_MaxElectricPower conn)) v
      in (seen, v))"

fun connector_loop ::
  "string \<Rightarrow> nat \<Rightarrow> (string \<rightharpoonup> nat) \<Rightarrow> Connector list \<Rightarrow> ValidationErrors \<Rightarrow> ValidationErrors" where
  "connector_loop base j seen [] v = v"
| "connector_loop base j seen (conn # cs) v =
     (case check_connector base j conn seen v of (seen', v') \<Rightarrow> connector_loop base (Suc j) seen' cs v')"

definition validateConnectors :: "string \<Rightarrow> Connector list \<Rightarrow> ValidationErrors \<Rightarrow> ValidationErrors" where
  "validateConnectors base cs v =
     (if cs = [] then add_error (base @ ''.connectors'') ''at least one connector is required'' v
      else connector_loop base 0 Map.empty cs v)"

text \<open>The check of an id that has to be given, to satisfy its own checks, and to be new.\<close>

definition already_used :: "nat \<Rightarrow> string" where
  "already_used first = '' is already used by location.evses['' @ dec first @ '']''"

definition new_id :: "string \<Rightarrow> nat \<Rightarrow> string \<Rightarrow> (string \<rightharpoonup> nat) \<Rightarrow> ValidationErrors \<Rightarrow>
  (string \<rightharpoonup> nat) \<times> ValidationErrors" where
  "new_id path i val seen v =
     (case seen val of
        Some first \<Rightarrow> (seen, add_error path (go_quote val @ already_used first) v)
      | None \<Rightarrow> (seen(val \<mapsto> i), v))"

definition new_connector_id :: "string \<Rightarrow> nat \<Rightarrow> int \<Rightarrow> (int \<rightharpoonup> nat) \<Rightarrow> ValidationErrors \<Rightarrow>
  (int \<rightharpoonup> nat) \<times> ValidationErrors" where
  "new_connector_id base i k seen v =
     (if k < 1
      then (seen, add_error (base @ ''.ocpp_connector_id'')
              (''must be 1 or greater (0 addresses the charge point itself), got '' @ itoa k) v)
      else case seen k of
        Some first \<Rightarrow> (seen, add_error (base @ ''.ocpp_connector_id'')
              (itoa k @ '' is already mapped by location.evses['' @ dec first @ '']'') v)
      | None \<Rightarrow> (seen(k \<mapsto> i), v))"

type_synonym seen_ids = "(string \<rightharpoonup> nat) \<times> (int \<rightharpoonup> nat) \<times> (string \<rightharpoonup> nat)"

text \<open>The body of the loop over the EVSEs, with the three maps \<open>seenUID\<close>, \<open>seenConnectorID\<close> and
  \<open>seenEVSEID\<close>, and the loop.\<close>

definition check_evse :: "nat \<Rightarrow> EVSE \<Rightarrow> seen_ids \<Rightarrow> ValidationErrors \<Rightarrow> seen_ids \<times> ValidationErrors" where
  "check_evse i e seen v =
     (let (seenUID, seenConnectorID, seenEVSEID) = seen;
          base = ''location.evses['' @ dec i @ '']'';
          (given, v) = required (base @ ''.uid'') (ev_UID e) v;
          (seenUID, v) = (if \<not> given then (seenUID, v)
             else new_id (base @ ''.uid'') i (ev_UID e) seenUID
                    (flag (length (ev_UID e) > 36) (base @ ''.uid'') (''must be at most 36 characters (OCPI CiString36), got '' @
                            dec (length (ev_UID e))) v));
          (given, v) = required (base @ ''.evse_id'') (ev_EVSEID e) v;
          (seenEVSEID, v) = (if \<not> given then (seenEVSEID, v)
             else new_id (base @ ''.evse_id'') i (ev_EVSEID e) seenEVSEID
                    (flag (\<not> evseIDRe (ev_EVSEID e)) (base @ ''.evse_id'') (go_quote (ev_EVSEID e) @
                            '' does not look like an eMI3 EVSE ID, e.g. '' @ go_quote ''DE*FRY*E001*1'') v));
          (seenConnectorID, v) = new_connector_id base i (ev_OCPPConnectorID e) seenConnectorID v;
          v = validateConnectors base (ev_Connectors e) v
      in ((seenUID, seenConnectorID, seenEVSEID), v))"

fun evse_loop :: "nat \<Rightarrow> seen_ids \<Rightarrow> EVSE list \<Rightarrow> ValidationErrors \<Rightarrow> ValidationErrors" where
  "evse_loop i seen [] v = v"
| "evse_loop i seen (e # es) v =
     (case check_evse i e seen v of (seen', v') \<Rightarrow> evse_loop (Suc i) seen' es v')"

definition validateLocation :: "Location \<Rightarrow> ValidationErrors \<Rightarrow> ValidationErrors" where
  "validateLocation l v =
     (let (given, v) = required ''location.id'' (lo_ID l) v;
          v = flag (given \<and> length (lo_ID l) > 36) ''location.id'' (''must be at most 36 characters (OCPI CiString36), got '' @
                      dec (length (lo_ID l))) v;
          (_, v) = required ''location.address'' (lo_Address l) v;
          (_, v) = required ''location.city'' (lo_City l) v;
          (given, v) = required ''location.country'' (lo_Country l) v;
          v = flag (given \<and> \<not> alpha3Re (lo_Country l)) ''location.country'' (go_quote (lo_Country l) @
                      '' must be an ISO 3166-1 alpha-3 code, e.g. '' @ go_quote ''DEU'') v;
          v = validateCoordinate ''location.coordinates.latitude'' (co_Latitude (lo_Coordinates l)) latitudeRe (- 90) 90 v;
          v = validateCoordinate ''location.coordinates.longitude'' (co_Longitude (lo_Coordinates l)) longitudeRe (- 180) 180 v
      in if lo_EVSEs l = [] then add_error ''location.evses'' ''at least one EVSE is required'' v
         else evse_loop 0 (Map.empty, Map.empty, Map.empty) (lo_EVSEs l) v)"

definition Validate ::
  "(string \<Rightarrow> string + string \<times> string) \<Rightarrow> Config \<Rightarrow> ValidationErrors \<times> Config" where
  "Validate url_parse c =
     (let (charger, v) = validateCharger (cf_Charger c) [];
          v = validateServer (cf_Server c) v;
          v = validateAuth (cf_Auth c) v;
          (ocpi, v) = validateOCPI url_parse (cf_OCPI c) v;
          v = validateLocation (cf_Location c) v
      in (sortByPath v, c\<lparr>cf_Charger := charger, cf_OCPI := ocpi\<rparr>))"

end
