(* ===== verification/Config_Load.thy ===== *)
theory Config_Load
  imports Config_Validate
begin

text \<open>
  Reading the configuration (\<open>internal/config/load.go\<close> and the defaults of \<open>config.go\<close>), and what
  validation guarantees. The YAML decoder is a third-party library: its outcome on the first
  document and whether a second one follows are the arguments of \<open>parse_config\<close>.
\<close>

subsection \<open>When a check finds nothing\<close>

text \<open>Rules that say when a validator is still empty after a check.\<close>

named_theorems accept_iff \<open>when a check reports no problem\<close>

definition filled :: "string \<Rightarrow> bool" where
  "filled s \<longleftrightarrow> trim_space s \<noteq> []"

lemma add_error_nonempty [simp]: "add_error p m v \<noteq> []"
  by (simp add: add_error_def)

lemma flag_accept [accept_iff]: "flag b p m v = [] \<longleftrightarrow> v = [] \<and> \<not> b"
  by (simp add: flag_def)

lemma required_fst [simp]: "fst (required p s v) \<longleftrightarrow> filled s"
  by (simp add: required_def filled_def)

lemma required_accept [accept_iff]: "snd (required p s v) = [] \<longleftrightarrow> v = [] \<and> filled s"
  by (simp add: required_def filled_def)

definition positive_dur :: "Duration \<Rightarrow> bool" where
  "positive_dur d \<longleftrightarrow> (\<exists>v. ParseDuration (raw d) = Some v \<and> 0 < v)"

definition resolved :: "Duration \<Rightarrow> Duration" where
  "resolved d = (case ParseDuration (raw d) of None \<Rightarrow> d | Some v \<Rightarrow> d\<lparr>dur := v\<rparr>)"

lemma positiveDuration_simps [simp]:
  "fst (positiveDuration p d v) \<longleftrightarrow> positive_dur d"
  "fst (snd (positiveDuration p d v)) = resolved d"
  by (auto simp: positiveDuration_def parse_dur_def positive_dur_def resolved_def split: option.split)

lemma positiveDuration_accept [accept_iff]:
  "snd (snd (positiveDuration p d v)) = [] \<longleftrightarrow> v = [] \<and> positive_dur d"
  by (auto simp: positiveDuration_def parse_dur_def positive_dur_def split: option.split)

definition charger_ok :: "Charger \<Rightarrow> bool" where
  "charger_ok c \<longleftrightarrow>
     filled (ch_ID c) \<and> chargePointIDRe (ch_ID c) \<and>
     (trim_space (ch_IP c) = [] \<or> ParseIP (trim_space (ch_IP c)) \<or> isHostname (trim_space (ch_IP c))) \<and>
     ch_OCPPVersion c \<in> set ocppVersions \<and>
     positive_dur (ch_HeartbeatInterval c) \<and> positive_dur (ch_HeartbeatTimeout c) \<and> positive_dur (ch_CallTimeout c) \<and>
     dur (resolved (ch_HeartbeatInterval c)) < dur (resolved (ch_HeartbeatTimeout c))"

lemma validateCharger_accept [accept_iff]:
  "snd (validateCharger c v) = [] \<longleftrightarrow> v = [] \<and> charger_ok c"
  unfolding validateCharger_def Let_def case_prod_beta snd_conv
  by (simp add: accept_iff charger_ok_def) (auto simp: not_le)

lemma validateCharger_fst:
  "fst (validateCharger c v) =
     c\<lparr>ch_HeartbeatInterval := resolved (ch_HeartbeatInterval c),
       ch_HeartbeatTimeout := resolved (ch_HeartbeatTimeout c), ch_CallTimeout := resolved (ch_CallTimeout c)\<rparr>"
  unfolding validateCharger_def Let_def case_prod_beta by simp

definition bind_of :: "string \<Rightarrow> (string \<times> int) option" where
  "bind_of bind = fst (validateBind [] bind [])"

lemma validateBind_accept [accept_iff]:
  "snd (validateBind p b v) = [] \<longleftrightarrow> v = [] \<and> bind_of b \<noteq> None"
  by (auto simp: validateBind_def bind_of_def required_def split: option.split)

lemma validateBind_fst [simp]: "fst (validateBind p b v) = bind_of b"
  by (simp add: validateBind_def bind_of_def required_def split: option.split)

text \<open>Two listeners collide when they share a port, and a host or a wildcard.\<close>

definition collide :: "string \<times> int \<Rightarrow> string \<times> int \<Rightarrow> bool" where
  "collide a b \<longleftrightarrow> snd a = snd b \<and> (fst a = fst b \<or> isWildcardHost (fst a) \<or> isWildcardHost (fst b))"

text \<open>A usable listen address: a host and a port that a peer can be pointed at.\<close>

definition bind_ok :: "string \<Rightarrow> string \<times> int \<Rightarrow> bool" where
  "bind_ok b a \<longleftrightarrow>
     filled b \<and> (\<exists>ps. SplitHostPort b = Some (fst a, ps) \<and> atoi ps = Some (snd a)) \<and>
     1 \<le> snd a \<and> snd a \<le> 65535 \<and> (isWildcardHost (fst a) \<or> ParseIP (fst a) \<or> isHostname (fst a))"

lemma bind_of_iff: "bind_of b = Some a \<longleftrightarrow> bind_ok b a"
proof (cases "SplitHostPort b")
  case (Some hp)
  obtain h ps where hp: "SplitHostPort b = Some (h, ps)" using Some by (cases hp) blast
  have w: "h = [] \<Longrightarrow> isWildcardHost h" by (simp add: isWildcardHost_def)
  show ?thesis
  proof (cases "atoi ps")
    case (Some p)
    have "bind_of b = (if filled b \<and> 1 \<le> p \<and> p \<le> 65535 \<and> (isWildcardHost h \<or> ParseIP h \<or> isHostname h)
        then Some (h, p) else None)"
      using w by (simp add: bind_of_def validateBind_def required_def filled_def hp Some)
    then show ?thesis by (cases a) (simp add: bind_ok_def hp Some, blast)
  qed (simp add: bind_of_def bind_ok_def validateBind_def required_def hp)
qed (simp add: bind_of_def bind_ok_def validateBind_def required_def)

definition server_ok :: "ServerConf \<Rightarrow> bool" where
  "server_ok c \<longleftrightarrow> (\<exists>a b. bind_ok (sv_OCPPBind c) a \<and> bind_ok (sv_OCPIBind c) b \<and> \<not> collide a b)"

lemma validateServer_accept [accept_iff]: "validateServer c v = [] \<longleftrightarrow> v = [] \<and> server_ok c"
  unfolding validateServer_def Let_def case_prod_beta
  by (auto simp: accept_iff server_ok_def collide_def bind_of_iff [symmetric] split: option.split)

definition auth_ok :: "Auth \<Rightarrow> bool" where
  "auth_ok c \<longleftrightarrow> filled (DefaultIDTag c) \<and> idTagRe (DefaultIDTag c)"

lemma validateAuth_accept [accept_iff]: "validateAuth c v = [] \<longleftrightarrow> v = [] \<and> auth_ok c"
  by (auto simp: validateAuth_def Let_def case_prod_beta accept_iff auth_ok_def)

definition token_ok :: "string \<Rightarrow> bool" where
  "token_ok t \<longleftrightarrow> filled t \<and> minTokenLen \<le> length t \<and> set t \<inter> {CHR '' '', CHR 0x09, CHR 0x0D, CHR 0x0A} = {}"

lemma validateToken_accept [accept_iff]: "validateToken p t v = [] \<longleftrightarrow> v = [] \<and> token_ok t"
proof -
  have "(set t \<inter> A = {}) = (\<not> list_ex (\<lambda>c. c \<in> A) t)" for A
    unfolding list_ex_iff by blast
  then show ?thesis
    unfolding validateToken_def required_def token_ok_def filled_def
    by (cases "trim_space t = []") (simp_all only: accept_iff Let_def not_less add_error_nonempty if_True if_False
        case_prod_conv bool.case simp_thms conj_assoc)
qed

definition ocpi_ok :: "(string \<Rightarrow> string + string \<times> string) \<Rightarrow> OCPI \<Rightarrow> bool" where
  "ocpi_ok url_parse c \<longleftrightarrow>
     filled (oc_CountryCode c) \<and> countryCodeRe (oc_CountryCode c) \<and>
     filled (oc_PartyID c) \<and> partyIDRe (oc_PartyID c) \<and>
     filled (oc_PublicBaseURL c) \<and>
     (\<exists>scheme host. url_parse (oc_PublicBaseURL c) = Inr (scheme, host) \<and> scheme \<in> {''http'', ''https''} \<and> host \<noteq> []) \<and>
     token_ok (oc_TokenA c) \<and> token_ok (oc_TokenC c) \<and> oc_TokenA c \<noteq> oc_TokenC c \<and>
     (\<exists>v. ParseDuration (raw (pu_Debounce (oc_Push c))) = Some v \<and> 0 \<le> v) \<and> 0 \<le> pu_MaxRetries (oc_Push c)"

lemma validateBaseURL_accept [accept_iff]:
  "validateBaseURL url_parse u v = [] \<longleftrightarrow> v = [] \<and> filled u \<and>
     (\<exists>scheme host. url_parse u = Inr (scheme, host) \<and> scheme \<in> {''http'', ''https''} \<and> host \<noteq> [])"
  by (cases "url_parse u") (auto simp: validateBaseURL_def required_def filled_def split: if_splits)

lemma validateDebounce_accept [accept_iff]:
  "snd (validateDebounce d v) = [] \<longleftrightarrow> v = [] \<and> (\<exists>x. ParseDuration (raw d) = Some x \<and> 0 \<le> x)"
  by (auto simp: validateDebounce_def parse_dur_def accept_iff not_less split: option.split)

lemma validateDebounce_fst [simp]: "fst (validateDebounce d v) = resolved d"
  by (simp add: validateDebounce_def parse_dur_def resolved_def split: option.split)

lemma token_ok_nonempty: "token_ok t \<Longrightarrow> t \<noteq> []"
  by (auto simp: token_ok_def minTokenLen_def)

lemma validateOCPI_accept [accept_iff]: "snd (validateOCPI url_parse c v) = [] \<longleftrightarrow> v = [] \<and> ocpi_ok url_parse c"
  unfolding validateOCPI_def Let_def case_prod_beta snd_conv required_fst ocpi_ok_def
  by (simp only: accept_iff not_less) (use token_ok_nonempty in blast)

lemma validateOCPI_fst:
  "fst (validateOCPI url_parse c v) = c\<lparr>oc_Push := (oc_Push c)\<lparr>pu_Debounce := resolved (pu_Debounce (oc_Push c))\<rparr>\<rparr>"
  unfolding validateOCPI_def Let_def case_prod_beta by simp

definition coordinate_ok :: "(string \<Rightarrow> bool) \<Rightarrow> int \<Rightarrow> string \<Rightarrow> bool" where
  "coordinate_ok pattern bound s \<longleftrightarrow> filled s \<and> pattern s \<and> \<bar>coord_value s\<bar> \<le> bound * 10 ^ 7"

lemma validateCoordinate_accept [accept_iff]:
  "validateCoordinate p s pattern (- b) b v = [] \<longleftrightarrow> v = [] \<and> coordinate_ok pattern b s"
  unfolding validateCoordinate_def required_def coordinate_ok_def filled_def abs_le_iff
  by auto

lemma validateEnum_accept [accept_iff]:
  "validateEnum p s ms m v = [] \<longleftrightarrow> v = [] \<and> filled s \<and> s \<in> set ms"
  by (auto simp: validateEnum_def Let_def case_prod_beta accept_iff)

definition connector_fields_ok :: "Connector \<Rightarrow> bool" where
  "connector_fields_ok k \<longleftrightarrow>
     filled (cn_ID k) \<and> cn_Standard k \<in> set connectorStandards \<and> filled (cn_Standard k) \<and>
     cn_Format k \<in> set connectorFormats \<and> filled (cn_Format k) \<and>
     cn_PowerType k \<in> set powerTypes \<and> filled (cn_PowerType k) \<and>
     0 < cn_MaxVoltage k \<and> 0 < cn_MaxAmperage k \<and> 0 \<le> cn_MaxElectricPower k"

lemma check_connector_accept [accept_iff]:
  "snd (check_connector base j k seen v) = [] \<longleftrightarrow> v = [] \<and> connector_fields_ok k \<and> cn_ID k \<notin> dom seen"
  unfolding check_connector_def Let_def case_prod_beta snd_conv required_fst connector_fields_ok_def
  by (simp only: accept_iff) (auto simp: accept_iff split: option.split)

lemma check_connector_fst:
  "connector_fields_ok k \<Longrightarrow> cn_ID k \<notin> dom seen \<Longrightarrow> fst (check_connector base j k seen v) = seen(cn_ID k \<mapsto> j)"
  unfolding check_connector_def Let_def case_prod_beta fst_conv required_fst connector_fields_ok_def
  by (auto simp: dom_def split: option.split)

text \<open>An id seen once must not come again.\<close>

lemma fresh_upd:
  "(\<forall>k \<in> set ks. P k \<and> f k \<notin> dom (m(a \<mapsto> j))) \<longleftrightarrow> a \<notin> f ` set ks \<and> (\<forall>k \<in> set ks. P k \<and> f k \<notin> dom m)"
  unfolding dom_fun_upd by (simp add: image_iff) blast

lemma connector_loop_accept [accept_iff]:
  "connector_loop base j seen ks v = [] \<longleftrightarrow>
     v = [] \<and> (\<forall>k \<in> set ks. connector_fields_ok k \<and> cn_ID k \<notin> dom seen) \<and> distinct (map cn_ID ks)"
proof (induction ks arbitrary: j seen v)
  case (Cons k ks)
  obtain seen' v' where c: "check_connector base j k seen v = (seen', v')" by fastforce
  note a = check_connector_accept [of base j k seen v, unfolded c snd_conv]
  have s: "connector_fields_ok k \<and> cn_ID k \<notin> dom seen \<Longrightarrow> seen' = seen(cn_ID k \<mapsto> j)"
    using check_connector_fst [of k seen base j v] c by simp
  show ?case
  proof (cases "connector_fields_ok k \<and> cn_ID k \<notin> dom seen")
    case True
    then show ?thesis
      using a unfolding s [OF True] connector_loop.simps c case_prod_conv Cons.IH fresh_upd by auto
  next
    case False
    then show ?thesis using a unfolding connector_loop.simps c case_prod_conv Cons.IH by auto
  qed
qed simp

lemma validateConnectors_accept [accept_iff]:
  "validateConnectors base ks v = [] \<longleftrightarrow>
     v = [] \<and> ks \<noteq> [] \<and> (\<forall>k \<in> set ks. connector_fields_ok k) \<and> distinct (map cn_ID ks)"
  by (auto simp: validateConnectors_def accept_iff)

definition evse_ok :: "EVSE \<Rightarrow> bool" where
  "evse_ok e \<longleftrightarrow>
     filled (ev_UID e) \<and> length (ev_UID e) \<le> 36 \<and> filled (ev_EVSEID e) \<and> evseIDRe (ev_EVSEID e) \<and>
     1 \<le> ev_OCPPConnectorID e \<and> ev_Connectors e \<noteq> [] \<and>
     (\<forall>k \<in> set (ev_Connectors e). connector_fields_ok k) \<and> distinct (map cn_ID (ev_Connectors e))"

definition fresh_evse :: "seen_ids \<Rightarrow> EVSE \<Rightarrow> bool" where
  "fresh_evse seen e \<longleftrightarrow> (case seen of (u, k, n) \<Rightarrow>
     ev_UID e \<notin> dom u \<and> ev_OCPPConnectorID e \<notin> dom k \<and> ev_EVSEID e \<notin> dom n)"

lemma new_id_accept [accept_iff]: "snd (new_id p i x seen v) = [] \<longleftrightarrow> v = [] \<and> x \<notin> dom seen"
  by (auto simp: new_id_def split: option.split)

lemma new_id_fst: "x \<notin> dom seen \<Longrightarrow> fst (new_id p i x seen v) = seen(x \<mapsto> i)"
  by (auto simp: new_id_def dom_def split: option.split)

lemma given_accept [accept_iff]: "snd (if \<not> b then (m, v) else r) = [] \<longleftrightarrow> (if b then snd r = [] else v = [])"
  by simp

lemma new_connector_id_accept [accept_iff]:
  "snd (new_connector_id base i k seen v) = [] \<longleftrightarrow> v = [] \<and> 1 \<le> k \<and> k \<notin> dom seen"
  by (auto simp: new_connector_id_def split: option.split)

lemma new_connector_id_fst:
  "1 \<le> k \<Longrightarrow> k \<notin> dom seen \<Longrightarrow> fst (new_connector_id base i k seen v) = seen(k \<mapsto> i)"
  by (auto simp: new_connector_id_def dom_def split: option.split)

lemma check_evse_accept [accept_iff]:
  "snd (check_evse i e seen v) = [] \<longleftrightarrow> v = [] \<and> evse_ok e \<and> fresh_evse seen e"
  unfolding check_evse_def Let_def case_prod_beta snd_conv required_fst evse_ok_def fresh_evse_def
  by (simp only: accept_iff) auto

lemma check_evse_fst:
  "evse_ok e \<Longrightarrow> fresh_evse (u, k, n) e \<Longrightarrow> fst (check_evse i e (u, k, n) v) =
     (u(ev_UID e \<mapsto> i), k(ev_OCPPConnectorID e \<mapsto> i), n(ev_EVSEID e \<mapsto> i))"
  unfolding check_evse_def Let_def case_prod_beta fst_conv snd_conv required_fst evse_ok_def fresh_evse_def
  by (simp add: new_id_fst new_connector_id_fst)

lemma fresh3:
  assumes "\<And>x. G x \<longleftrightarrow> F x \<and> u x \<noteq> u e \<and> k x \<noteq> k e \<and> n x \<noteq> n e"
  shows "(\<forall>x \<in> S. A x \<and> G x) \<longleftrightarrow> (\<forall>x \<in> S. A x \<and> F x) \<and> u e \<notin> u ` S \<and> k e \<notin> k ` S \<and> n e \<notin> n ` S"
  unfolding assms image_iff by (auto simp: ball_conj_distrib)

lemma evse_loop_accept [accept_iff]:
  "evse_loop i seen es v = [] \<longleftrightarrow>
     v = [] \<and> (\<forall>e \<in> set es. evse_ok e \<and> fresh_evse seen e) \<and>
     distinct (map ev_UID es) \<and> distinct (map ev_OCPPConnectorID es) \<and> distinct (map ev_EVSEID es)"
proof (induction es arbitrary: i seen v)
  case (Cons e es)
  obtain u k n where seen: "seen = (u, k, n)" by (cases seen)
  obtain seen' v' where c: "check_evse i e seen v = (seen', v')" by fastforce
  note a = check_evse_accept [of i e seen v, unfolded c snd_conv]
  have s: "evse_ok e \<and> fresh_evse seen e \<Longrightarrow>
      seen' = (u(ev_UID e \<mapsto> i), k(ev_OCPPConnectorID e \<mapsto> i), n(ev_EVSEID e \<mapsto> i))"
    using check_evse_fst [of e u k n i v] c by (simp add: seen)
  show ?case
  proof (cases "evse_ok e \<and> fresh_evse seen e")
    case True
    have "fresh_evse seen' x \<longleftrightarrow> fresh_evse seen x \<and> ev_UID x \<noteq> ev_UID e \<and>
        ev_OCPPConnectorID x \<noteq> ev_OCPPConnectorID e \<and> ev_EVSEID x \<noteq> ev_EVSEID e" for x
      unfolding s [OF True] seen fresh_evse_def prod.case dom_fun_upd by auto
    note f = fresh3 [of "fresh_evse seen'" "fresh_evse seen" ev_UID e ev_OCPPConnectorID ev_EVSEID "set es" evse_ok, OF this]
    show ?thesis
      using a True f unfolding evse_loop.simps c case_prod_conv Cons.IH
      by (simp only: list.map distinct.simps list.set ball_simps set_map) blast
  next
    case False
    then show ?thesis
      using a unfolding evse_loop.simps c case_prod_conv Cons.IH by (simp only: list.set ball_simps) blast
  qed
qed simp

definition location_ok :: "Location \<Rightarrow> bool" where
  "location_ok l \<longleftrightarrow>
     filled (lo_ID l) \<and> length (lo_ID l) \<le> 36 \<and> filled (lo_Address l) \<and> filled (lo_City l) \<and>
     filled (lo_Country l) \<and> alpha3Re (lo_Country l) \<and>
     coordinate_ok latitudeRe 90 (co_Latitude (lo_Coordinates l)) \<and>
     coordinate_ok longitudeRe 180 (co_Longitude (lo_Coordinates l)) \<and>
     lo_EVSEs l \<noteq> [] \<and> (\<forall>e \<in> set (lo_EVSEs l). evse_ok e) \<and>
     distinct (map ev_UID (lo_EVSEs l)) \<and> distinct (map ev_OCPPConnectorID (lo_EVSEs l)) \<and>
     distinct (map ev_EVSEID (lo_EVSEs l))"

lemma fresh_evse_empty [simp]: "fresh_evse (Map.empty, Map.empty, Map.empty) e"
  by (simp add: fresh_evse_def)

lemma evses_accept [accept_iff]:
  "(if es = [] then add_error p m v else evse_loop 0 (Map.empty, Map.empty, Map.empty) es v) = [] \<longleftrightarrow>
   v = [] \<and> es \<noteq> [] \<and> (\<forall>e \<in> set es. evse_ok e) \<and> distinct (map ev_UID es) \<and>
   distinct (map ev_OCPPConnectorID es) \<and> distinct (map ev_EVSEID es)"
  by (simp add: evse_loop_accept)

lemma validateLocation_accept [accept_iff]: "validateLocation l v = [] \<longleftrightarrow> v = [] \<and> location_ok l"
  unfolding validateLocation_def Let_def case_prod_beta required_fst location_ok_def
  by (simp only: accept_iff not_less) auto

lemma sortByPath_empty [simp]: "sortByPath v = [] \<longleftrightarrow> v = []"
  unfolding sortByPath_def by (metis length_0_conv length_sort)

definition config_ok :: "(string \<Rightarrow> string + string \<times> string) \<Rightarrow> Config \<Rightarrow> bool" where
  "config_ok url_parse c \<longleftrightarrow>
     charger_ok (cf_Charger c) \<and> server_ok (cf_Server c) \<and> auth_ok (cf_Auth c) \<and>
     ocpi_ok url_parse (cf_OCPI c) \<and> location_ok (cf_Location c)"

lemma Validate_accept: "fst (Validate url_parse c) = [] \<longleftrightarrow> config_ok url_parse c"
  unfolding Validate_def Let_def case_prod_beta fst_conv sortByPath_empty config_ok_def
  by (simp only: accept_iff simp_thms) blast

text \<open>Validation changes nothing but the durations it resolves.\<close>

definition resolve_config :: "Config \<Rightarrow> Config" where
  "resolve_config c =
     c\<lparr>cf_Charger := (cf_Charger c)
         \<lparr>ch_HeartbeatInterval := resolved (ch_HeartbeatInterval (cf_Charger c)),
          ch_HeartbeatTimeout := resolved (ch_HeartbeatTimeout (cf_Charger c)),
          ch_CallTimeout := resolved (ch_CallTimeout (cf_Charger c))\<rparr>,
       cf_OCPI := (cf_OCPI c)\<lparr>oc_Push := (oc_Push (cf_OCPI c))
         \<lparr>pu_Debounce := resolved (pu_Debounce (oc_Push (cf_OCPI c)))\<rparr>\<rparr>\<rparr>"

lemma Validate_snd: "snd (Validate url_parse c) = resolve_config c"
  unfolding Validate_def Let_def case_prod_beta snd_conv resolve_config_def validateCharger_fst validateOCPI_fst ..

lemma resolved_idem [simp]: "resolved (resolved d) = resolved d" "raw (resolved d) = raw d"
  by (simp_all add: resolved_def split: option.split)

lemma positive_resolved [simp]: "positive_dur (resolved d) = positive_dur d"
  by (simp add: positive_dur_def)

lemma config_ok_resolve [simp]: "config_ok url_parse (resolve_config c) = config_ok url_parse c"
  by (simp add: config_ok_def resolve_config_def charger_ok_def ocpi_ok_def)

lemma resolve_config_idem [simp]: "resolve_config (resolve_config c) = resolve_config c"
  by (simp add: resolve_config_def)

subsection \<open>Normalising and defaults\<close>

definition normalize_connector :: "Connector \<Rightarrow> Connector" where
  "normalize_connector k =
     k\<lparr>cn_ID := trim_space (cn_ID k), cn_Standard := trim_space (cn_Standard k),
       cn_Format := trim_space (cn_Format k), cn_PowerType := trim_space (cn_PowerType k)\<rparr>"

definition normalize_evse :: "EVSE \<Rightarrow> EVSE" where
  "normalize_evse e =
     e\<lparr>ev_UID := trim_space (ev_UID e), ev_EVSEID := trim_space (ev_EVSEID e),
       ev_Connectors := map normalize_connector (ev_Connectors e)\<rparr>"

definition normalize_config :: "Config \<Rightarrow> Config" where
  "normalize_config c =
     c\<lparr>cf_Charger := (cf_Charger c)
         \<lparr>ch_ID := trim_space (ch_ID (cf_Charger c)), ch_IP := trim_space (ch_IP (cf_Charger c)),
          ch_OCPPVersion := trim_space (ch_OCPPVersion (cf_Charger c))\<rparr>,
       cf_Server := (cf_Server c)
         \<lparr>sv_OCPPBind := trim_space (sv_OCPPBind (cf_Server c)), sv_OCPIBind := trim_space (sv_OCPIBind (cf_Server c))\<rparr>,
       cf_Auth := (cf_Auth c)\<lparr>DefaultIDTag := trim_space (DefaultIDTag (cf_Auth c))\<rparr>,
       cf_OCPI := (cf_OCPI c)
         \<lparr>oc_CountryCode := trim_space (oc_CountryCode (cf_OCPI c)), oc_PartyID := trim_space (oc_PartyID (cf_OCPI c)),
          oc_PublicBaseURL := drop_while_end CHR ''/'' (trim_space (oc_PublicBaseURL (cf_OCPI c))),
          oc_TokenA := trim_space (oc_TokenA (cf_OCPI c)), oc_TokenC := trim_space (oc_TokenC (cf_OCPI c))\<rparr>,
       cf_Location := (cf_Location c)
         \<lparr>lo_ID := trim_space (lo_ID (cf_Location c)), lo_Country := trim_space (lo_Country (cf_Location c)),
          lo_Coordinates :=
            \<lparr>co_Latitude = trim_space (co_Latitude (lo_Coordinates (cf_Location c))),
             co_Longitude = trim_space (co_Longitude (lo_Coordinates (cf_Location c)))\<rparr>,
          lo_EVSEs := map normalize_evse (lo_EVSEs (cf_Location c))\<rparr>\<rparr>"

definition DefaultOCPPVersion :: string where "DefaultOCPPVersion = ''1.6''"
definition DefaultHeartbeatInterval :: int where "DefaultHeartbeatInterval = 60 * second"
definition DefaultHeartbeatTimeout :: int where "DefaultHeartbeatTimeout = 90 * second"
definition DefaultCallTimeout :: int where "DefaultCallTimeout = 30 * second"
definition DefaultOCPPBind :: string where "DefaultOCPPBind = ''0.0.0.0:9000''"
definition DefaultOCPIBind :: string where "DefaultOCPIBind = ''0.0.0.0:8080''"
definition DefaultPushDebounce :: int where "DefaultPushDebounce = 500000000"
definition DefaultPushMaxRetries :: int where "DefaultPushMaxRetries = 5"

definition or_default :: "int \<Rightarrow> Duration \<Rightarrow> Duration" where
  "or_default v d = (if unset d then setDefault v d else d)"

definition applyDefaults :: "Config \<Rightarrow> Config" where
  "applyDefaults c =
     c\<lparr>cf_Charger := (cf_Charger c)
         \<lparr>ch_OCPPVersion := if ch_OCPPVersion (cf_Charger c) = [] then DefaultOCPPVersion else ch_OCPPVersion (cf_Charger c),
          ch_HeartbeatInterval := or_default DefaultHeartbeatInterval (ch_HeartbeatInterval (cf_Charger c)),
          ch_HeartbeatTimeout := or_default DefaultHeartbeatTimeout (ch_HeartbeatTimeout (cf_Charger c)),
          ch_CallTimeout := or_default DefaultCallTimeout (ch_CallTimeout (cf_Charger c))\<rparr>,
       cf_Server := (cf_Server c)
         \<lparr>sv_OCPPBind := if sv_OCPPBind (cf_Server c) = [] then DefaultOCPPBind else sv_OCPPBind (cf_Server c),
          sv_OCPIBind := if sv_OCPIBind (cf_Server c) = [] then DefaultOCPIBind else sv_OCPIBind (cf_Server c)\<rparr>,
       cf_OCPI := (cf_OCPI c)\<lparr>oc_Push :=
         \<lparr>pu_Debounce = or_default DefaultPushDebounce (pu_Debounce (oc_Push (cf_OCPI c))),
          pu_MaxRetries = if pu_MaxRetries (oc_Push (cf_OCPI c)) = 0 then DefaultPushMaxRetries
                          else pu_MaxRetries (oc_Push (cf_OCPI c))\<rparr>\<rparr>\<rparr>"

subsection \<open>Parsing\<close>

text \<open>
  What the YAML decoder makes of the text: nothing to read, a list of type errors, any other
  error, or a configuration. \<open>extra_doc\<close> is the outcome of decoding once more.
\<close>

datatype yaml_outcome = YamlEOF | YamlTypeErrors "string list" | YamlError string | YamlConfig Config

datatype extra_doc = NoMore | MoreDocument | MoreMalformed

definition typeYAMLPath :: "(string \<times> string) list" where
  "typeYAMLPath =
     [(''config.Config'', []), (''config.Charger'', ''charger''), (''config.Server'', ''server''),
      (''config.Auth'', ''auth''), (''config.OCPI'', ''ocpi''), (''config.Push'', ''ocpi.push''),
      (''config.Location'', ''location''), (''config.Coordinates'', ''location.coordinates''),
      (''config.EVSE'', ''location.evses[]''), (''config.Connector'', ''location.evses[].connectors[]'')]"

text \<open>\<open>lineRe\<close>: the line number and the rest, which must not contain a newline.\<close>

definition lineRe :: "string \<Rightarrow> (string \<times> string) option" where
  "lineRe msg =
     (case strip_prefix ''line '' msg of
        None \<Rightarrow> None
      | Some r \<Rightarrow>
          let n = takeWhile is_digit r in
          (case strip_prefix '': '' (dropWhile is_digit r) of
             None \<Rightarrow> None
           | Some m \<Rightarrow> if n = [] \<or> CHR 0x0A \<in> set m then None else Some (n, m)))"

definition space_class :: "char \<Rightarrow> bool" where
  "space_class c \<longleftrightarrow> c \<in> {CHR '' '', CHR 0x09, CHR 0x0A, CHR 0x0C, CHR 0x0D}"

text \<open>\<open>unknownFieldRe\<close>: line, field and type, the last two without white space.\<close>

definition unknownFieldRe :: "string \<Rightarrow> (string \<times> string \<times> string) option" where
  "unknownFieldRe msg =
     (case lineRe msg of
        None \<Rightarrow> None
      | Some (n, m) \<Rightarrow>
          (case strip_prefix ''field '' m of
             None \<Rightarrow> None
           | Some r \<Rightarrow>
               let f = takeWhile (\<lambda>c. \<not> space_class c) r in
               (case strip_prefix '' not found in type '' (dropWhile (\<lambda>c. \<not> space_class c) r) of
                  None \<Rightarrow> None
                | Some t \<Rightarrow> if f = [] \<or> t = [] \<or> list_ex space_class t then None else Some (n, f, t))))"

definition yaml_problem :: "string \<Rightarrow> FieldError" where
  "yaml_problem msg =
     (case unknownFieldRe msg of
        Some (line, field, typeName) \<Rightarrow>
          \<lparr>Path = (case map_of typeYAMLPath typeName of
                     Some prefix \<Rightarrow> if prefix \<noteq> [] then prefix @ ''.'' @ field else field
                   | None \<Rightarrow> field),
           Msg = ''unknown field (line '' @ line @ '')''\<rparr>
      | None \<Rightarrow>
          (case lineRe msg of
             Some (line, m) \<Rightarrow> \<lparr>Path = ''line '' @ line, Msg = m\<rparr>
           | None \<Rightarrow> \<lparr>Path = [], Msg = msg\<rparr>))"

definition yamlErrors :: "string list + string \<Rightarrow> ValidationErrors" where
  "yamlErrors e =
     (case e of
        Inl msgs \<Rightarrow> map yaml_problem msgs
      | Inr m \<Rightarrow> [\<lparr>Path = [], Msg = (case strip_prefix ''yaml: '' m of Some r \<Rightarrow> r | None \<Rightarrow> m)\<rparr>])"

definition parse_config ::
  "(string \<Rightarrow> string + string \<times> string) \<Rightarrow> yaml_outcome \<Rightarrow> extra_doc \<Rightarrow> ValidationErrors + Config" where
  "parse_config url_parse first extra =
     (case first of
        YamlEOF \<Rightarrow> Inl [\<lparr>Path = [], Msg = ''file is empty''\<rparr>]
      | YamlTypeErrors msgs \<Rightarrow> Inl (yamlErrors (Inl msgs))
      | YamlError m \<Rightarrow> Inl (yamlErrors (Inr m))
      | YamlConfig c \<Rightarrow>
          if extra = MoreDocument then Inl [\<lparr>Path = [], Msg = ''file contains more than one YAML document''\<rparr>]
          else (case Validate url_parse (applyDefaults (normalize_config c)) of
                  (errs, c') \<Rightarrow> if errs = [] then Inr c' else Inl errs))"

end
