(* ===== verification/Cli.thy ===== *)
theory Cli
  imports Csms_Server State_Store Simulator_Run Config_Load
begin

text \<open>
  The command line (\<open>internal/cli\<close>, \<open>cmd/cpms\<close> and \<open>internal/buildinfo\<close>): where the files are, what
  the commands print, how \<open>cpms run\<close> sets up the server and how \<open>cpms simulate charger\<close> fills in
  its options. (The command tree and the exit are in \<open>Cli_Main\<close>; flag parsing, signals and the loggers
  belong to the libraries the program calls.) What a command writes is its text on the stream of \<open>cmd.Printf\<close>, on the
  standard output and on the standard error; the alignment of tables (\<open>text/tabwriter\<close>) is the
  argument \<open>align\<close>.
\<close>

abbreviation nl :: string where "nl \<equiv> [CHR 0x0A]"
abbreviation tab :: string where "tab \<equiv> [CHR 0x09]"

subsection \<open>Paths (\<open>path/filepath\<close> on Unix)\<close>

text \<open>The elements of a cleaned path; \<open>rooted\<close> says whether it starts with a slash. A dot-dot
  removes the element before it, and stays where there is none to remove and no root.\<close>

fun path_elems :: "bool \<Rightarrow> string list \<Rightarrow> string list \<Rightarrow> string list" where
  "path_elems rooted [] acc = rev acc"
| "path_elems rooted (e # es) acc =
     (if e = [] \<or> e = ''.'' then path_elems rooted es acc
      else if e = ''..''
      then path_elems rooted es
             (if acc \<noteq> [] \<and> hd acc \<noteq> ''..'' then tl acc else if rooted then acc else ''..'' # acc)
      else path_elems rooted es (e # acc))"

definition is_rooted :: "string \<Rightarrow> bool" where
  "is_rooted p \<longleftrightarrow> p \<noteq> [] \<and> hd p = CHR ''/''"

definition show_path :: "bool \<Rightarrow> string list \<Rightarrow> string" where
  "show_path rooted es =
     (if rooted then CHR ''/'' # go_join ''/'' es else if es = [] then ''.'' else go_join ''/'' es)"

definition filepath_Clean :: "string \<Rightarrow> string" where
  "filepath_Clean p = show_path (is_rooted p) (path_elems (is_rooted p) (split_on CHR ''/'' p) [])"

definition filepath_Dir :: "string \<Rightarrow> string" where
  "filepath_Dir p =
     filepath_Clean (case last_index_of CHR ''/'' p of None \<Rightarrow> [] | Some i \<Rightarrow> take (Suc i) p)"

definition filepath_Join :: "string \<Rightarrow> string \<Rightarrow> string" where
  "filepath_Join a b =
     (if a \<noteq> [] then filepath_Clean (a @ ''/'' @ b) else if b \<noteq> [] then filepath_Clean b else [])"

subsection \<open>Shared settings (root.go, main.go)\<close>

definition DefaultConfigPath :: string where "DefaultConfigPath = ''config.yaml''"
definition DefaultStateFile :: string where "DefaultStateFile = ''state.json''"

record cli_options =
  configPath :: string
  statePath :: string

definition resolvedStatePath :: "cli_options \<Rightarrow> string" where
  "resolvedStatePath g =
     (if statePath g \<noteq> [] then statePath g
      else filepath_Join (filepath_Dir (configPath g)) DefaultStateFile)"

datatype cli_error = ErrSilent | CliError string

record streams =
  printed :: string
  stdout :: string
  stderr :: string

definition quiet :: streams where
  "quiet = \<lparr>printed = [], stdout = [], stderr = []\<rparr>"

text \<open>\<open>main\<close>: what is added to the standard error, and the exit code.\<close>

definition main_exit :: "cli_error option \<Rightarrow> string \<times> int" where
  "main_exit e =
     (case e of
        None \<Rightarrow> ([], 0)
      | Some ErrSilent \<Rightarrow> ([], 1)
      | Some (CliError m) \<Rightarrow> (''cpms: '' @ m @ nl, 1))"

subsection \<open>The summary (summary.go)\<close>

definition plural :: "nat \<Rightarrow> string \<Rightarrow> string" where
  "plural n noun = (if n = 1 then dec n @ '' '' @ noun else dec n @ '' '' @ noun @ ''s'')"

definition connectorSummary :: "Connector list \<Rightarrow> string" where
  "connectorSummary cs =
     go_join '', '' (map (\<lambda>c. cn_Standard c @ ''/'' @ cn_Format c @ ''/'' @ cn_PowerType c @ '' '' @
       itoa (cn_MaxVoltage c) @ ''V '' @ itoa (cn_MaxAmperage c) @ ''A'') cs)"

text \<open>The dash of the line is the UTF-8 form of U+2014.\<close>

definition locationLine :: "Config \<Rightarrow> string" where
  "locationLine conf =
     (let l = cf_Location conf;
          s = lo_ID l;
          s = (if lo_Name l \<noteq> [] then s @ '' '' @ go_quote (lo_Name l) else s);
          s = (if lo_City l \<noteq> [] then s @ '', '' @ lo_City l else s);
          s = s @ '' ('' @ lo_Country l @ '')'';
          connectors = sum_list (map (\<lambda>e. length (ev_Connectors e)) (lo_EVSEs l))
      in s @ [CHR '' '', CHR 0xE2, CHR 0x80, CHR 0x94, CHR '' ''] @
         plural (length (lo_EVSEs l)) ''EVSE'' @ '', '' @ plural connectors ''connector'')"

definition csmsURL :: "Config \<Rightarrow> string" where
  "csmsURL conf =
     (case SplitHostPort (sv_OCPPBind (cf_Server conf)) of
        None \<Rightarrow> ''ws://'' @ sv_OCPPBind (cf_Server conf) @ ''/ocpp/'' @ ch_ID (cf_Charger conf)
      | Some (host, port) \<Rightarrow>
          let host = (if host \<in> {[], ''0.0.0.0'', ''::'', ''[::]''} then ''<this-host>'' else host)
          in ''ws://'' @ host @ '':'' @ port @ ''/ocpp/'' @ ch_ID (cf_Charger conf))"

definition printSummary :: "(string \<Rightarrow> string) \<Rightarrow> Config \<Rightarrow> string \<Rightarrow> string" where
  "printSummary align conf path =
     (let charger = ch_ID (cf_Charger conf) @ ''  (OCPP '' @ ch_OCPPVersion (cf_Charger conf) @ '')'';
          charger = (if ch_IP (cf_Charger conf) \<noteq> [] then charger @ ''  at '' @ ch_IP (cf_Charger conf) else charger);
          line = (\<lambda>name val. ''  '' @ name @ tab @ val @ nl)
      in align
          (line ''Charge point'' charger @
           line ''OCPP listener'' (sv_OCPPBind (cf_Server conf)) @
           line ''Station CSMS URL'' (csmsURL conf) @
           line ''Heartbeat timeout'' (raw (ch_HeartbeatTimeout (cf_Charger conf))) @
           line ''OCPI listener'' (sv_OCPIBind (cf_Server conf)) @
           line ''OCPI advertised as'' (oc_PublicBaseURL (cf_OCPI conf)) @
           line ''OCPI party'' (oc_CountryCode (cf_OCPI conf) @ ''*'' @ oc_PartyID (cf_OCPI conf)) @
           line ''Default RFID tag'' (DefaultIDTag (cf_Auth conf)) @
           line ''Location'' (locationLine conf) @
           line ''State file'' path) @
         nl @
         align
          (''  EVSE'' @ tab @ ''EVSE ID'' @ tab @ ''OCPP CONNECTOR'' @ tab @ ''CONNECTORS'' @ nl @
           concat (map (\<lambda>e. ''  '' @ ev_UID e @ tab @ ev_EVSEID e @ tab @ itoa (ev_OCPPConnectorID e) @ tab @
             connectorSummary (ev_Connectors e) @ nl) (lo_EVSEs (cf_Location conf)))))"

subsection \<open>Loading and validating (config.go)\<close>

definition printValidationReport :: "string \<Rightarrow> ValidationErrors \<Rightarrow> string" where
  "printValidationReport path errs =
     path @ '' is not valid:'' @ nl @ nl @
     concat (map (\<lambda>fe. if Path fe = [] then ''  '' @ Msg fe @ nl else ''  '' @ Path fe @ '': '' @ Msg fe @ nl) errs) @
     (if length errs = 1 then nl @ ''1 problem found.'' @ nl
      else nl @ dec (length errs) @ '' problems found.'' @ nl)"

text \<open>\<open>config.Load\<close> either cannot open the file, for the reason given, or parses its text.\<close>

type_synonym load_outcome = "string + (ValidationErrors + Config)"

definition loadConfig :: "cli_options \<Rightarrow> load_outcome \<Rightarrow> streams \<times> (cli_error + Config)" where
  "loadConfig g load =
     (case load of
        Inr (Inr conf) \<Rightarrow> (quiet, Inr conf)
      | Inl err \<Rightarrow> (quiet, Inl (CliError (''reading '' @ configPath g @ '': '' @ err)))
      | Inr (Inl verrs) \<Rightarrow> (quiet\<lparr>stderr := printValidationReport (configPath g) verrs\<rparr>, Inl ErrSilent))"

definition configValidate :: "(string \<Rightarrow> string) \<Rightarrow> cli_options \<Rightarrow> load_outcome \<Rightarrow> streams \<times> cli_error option" where
  "configValidate align g load =
     (case loadConfig g load of
        (w, Inl e) \<Rightarrow> (w, Some e)
      | (w, Inr conf) \<Rightarrow>
          (w\<lparr>printed := configPath g @ '' is valid.'' @ nl @ nl,
             stdout := printSummary align conf (resolvedStatePath g)\<rparr>, None))"

subsection \<open>Running the CSMS (run.go)\<close>

datatype log_level = LevelDebug | LevelInfo | LevelWarn | LevelError

text \<open>
  \<open>strings.ToLower\<close>, as far as its result can be one of the ASCII names below: U+0130 becomes
  an \<open>i\<close> and U+212A a \<open>k\<close>, the other letters outside ASCII stay outside.
\<close>

fun to_lower :: "string \<Rightarrow> string" where
  "to_lower (a # b # c # s) =
     (if [a, b] = [CHR 0xC4, CHR 0xB0] then CHR ''i'' # to_lower (c # s)
      else if [a, b, c] = [CHR 0xE2, CHR 0x84, CHR 0xAA] then CHR ''k'' # to_lower s
      else fold_char a # to_lower (b # c # s))"
| "to_lower [a, b] = (if [a, b] = [CHR 0xC4, CHR 0xB0] then ''i'' else [fold_char a, fold_char b])"
| "to_lower [a] = [fold_char a]"
| "to_lower [] = []"

definition newLogger :: "string \<Rightarrow> string + log_level" where
  "newLogger level =
     (let l = to_lower level in
      if l = ''debug'' then Inr LevelDebug
      else if l = ''info'' then Inr LevelInfo
      else if l = ''warn'' \<or> l = ''warning'' then Inr LevelWarn
      else if l = ''error'' then Inr LevelError
      else Inl (''unknown log level '' @ go_quote level @ ''; want debug, info, warn or error''))"

definition run_options :: "Config \<Rightarrow> csms_Options" where
  "run_options conf =
     \<lparr>cs_Bind = sv_OCPPBind (cf_Server conf), cs_Core = Some (New (Some conf)), cs_Handlers = {Version16},
      cs_NewChargePoint = Some (\<lambda>v. if v = Version16 then Inr conf
                                    else Inl (EOther (''no command adapter for OCPP '' @ v))),
      cs_Accept = Some (\<lambda>i. i = ch_ID (cf_Charger conf)),
      cs_CallTimeout = dur (ch_CallTimeout (cf_Charger conf)),
      cs_IdleTimeout = dur (ch_HeartbeatTimeout (cf_Charger conf))\<rparr>"

text \<open>
  \<open>run\<close> up to the point where it waits: the version check, opening the state file, building the
  server, binding the listener (\<open>listen\<close> is the error of \<open>net.Listen\<close>, or the address bound) and
  subscribing to the events it logs. The result is the store, the server's options, the server
  as long as no station has connected, and what is printed.
\<close>

definition run_start ::
  "(string \<Rightarrow> string) \<Rightarrow> string option \<Rightarrow> disk \<Rightarrow> string + string \<Rightarrow> Config \<Rightarrow> string \<Rightarrow>
   string + Store \<times> csms_Options \<times> server \<times> string" where
  "run_start problem read_err d listen conf path =
     (if ch_OCPPVersion (cf_Charger conf) \<noteq> Version16
      then Inl (''OCPP '' @ ch_OCPPVersion (cf_Charger conf) @
                '' is not implemented yet; set charger.ocpp_version to '' @ go_quote ''1.6'')
      else case Open problem read_err path d of
        Inl e \<Rightarrow> Inl e
      | Inr store \<Rightarrow>
          (case New_csms (run_options conf) of
             Inl e \<Rightarrow> Inl e
           | Inr (r, server) \<Rightarrow>
               (case listen of
                  Inl e \<Rightarrow> Inl (''csms: listening on '' @ cs_Bind r @ '': '' @ e)
                | Inr addr \<Rightarrow> Inr (store, r,
                    server\<lparr>srv_core := (srv_core server)\<lparr>svc_bus := snd (Subscribe ''log'' (svc_bus (srv_core server)))\<rparr>\<rparr>,
                    ''cpms listening for '' @ ch_ID (cf_Charger conf) @ '' on ws://'' @ addr @ ''/ocpp/'' @
                    ch_ID (cf_Charger conf) @ nl @
                    ''waiting for the charge point to connect; press Ctrl-C to stop'' @ nl))))"

subsection \<open>Simulating a charger (simulate.go)\<close>

definition scenarioList :: string where
  "scenarioList = go_join '', '' Scenarios"

text \<open>\<open>net.JoinHostPort\<close>: an address with colons gets brackets.\<close>

definition JoinHostPort :: "string \<Rightarrow> string \<Rightarrow> string" where
  "JoinHostPort host port =
     (if CHR '':'' \<in> set host then ''['' @ host @ '']:'' @ port else host @ '':'' @ port)"

definition csmsURLFromBind :: "string \<Rightarrow> string" where
  "csmsURLFromBind bind =
     (case SplitHostPort bind of
        None \<Rightarrow> []
      | Some (host, port) \<Rightarrow>
          let host = (if host \<in> {[], ''0.0.0.0'', ''::'', ''[::]''} then ''127.0.0.1'' else host)
          in ''ws://'' @ JoinHostPort host port)"

record sim_flags =
  fl_csms :: string
  fl_id :: string
  fl_version :: Version
  fl_connectors :: int
  fl_scenario :: Scenario
  fl_tag :: string
  fl_vendor :: string
  fl_model :: string
  fl_logLevel :: string

definition default_flags :: sim_flags where
  "default_flags = \<lparr>fl_csms = [], fl_id = [], fl_version = Version16, fl_connectors = 0,
     fl_scenario = ScenarioNormal, fl_tag = [], fl_vendor = [], fl_model = [], fl_logLevel = ''info''\<rparr>"

text \<open>The configuration fills in what no flag gives; it may fail to load.\<close>

definition fill_flags :: "sim_flags \<Rightarrow> load_outcome \<Rightarrow> sim_flags" where
  "fill_flags f load =
     (let f = (case load of
          Inr (Inr conf) \<Rightarrow>
            f\<lparr>fl_csms := if fl_csms f = [] then csmsURLFromBind (sv_OCPPBind (cf_Server conf)) else fl_csms f,
              fl_id := if fl_id f = [] then ch_ID (cf_Charger conf) else fl_id f,
              fl_tag := if fl_tag f = [] then DefaultIDTag (cf_Auth conf) else fl_tag f,
              fl_connectors := if fl_connectors f = 0 then int (length (lo_EVSEs (cf_Location conf)))
                               else fl_connectors f\<rparr>
        | _ \<Rightarrow> f)
      in f\<lparr>fl_connectors := if fl_connectors f = 0 then 1 else fl_connectors f\<rparr>)"

text \<open>The command up to \<open>sim.Run\<close>: the station to run and what is printed.\<close>

definition simulateCharger :: "cli_options \<Rightarrow> sim_flags \<Rightarrow> load_outcome \<Rightarrow> string + Simulator \<times> string" where
  "simulateCharger g flags load =
     (case newLogger (fl_logLevel flags) of
        Inl e \<Rightarrow> Inl e
      | Inr logger \<Rightarrow>
          let f = fill_flags flags load in
          if fl_csms f = [] \<or> fl_id f = []
          then Inl (''--csms and --id are required when '' @ configPath g @ '' cannot be read'')
          else (case New_sim
                  \<lparr>so_URL = fl_csms f, so_ID = fl_id f, so_Version = fl_version f, so_Connectors = fl_connectors f,
                   so_Vendor = fl_vendor f, so_Model = fl_model f, so_Firmware = [], so_SerialNumber = [],
                   so_IDTag = fl_tag f, so_Scenario = fl_scenario f, so_SlowDelay = 0\<rparr> of
                  Inl e \<Rightarrow> Inl e
                | Inr sim \<Rightarrow> Inr (sim,
                    ''simulating '' @ fl_id f @ '' ('' @ itoa (fl_connectors f) @ '' connectors, scenario '' @
                    fl_scenario f @ '') against '' @ fl_csms f @ nl @ ''press Ctrl-C to stop'' @ nl)))"

text \<open>
  \<open>endpoint\<close> of the simulator, as the path it requests from the host: \<open>url\<close> is what \<open>url.Parse\<close>
  makes of a text, its error or the scheme and the path.
\<close>

definition endpoint :: "(string \<Rightarrow> string + string \<times> string) \<Rightarrow> Simulator \<Rightarrow> string + string" where
  "endpoint url s =
     (case url (so_URL (opts s)) of
        Inl e \<Rightarrow> Inl (''simulator: invalid URL '' @ go_quote (so_URL (opts s)) @ '': '' @ e)
      | Inr (scheme, path) \<Rightarrow>
          if scheme \<noteq> ''ws'' \<and> scheme \<noteq> ''wss''
          then Inl (''simulator: URL '' @ go_quote (so_URL (opts s)) @ '' must use ws or wss'')
          else if path = [] \<or> path = ''/'' then Inr (''/ocpp/'' @ so_ID (opts s))
          else Inr path)"

subsection \<open>Build information (buildinfo.go)\<close>

record Info =
  in_Version :: string
  in_Commit :: string
  in_Date :: string
  in_GoVersion :: string
  in_Platform :: string

fun vcs_settings :: "(string \<times> string) list \<Rightarrow> Info \<Rightarrow> Info" where
  "vcs_settings [] i = i"
| "vcs_settings ((key, val) # ss) i =
     vcs_settings ss
       (if key = ''vcs.revision'' then (if in_Commit i = [] then i\<lparr>in_Commit := val\<rparr> else i)
        else if key = ''vcs.time'' then (if in_Date i = [] then i\<lparr>in_Date := val\<rparr> else i)
        else if key = ''vcs.modified''
        then (if val = ''true'' \<and> in_Commit i \<noteq> [] then i\<lparr>in_Commit := in_Commit i @ ''-dirty''\<rparr> else i)
        else i)"

text \<open>The link-time variables, the Go version, the platform and the settings the toolchain embedded.\<close>

definition Get_info :: "string \<Rightarrow> string \<Rightarrow> string \<Rightarrow> string \<Rightarrow> string \<Rightarrow> (string \<times> string) list option \<Rightarrow> Info" where
  "Get_info ver revision date go platform settings =
     (let info = \<lparr>in_Version = ver, in_Commit = revision, in_Date = date, in_GoVersion = go, in_Platform = platform\<rparr>
      in case settings of Some ss \<Rightarrow> vcs_settings ss info | None \<Rightarrow> info)"

definition Info_String :: "Info \<Rightarrow> string" where
  "Info_String i =
     (let s = ''cpms '' @ in_Version i;
          short = (if length (in_Commit i) > 12 then take 12 (in_Commit i) else in_Commit i);
          s = (if in_Commit i \<noteq> [] then s @ '' ('' @ short @ '')'' else s);
          s = (if in_Date i \<noteq> [] then s @ '' built '' @ in_Date i else s)
      in s @ '' '' @ in_GoVersion i @ '' '' @ in_Platform i)"

end
