(* ===== verification/Config_Props.thy ===== *)
theory Config_Props
  imports Config_Load
begin

text \<open>
  Properties of reading and validating the configuration: what an accepted configuration
  guarantees the rest of the program, that all problems are reported in one pass, and what the
  defaults do.
\<close>

subsection \<open>Every check only appends\<close>

text \<open>
  A check applied after others reports what it would report alone. The rules bring the problems
  found earlier to the front; they do not apply to an empty validator.
\<close>

named_theorems appends \<open>a check appends to the problems found before\<close>

lemma add_error_appends [appends]: "NO_MATCH [] v \<Longrightarrow> add_error p m v = v @ add_error p m []"
  by (simp add: add_error_def)

lemma flag_appends [appends]: "NO_MATCH [] v \<Longrightarrow> flag b p m v = v @ flag b p m []"
  by (simp add: flag_def add_error_def)

lemma required_appends [appends]: "NO_MATCH [] v \<Longrightarrow> snd (required p s v) = v @ snd (required p s [])"
  by (simp add: required_def add_error_def)

lemma positiveDuration_appends [appends]:
  "NO_MATCH [] v \<Longrightarrow> snd (snd (positiveDuration p d v)) = v @ snd (snd (positiveDuration p d []))"
  by (simp add: positiveDuration_def add_error_def split: option.split)

lemma validateCharger_appends [appends]:
  "NO_MATCH [] v \<Longrightarrow> snd (validateCharger c v) = v @ snd (validateCharger c [])"
  unfolding validateCharger_def Let_def case_prod_beta snd_conv required_fst positiveDuration_simps
  by (simp add: appends)

lemma validateBind_appends [appends]:
  "NO_MATCH [] v \<Longrightarrow> snd (validateBind p b v) = v @ snd (validateBind p b [])"
  by (simp add: validateBind_def required_def add_error_def split: option.split)

lemma validateServer_appends [appends]: "NO_MATCH [] v \<Longrightarrow> validateServer c v = v @ validateServer c []"
  unfolding validateServer_def Let_def case_prod_beta validateBind_fst fst_conv snd_conv
  by (simp add: appends split: option.split)

lemma validateAuth_appends [appends]: "NO_MATCH [] v \<Longrightarrow> validateAuth c v = v @ validateAuth c []"
  unfolding validateAuth_def Let_def case_prod_beta by (simp add: appends)

lemma validateToken_appends [appends]: "NO_MATCH [] v \<Longrightarrow> validateToken p t v = v @ validateToken p t []"
  unfolding validateToken_def required_def Let_def by (cases "trim_space t = []") (simp_all add: appends)

lemma validateBaseURL_appends [appends]: "NO_MATCH [] v \<Longrightarrow> validateBaseURL f u v = v @ validateBaseURL f u []"
  unfolding validateBaseURL_def required_def by (simp add: add_error_def split: sum.split prod.split)

lemma validateDebounce_appends [appends]:
  "NO_MATCH [] v \<Longrightarrow> snd (validateDebounce d v) = v @ snd (validateDebounce d [])"
  unfolding validateDebounce_def by (simp add: flag_def add_error_def split: option.split)

lemma validateOCPI_appends [appends]: "NO_MATCH [] v \<Longrightarrow> snd (validateOCPI f c v) = v @ snd (validateOCPI f c [])"
  unfolding validateOCPI_def Let_def case_prod_beta snd_conv required_fst by (simp add: appends)

lemma validateCoordinate_appends [appends]:
  "NO_MATCH [] v \<Longrightarrow> validateCoordinate p s r lo hi v = v @ validateCoordinate p s r lo hi []"
  unfolding validateCoordinate_def required_def by (simp add: add_error_def)

lemma validateEnum_appends [appends]: "NO_MATCH [] v \<Longrightarrow> validateEnum p s ms m v = v @ validateEnum p s ms m []"
  unfolding validateEnum_def Let_def case_prod_beta by (simp add: appends)

text \<open>The loops also hand on the ids seen so far, which do not depend on the problems.\<close>

lemma check_connector_appends:
  "check_connector base j k seen v = (fst (check_connector base j k seen []), v @ snd (check_connector base j k seen []))"
  unfolding check_connector_def Let_def case_prod_beta fst_conv snd_conv required_fst
  by (cases "filled (cn_ID k)"; cases "seen (cn_ID k)") (simp_all add: appends)

lemma connector_loop_appends [appends]:
  "NO_MATCH [] v \<Longrightarrow> connector_loop base j seen ks v = v @ connector_loop base j seen ks []"
proof -
  have "connector_loop base j seen ks v = v @ connector_loop base j seen ks []" for v
  proof (induction ks arbitrary: j seen v)
    case (Cons k ks)
    let ?c = "check_connector base j k seen []"
    show ?case
      using Cons.IH [of "Suc j" "fst ?c" "v @ snd ?c"] Cons.IH [of "Suc j" "fst ?c" "snd ?c"]
      unfolding connector_loop.simps check_connector_appends [of base j k seen v] case_prod_conv
      by (simp add: case_prod_beta)
  qed simp
  then show ?thesis .
qed

lemma validateConnectors_appends [appends]:
  "NO_MATCH [] v \<Longrightarrow> validateConnectors base ks v = v @ validateConnectors base ks []"
  unfolding validateConnectors_def by (simp add: appends)

lemma new_id_appends: "new_id p i x seen v = (fst (new_id p i x seen []), v @ snd (new_id p i x seen []))"
  by (simp add: new_id_def add_error_def split: option.split)

lemma new_connector_id_appends:
  "new_connector_id p i k seen v = (fst (new_connector_id p i k seen []), v @ snd (new_connector_id p i k seen []))"
  by (simp add: new_connector_id_def add_error_def split: option.split)

lemma new_ids_appends [appends]:
  "NO_MATCH [] v \<Longrightarrow> snd (new_id p i x seen v) = v @ snd (new_id p i x seen [])"
  "NO_MATCH [] v \<Longrightarrow> fst (new_id p i x seen v) = fst (new_id p i x seen [])"
  "NO_MATCH [] v \<Longrightarrow> snd (new_connector_id p i k seen' v) = v @ snd (new_connector_id p i k seen' [])"
  "NO_MATCH [] v \<Longrightarrow> fst (new_connector_id p i k seen' v) = fst (new_connector_id p i k seen' [])"
  using new_id_appends [of p i x seen v] new_connector_id_appends [of p i k seen' v] by (simp_all add: prod_eq_iff)

lemma check_evse_appends:
  "check_evse i e seen v = (fst (check_evse i e seen []), v @ snd (check_evse i e seen []))"
  unfolding check_evse_def Let_def case_prod_beta fst_conv snd_conv required_fst
  by (cases "filled (ev_UID e)"; cases "filled (ev_EVSEID e)") (simp_all add: appends)

lemma evse_loop_appends [appends]: "NO_MATCH [] v \<Longrightarrow> evse_loop i seen es v = v @ evse_loop i seen es []"
proof -
  have "evse_loop i seen es v = v @ evse_loop i seen es []" for v
  proof (induction es arbitrary: i seen v)
    case (Cons e es)
    let ?c = "check_evse i e seen []"
    show ?case
      using Cons.IH [of "Suc i" "fst ?c" "v @ snd ?c"] Cons.IH [of "Suc i" "fst ?c" "snd ?c"]
      unfolding evse_loop.simps check_evse_appends [of i e seen v] case_prod_conv
      by (simp add: case_prod_beta)
  qed simp
  then show ?thesis .
qed

lemma validateLocation_appends [appends]: "NO_MATCH [] v \<Longrightarrow> validateLocation l v = v @ validateLocation l []"
  unfolding validateLocation_def Let_def case_prod_beta required_fst by (simp add: appends)

subsection \<open>Properties\<close>

text \<open>
  Property C14. Validation finds no problem exactly in the configurations that satisfy every rule:
  usable ids and addresses, positive durations with the timeout above the interval, two
  listeners that do not collide, distinct tokens, coordinates in range, and EVSEs whose uids,
  EVSE ids and OCPP connector ids are not repeated and start at connector 1. It changes nothing
  but the durations, which it resolves.
\<close>

theorem Validate_accepts_iff:
  "(fst (Validate url_parse c) = [] \<longleftrightarrow> config_ok url_parse c) \<and> snd (Validate url_parse c) = resolve_config c"
  by (simp add: Validate_accept Validate_snd)


lemma ok_mapping: "location_ok (cf_Location c) \<Longrightarrow> evse_mapping_ok c"
  by (simp add: evse_mapping_ok_def location_ok_def evse_ok_def)

lemma resolved_positive:
  "positive_dur d \<Longrightarrow> ParseDuration (raw d) = Some (dur (resolved d)) \<and> 0 < dur (resolved d)"
  by (auto simp: positive_dur_def resolved_def)

lemma loaded_config_facts:
  assumes "parse_config url_parse first extra = Inr c"
  shows "evse_mapping_ok c \<and> Validate url_parse c = ([], c) \<and> idTagRe (DefaultIDTag (cf_Auth c)) \<and>
    (let i = ch_HeartbeatInterval (cf_Charger c); t = ch_HeartbeatTimeout (cf_Charger c);
         k = ch_CallTimeout (cf_Charger c) in
     ParseDuration (raw i) = Some (dur i) \<and> ParseDuration (raw t) = Some (dur t) \<and>
     ParseDuration (raw k) = Some (dur k) \<and> 0 < dur i \<and> dur i < dur t \<and> 0 < dur k)"
proof -
  obtain c0 where c0: "config_ok url_parse c0" "c = resolve_config c0"
    using assms Validate_accept [of url_parse] Validate_snd [of url_parse]
    by (auto simp: parse_config_def case_prod_beta split: yaml_outcome.splits if_splits)
  have ok: "config_ok url_parse c" using c0 by simp
  have r: "resolve_config c = c" using c0(2) by simp
  have "Validate url_parse c = ([], c)"
    using ok r Validate_accept [of url_parse c] Validate_snd [of url_parse c] by (metis prod.collapse)
  moreover have "evse_mapping_ok c" using ok by (simp add: ok_mapping config_ok_def)
  moreover have "charger_ok (cf_Charger c0)" using c0(1) by (simp add: config_ok_def)
  ultimately show ?thesis
    using ok c0(2) resolved_positive
    by (auto simp: config_ok_def charger_ok_def auth_ok_def resolve_config_def Let_def)
qed

text \<open>
  Property C25. A configuration that loads is usable by the rest of the program: uids and OCPP
  connector ids identify the EVSEs, every duration has been parsed from its text, the heartbeat
  interval is positive and below the timeout, and validating it again accepts it unchanged.
\<close>

theorem loaded_config_usable:
  assumes "parse_config url_parse first extra = Inr c"
  shows "evse_mapping_ok c \<and> Validate url_parse c = ([], c) \<and> idTagRe (DefaultIDTag (cf_Auth c)) \<and>
    (let i = ch_HeartbeatInterval (cf_Charger c); t = ch_HeartbeatTimeout (cf_Charger c);
         k = ch_CallTimeout (cf_Charger c) in
     ParseDuration (raw i) = Some (dur i) \<and> ParseDuration (raw t) = Some (dur t) \<and>
     ParseDuration (raw k) = Some (dur k) \<and> 0 < dur i \<and> dur i < dur t \<and> 0 < dur k)"
  by (rule loaded_config_facts [OF assms])

definition sample_config :: Config where
  "sample_config =
     \<lparr>cf_Charger = \<lparr>ch_ID = ''ALP-HYC-001'', ch_IP = ''192.168.1.42'', ch_OCPPVersion = '' 1.6'',
        ch_HeartbeatInterval = \<lparr>raw = [], dur = 0\<rparr>, ch_HeartbeatTimeout = \<lparr>raw = ''90s'', dur = 0\<rparr>,
        ch_CallTimeout = \<lparr>raw = [], dur = 0\<rparr>\<rparr>,
      cf_Server = \<lparr>sv_OCPPBind = [], sv_OCPIBind = ''0.0.0.0:8080''\<rparr>,
      cf_Auth = \<lparr>DefaultIDTag = ''04A1B2C3D4''\<rparr>,
      cf_OCPI = \<lparr>oc_CountryCode = ''DE'', oc_PartyID = ''FYT'', oc_PublicBaseURL = ''http://192.168.1.10:8080/ocpi/'',
        oc_TokenA = ''change-me-token-a'', oc_TokenC = ''change-me-token-c'',
        oc_Push = \<lparr>pu_Debounce = \<lparr>raw = [], dur = 0\<rparr>, pu_MaxRetries = 0\<rparr>\<rparr>,
      cf_Location = \<lparr>lo_ID = ''OFFICE-01'', lo_Name = ''HQ'', lo_Address = ''Astallerstr. 9'', lo_City = ''City'',
        lo_PostalCode = ''80339'', lo_Country = ''DEU'',
        lo_Coordinates = \<lparr>co_Latitude = ''48.134000'', co_Longitude = ''11.539000''\<rparr>,
        lo_EVSEs = [\<lparr>ev_UID = ''ALP-HYC-001-1'', ev_EVSEID = ''DE*FYT*E001*1'', ev_OCPPConnectorID = 1,
          ev_Connectors = [\<lparr>cn_ID = ''1'', cn_Standard = ''IEC_62196_T2_COMBO'', cn_Format = ''CABLE'',
            cn_PowerType = ''DC'', cn_MaxVoltage = 920, cn_MaxAmperage = 500, cn_MaxElectricPower = 0\<rparr>]\<rparr>]\<rparr>\<rparr>"

definition sample_url :: "string \<Rightarrow> string + string \<times> string" where
  "sample_url u = (if u = ''http://192.168.1.10:8080/ocpi'' then Inr (''http'', ''192.168.1.10:8080'') else Inl ''bad'')"

lemma sample_loads: "isl (parse_config sample_url (YamlConfig sample_config) NoMore) = False"
  by code_simp

theorem loaded_config_usable_witness:
  "evse_mapping_ok (projr (parse_config sample_url (YamlConfig sample_config) NoMore))"
proof -
  obtain c where "parse_config sample_url (YamlConfig sample_config) NoMore = Inr c"
    using sample_loads by (cases "parse_config sample_url (YamlConfig sample_config) NoMore") auto
  then show ?thesis using loaded_config_usable by fastforce
qed

lemma default_texts:
  "Duration_String DefaultHeartbeatInterval = ''1m0s''" "Duration_String DefaultHeartbeatTimeout = ''1m30s''"
  "Duration_String DefaultCallTimeout = ''30s''" "Duration_String DefaultPushDebounce = ''500ms''"
  by code_simp+

lemma default_values:
  "ParseDuration ''1m0s'' = Some DefaultHeartbeatInterval" "ParseDuration ''1m30s'' = Some DefaultHeartbeatTimeout"
  "ParseDuration ''30s'' = Some DefaultCallTimeout" "ParseDuration ''500ms'' = Some DefaultPushDebounce"
  by code_simp+

lemma resolved_default:
  assumes "raw d = []" "ParseDuration (Duration_String v) = Some v"
  shows "resolved (or_default v d) = \<lparr>raw = Duration_String v, dur = v\<rparr>"
  using assms by (cases d) (simp add: or_default_def unset_def setDefault_def resolved_def)

lemmas default_durations =
  resolved_default [OF _ default_values(1) [folded default_texts(1)], unfolded default_texts(1)]
  resolved_default [OF _ default_values(2) [folded default_texts(2)], unfolded default_texts(2)]
  resolved_default [OF _ default_values(3) [folded default_texts(3)], unfolded default_texts(3)]
  resolved_default [OF _ default_values(4) [folded default_texts(4)], unfolded default_texts(4)]

text \<open>
  Whatever leaves a duration's text empty, a field that was left out as well as one
  whose value is a list or a map, is silently replaced by the default and never reported; a retry
  limit of zero becomes the default of five.
\<close>

theorem empty_durations_default:
  assumes "parse_config url_parse (YamlConfig c0) extra = Inr c"
  shows "(raw (ch_HeartbeatInterval (cf_Charger c0)) = [] \<longrightarrow>
            ch_HeartbeatInterval (cf_Charger c) = \<lparr>raw = ''1m0s'', dur = 60 * second\<rparr>) \<and>
         (raw (ch_HeartbeatTimeout (cf_Charger c0)) = [] \<longrightarrow>
            ch_HeartbeatTimeout (cf_Charger c) = \<lparr>raw = ''1m30s'', dur = 90 * second\<rparr>) \<and>
         (raw (ch_CallTimeout (cf_Charger c0)) = [] \<longrightarrow>
            ch_CallTimeout (cf_Charger c) = \<lparr>raw = ''30s'', dur = 30 * second\<rparr>) \<and>
         (raw (pu_Debounce (oc_Push (cf_OCPI c0))) = [] \<longrightarrow>
            pu_Debounce (oc_Push (cf_OCPI c)) = \<lparr>raw = ''500ms'', dur = 500000000\<rparr>) \<and>
         (pu_MaxRetries (oc_Push (cf_OCPI c0)) = 0 \<longrightarrow> pu_MaxRetries (oc_Push (cf_OCPI c)) = 5)"
proof -
  have "c = resolve_config (applyDefaults (normalize_config c0))"
    using assms Validate_snd [of url_parse]
    by (auto simp: parse_config_def case_prod_beta split: if_splits)
  then show ?thesis
    using default_durations
    by (simp add: resolve_config_def applyDefaults_def normalize_config_def DefaultHeartbeatInterval_def
        DefaultHeartbeatTimeout_def DefaultCallTimeout_def DefaultPushDebounce_def DefaultPushMaxRetries_def)
qed

theorem empty_durations_default_witness:
  "case parse_config sample_url (YamlConfig sample_config) NoMore of
     Inr c \<Rightarrow> ch_HeartbeatInterval (cf_Charger c) = \<lparr>raw = ''1m0s'', dur = 60 * second\<rparr>
   | Inl e \<Rightarrow> False"
proof -
  obtain c where c: "parse_config sample_url (YamlConfig sample_config) NoMore = Inr c"
    using sample_loads by (cases "parse_config sample_url (YamlConfig sample_config) NoMore") auto
  then show ?thesis using empty_durations_default [OF c] by (simp add: sample_config_def)
qed

end
