(* ===== verification/Cli_Props.thy ===== *)
theory Cli_Props
  imports Cli Config_Props
begin

text \<open>
  Properties of the command line: where the state file is, when \<open>cpms run\<close> starts and with which
  settings, that \<open>cpms simulate charger\<close> and \<open>cpms run\<close> on the same configuration find each other,
  and what the printed station URL and version text are.
\<close>

subsection \<open>Cleaned paths\<close>

text \<open>The elements of a cleaned path: names, after dot-dots in a path without a root.\<close>

definition path_name :: "string \<Rightarrow> bool" where
  "path_name e \<longleftrightarrow> e \<notin> {[], ''.'', ''..''} \<and> CHR ''/'' \<notin> set e"

definition clean_list :: "bool \<Rightarrow> string list \<Rightarrow> bool" where
  "clean_list rooted es \<longleftrightarrow>
     (\<exists>n ns. es = replicate n ''..'' @ ns \<and> (rooted \<longrightarrow> n = 0) \<and> (\<forall>e \<in> set ns. path_name e))"

lemma clean_list_up: "clean_list False (replicate n ''..'')"
  unfolding clean_list_def by (intro exI [of _ n] exI [of _ "[]"]) simp

lemma clean_list_snoc: "clean_list r es \<Longrightarrow> path_name e \<Longrightarrow> clean_list r (es @ [e])"
proof -
  assume "clean_list r es" "path_name e"
  then obtain n ns where "es = replicate n ''..'' @ ns" "r \<longrightarrow> n = 0" "\<forall>e \<in> set ns. path_name e"
    by (auto simp: clean_list_def)
  then show ?thesis
    using \<open>path_name e\<close> unfolding clean_list_def by (intro exI [of _ n] exI [of _ "ns @ [e]"]) auto
qed

lemma clean_list_pop:
  assumes "clean_list r (rev acc)"
  shows "clean_list r (rev (if acc \<noteq> [] \<and> hd acc \<noteq> ''..'' then tl acc else if r then acc else ''..'' # acc))"
proof -
  obtain n ns where a: "rev acc = replicate n ''..'' @ ns" "r \<longrightarrow> n = 0" "\<forall>e \<in> set ns. path_name e"
    using assms by (auto simp: clean_list_def)
  show ?thesis
  proof (cases ns rule: rev_cases)
    case Nil
    then have acc: "acc = replicate n ''..''" using a(1) by (simp add: rev_swap)
    show ?thesis
    proof (cases r)
      case True
      then show ?thesis using a(2) acc assms by simp
    next
      case False
      then show ?thesis
        using acc clean_list_up [of "Suc n"] by (auto simp: replicate_append_same [symmetric] hd_replicate)
    qed
  next
    case (snoc ms e)
    then have acc: "acc = e # rev ms @ replicate n ''..''" using a(1) by (simp add: rev_swap)
    have "path_name e" using a(3) snoc by simp
    then have "e \<noteq> ''..''" by (simp add: path_name_def)
    then show ?thesis
      using acc a snoc unfolding clean_list_def by (auto intro!: exI [of _ n] exI [of _ ms])
  qed
qed

lemma path_elems_clean:
  "clean_list r (rev acc) \<Longrightarrow> \<forall>e \<in> set es. CHR ''/'' \<notin> set e \<Longrightarrow> clean_list r (path_elems r es acc)"
proof (induction r es acc rule: path_elems.induct)
  case (2 r e es acc)
  have "clean_list r (rev (e # acc))" if "\<not> (e = [] \<or> e = ''.'')" "e \<noteq> ''..''"
    using clean_list_snoc [OF "2.prems"(1), of e] that "2.prems"(2) by (simp add: path_name_def)
  moreover have "clean_list r (rev (if acc \<noteq> [] \<and> hd acc \<noteq> ''..'' then tl acc else if r then acc else ''..'' # acc))"
    by (rule clean_list_pop [OF "2.prems"(1)])
  ultimately show ?case using "2.IH" "2.prems" by simp
qed simp

lemma path_elems_names: "\<forall>e \<in> set ns. path_name e \<Longrightarrow> path_elems r ns acc = rev acc @ ns"
  by (induction ns arbitrary: acc) (simp_all add: path_name_def)

lemma path_elems_up:
  "set acc \<subseteq> {''..''} \<Longrightarrow> path_elems False (replicate n ''..'' @ es) acc = path_elems False es (replicate n ''..'' @ acc)"
proof (induction n arbitrary: acc)
  case (Suc n)
  have "\<not> (acc \<noteq> [] \<and> hd acc \<noteq> ''..'')" using Suc.prems by (cases acc) auto
  then have "path_elems False (replicate (Suc n) ''..'' @ es) acc =
      path_elems False (replicate n ''..'' @ es) (''..'' # acc)" by auto
  also have "\<dots> = path_elems False es (replicate n ''..'' @ ''..'' # acc)"
    using Suc.prems by (intro Suc.IH) simp
  finally show ?case by (simp add: replicate_app_Cons_same)
qed simp

lemma path_elems_id:
  assumes "clean_list r es"
  shows "path_elems r es [] = es"
proof -
  obtain n ns where a: "es = replicate n ''..'' @ ns" "r \<longrightarrow> n = 0" "\<forall>e \<in> set ns. path_name e"
    using assms by (auto simp: clean_list_def)
  show ?thesis
  proof (cases r)
    case True
    then show ?thesis using a by (simp add: path_elems_names)
  next
    case False
    then show ?thesis using path_elems_up [of "[]" n ns] path_elems_names [OF a(3)] a(1) by simp
  qed
qed

lemma clean_list_slash_free:
  assumes "clean_list r es" "e \<in> set es"
  shows "CHR ''/'' \<notin> set e"
proof -
  have "e = ''..'' \<or> path_name e" using assms unfolding clean_list_def by auto
  then show ?thesis unfolding path_name_def by auto
qed

lemma split_join: "\<forall>e \<in> set es. c \<notin> set e \<Longrightarrow> es \<noteq> [] \<Longrightarrow> split_on c (go_join [c] es) = es"
proof (induction es)
  case (Cons e es)
  show ?case
  proof (cases es)
    case Nil
    then show ?thesis using Cons.prems by (simp add: split_on_no_sep)
  next
    case (Cons e' es')
    then show ?thesis using Cons.IH Cons.prems split_on_append [of c e] by (simp add: split_on_no_sep)
  qed
qed simp

lemma clean_list_elem:
  assumes "clean_list r es" "e \<in> set es"
  shows "e \<noteq> []" "e \<noteq> ''.''"
proof -
  have "e = ''..'' \<or> path_name e" using assms unfolding clean_list_def by auto
  then show "e \<noteq> []" "e \<noteq> ''.''" unfolding path_name_def by auto
qed

lemma join_clean:
  assumes "clean_list r es" "es \<noteq> []"
  shows "go_join ''/'' es \<noteq> []" "go_join ''/'' es \<noteq> ''.''" "\<not> is_rooted (go_join ''/'' es)"
proof -
  have s: "split_on CHR ''/'' (go_join ''/'' es) = es"
    using clean_list_slash_free [OF assms(1)] assms(2) by (intro split_join) auto
  show "go_join ''/'' es \<noteq> []" using s clean_list_elem(1) [OF assms(1), of "[]"] by force
  show "go_join ''/'' es \<noteq> ''.''" using s clean_list_elem(2) [OF assms(1), of "''.''"] by force
  show "\<not> is_rooted (go_join ''/'' es)"
  proof
    assume "is_rooted (go_join ''/'' es)"
    then obtain t where "go_join ''/'' es = CHR ''/'' # t"
      unfolding is_rooted_def by (cases "go_join ''/'' es") auto
    then have "[] \<in> set es" using s by force
    then show False using clean_list_elem(1) [OF assms(1)] by blast
  qed
qed

lemma Clean_append:
  assumes "clean_list r es" "path_name f"
  shows "filepath_Clean (show_path r es @ ''/'' @ f) = show_path r (es @ [f])"
proof -
  have f: "CHR ''/'' \<notin> set f" "f \<noteq> []" "f \<noteq> ''.''" "f \<noteq> ''..''" using assms(2) unfolding path_name_def by simp_all
  have sf: "split_on CHR ''/'' f = [f]" using f(1) by (rule split_on_no_sep)
  have c: "path_elems r (es @ [f]) [] = es @ [f]" by (rule path_elems_id [OF clean_list_snoc [OF assms]])
  show ?thesis
  proof (cases "es = []")
    case True
    then show ?thesis using f sf by (cases r) (simp_all add: filepath_Clean_def show_path_def is_rooted_def)
  next
    case False
    have "split_on CHR ''/'' (go_join ''/'' es) = es"
      using clean_list_slash_free [OF assms(1)] False by (intro split_join) auto
    then have s: "split_on CHR ''/'' (go_join ''/'' es @ CHR ''/'' # f) = es @ [f]"
      by (simp add: split_on_append sf)
    have "is_rooted (go_join ''/'' es @ CHR ''/'' # f) = False"
      using join_clean [OF assms(1) False] by (simp add: is_rooted_def)
    then show ?thesis
      using False s c by (cases r) (simp_all add: filepath_Clean_def show_path_def, simp_all add: is_rooted_def)
  qed
qed

text \<open>
  Without \<open>--state\<close> the state file is \<open>state.json\<close> in the directory of the configuration
  file, whatever relative or absolute path the latter is given by; otherwise it is the path given.
\<close>

theorem state_file_next_to_config:
  "resolvedStatePath g =
     (let d = filepath_Dir (configPath g) in
      if statePath g \<noteq> [] then statePath g
      else if d = ''.'' then ''state.json''
      else if d = ''/'' then ''/state.json''
      else d @ ''/state.json'')"
proof -
  let ?f = "''state.json''"
  define q where "q = (case last_index_of CHR ''/'' (configPath g) of None \<Rightarrow> [] | Some i \<Rightarrow> take (Suc i) (configPath g))"
  define r where "r = is_rooted q"
  define es where "es = path_elems r (split_on CHR ''/'' q) []"
  have d: "filepath_Dir (configPath g) = show_path r es"
    by (simp add: filepath_Dir_def filepath_Clean_def q_def r_def es_def)
  have c: "clean_list r es"
    unfolding es_def using split_on_parts by (intro path_elems_clean) (auto simp: clean_list_def)
  have f: "path_name ?f" by (simp add: path_name_def)
  have ne: "show_path r es \<noteq> []" using join_clean(1) [OF c] by (auto simp: show_path_def)
  have j: "filepath_Join (show_path r es) ?f = show_path r (es @ [?f])"
    unfolding filepath_Join_def using ne Clean_append [OF c f] by simp
  have "show_path r (es @ [?f]) =
      (if show_path r es = ''.'' then ?f else if show_path r es = ''/'' then ''/state.json'' else show_path r es @ ''/state.json'')"
  proof (cases "es = []")
    case False
    note n = join_clean [OF c False]
    have "go_join ''/'' es \<noteq> ''/''" using n(3) by (auto simp: is_rooted_def)
    then show ?thesis using n False by (cases r) (simp_all add: show_path_def go_join_snoc)
  qed (cases r, simp_all add: show_path_def)
  then show ?thesis by (simp add: resolvedStatePath_def DefaultStateFile_def d j Let_def)
qed

subsection \<open>Starting the CSMS\<close>

lemma loaded_ok:
  assumes "parse_config url_parse first extra = Inr c"
  shows "config_ok url_parse c" "0 < dur (ch_HeartbeatInterval (cf_Charger c))"
    "dur (ch_HeartbeatInterval (cf_Charger c)) < dur (ch_HeartbeatTimeout (cf_Charger c))"
    "0 < dur (ch_CallTimeout (cf_Charger c))"
  using loaded_config_facts [OF assms] Validate_accept [of url_parse c] by (simp_all add: Let_def)

text \<open>
  On a configuration that loads, \<open>cpms run\<close> starts exactly when OCPP 1.6 is configured,
  the state file is missing or readable and the address can be bound. It then holds the state of
  the file, admits exactly the configured station, speaks exactly OCPP 1.6, and waits for calls
  and heartbeats as long as configured, the latter for longer than the interval it asks for; no
  built-in timeout replaces a configured one.
\<close>

theorem run_starts_iff:
  assumes "parse_config url_parse first extra = Inr c"
  shows "case run_start problem read_err d listen c path of
     Inl e \<Rightarrow> ch_OCPPVersion (cf_Charger c) = Version201 \<or> isl (Open problem read_err path d) \<or> isl listen
   | Inr (store, r, server, text) \<Rightarrow>
       ch_OCPPVersion (cf_Charger c) = Version16 \<and> Open problem read_err path d = Inr store \<and> \<not> isl listen \<and>
       cs_Handlers r = {Version16} \<and> (\<exists>f. cs_Accept r = Some f \<and> (\<forall>i. f i \<longleftrightarrow> i = ch_ID (cf_Charger c))) \<and>
       cs_CallTimeout r = dur (ch_CallTimeout (cf_Charger c)) \<and>
       cs_IdleTimeout r = dur (ch_HeartbeatTimeout (cf_Charger c)) \<and>
       dur (ch_HeartbeatInterval (cf_Charger c)) < cs_IdleTimeout r \<and>
       srv_conns server = Map.empty \<and> (\<forall>i. \<not> IsOnline (srv_core server) i)"
proof -
  note ok = loaded_ok [OF assms]
  have v: "ch_OCPPVersion (cf_Charger c) \<in> {Version16, Version201}"
    using ok(1) by (auto simp: config_ok_def charger_ok_def ocppVersions_def Version16_def Version201_def)
  have n: "New_csms (run_options c) = Inr (run_options c, NewServer (New (Some c)))"
    using ok by (simp add: New_csms_def run_options_def)
  have off: "\<not> IsOnline (New (Some c)) i" for i
    using srv_inv_init [of "NewServer (New (Some c))"]
    by (auto simp: srv_init_def srv_inv_def NewServer_def)
  have bus: "IsOnline (w\<lparr>svc_bus := b\<rparr>) i = IsOnline w i" for w b i by (simp add: IsOnline_def)
  have e: "\<exists>f. cs_Accept (run_options c) = Some f \<and> (\<forall>i. f i \<longleftrightarrow> i = ch_ID (cf_Charger c))"
    by (simp add: run_options_def)
  show ?thesis
    using v n off ok e
    by (auto simp: run_start_def NewServer_def bus run_options_def split: sum.split)
qed

lemma sample_version: "ch_OCPPVersion (cf_Charger (projr (parse_config sample_url (YamlConfig sample_config) NoMore))) = Version16"
  by code_simp

theorem run_starts_iff_witness:
  "case run_start id None Map.empty (Inr ''127.0.0.1:9000'')
      (projr (parse_config sample_url (YamlConfig sample_config) NoMore)) ''state.json'' of
     Inl e \<Rightarrow> False | Inr (store, r, server, text) \<Rightarrow> cs_Handlers r = {Version16}"
proof -
  obtain c where c: "parse_config sample_url (YamlConfig sample_config) NoMore = Inr c"
    using sample_loads by (cases "parse_config sample_url (YamlConfig sample_config) NoMore") auto
  have "ch_OCPPVersion (cf_Charger c) \<noteq> Version201"
    using sample_version by (simp add: c Version16_def Version201_def)
  then show ?thesis
    using run_starts_iff [OF c, where problem = id and read_err = None and d = Map.empty and
        listen = "Inr ''127.0.0.1:9000''" and path = "''state.json''"]
    by (auto simp: c Open_def split: sum.splits)
qed

subsection \<open>Simulator and CSMS on one configuration\<close>

lemma bind_split:
  assumes "bind_ok b a"
  shows "\<exists>port. SplitHostPort b = Some (fst a, port)"
  using assms unfolding bind_ok_def by blast

lemma id_path:
  assumes "chargePointIDRe i"
  shows "chargePointID (''/ocpp/'' @ i) = (if i = ''..'' then [] else if i = ''.'' then ''ocpp'' else i)"
proof -
  have "CHR ''/'' \<notin> set i"
    using assms by (auto simp: chargePointIDRe_def list_all_iff is_alnum_def is_alpha_def is_upper_def is_lower_def is_digit_def)
  moreover have "i \<noteq> []" using assms by (auto simp: chargePointIDRe_def)
  moreover have "chargePointID ''/ocpp/..'' = []" "chargePointID ''/ocpp/.'' = ''ocpp''" by code_simp+
  ultimately show ?thesis using chargePointID_any_prefix [of i "''/ocpp''" 0] by auto
qed


definition sample_ws :: "string \<Rightarrow> string + string \<times> string" where
  "sample_ws u = (if u = ''ws://127.0.0.1:9000'' then Inr (''ws'', []) else Inl ''bad'')"


subsection \<open>What is printed\<close>

text \<open>
  The station URL of the summary is the one the simulator dials, with the path of the station,
  for every listen address that names a host without colons. For an IPv6 address the summary
  leaves out the brackets the URL needs.
\<close>

lemma csmsURL_loaded:
  assumes "parse_config url_parse first extra = Inr c"
  shows "\<exists>host port. SplitHostPort (sv_OCPPBind (cf_Server c)) = Some (host, port) \<and>
    csmsURL c = (if isWildcardHost host then ''ws://<this-host>:'' @ port @ ''/ocpp/'' @ ch_ID (cf_Charger c)
      else if CHR '':'' \<notin> set host then csmsURLFromBind (sv_OCPPBind (cf_Server c)) @ ''/ocpp/'' @ ch_ID (cf_Charger c)
      else ''ws://'' @ host @ '':'' @ port @ ''/ocpp/'' @ ch_ID (cf_Charger c))"
proof -
  obtain host port where "SplitHostPort (sv_OCPPBind (cf_Server c)) = Some (host, port)"
    using loaded_ok(1) [OF assms] bind_split [of "sv_OCPPBind (cf_Server c)"]
    unfolding config_ok_def server_ok_def by blast
  then show ?thesis
    by (intro exI [of _ host] exI [of _ port])
      (simp add: csmsURL_def csmsURLFromBind_def isWildcardHost_def JoinHostPort_def Let_def)
qed

text \<open>
  The version text of a build shows at most twelve characters of the commit, and a commit that
  was built from a modified tree is marked at its end: the mark never shows for a full revision.
\<close>

lemma dirty_build_hidden:
  assumes "12 \<le> length revision"
  shows "Info_String (Get_info ver [] date go platform (Some [(''vcs.revision'', revision), (''vcs.modified'', ''true'')])) =
    Info_String (Get_info ver [] date go platform (Some [(''vcs.revision'', revision), (''vcs.modified'', ''false'')]))"
proof -
  have "revision \<noteq> []" using assms by auto
  then show ?thesis using assms by (simp add: Info_String_def Get_info_def Let_def)
qed

end
