(* ===== verification/Station_Connect.thy ===== *)
theory Station_Connect
  imports Station_Props Cli_Props
begin

text \<open>
  The station's \<open>Connect\<close> and \<open>Run\<close> (\<open>internal/simulator/simulator.go\<close>): the endpoint, the dial, booting
  and the initial reports, and the end. Composed with the CSMS: once \<open>Connect\<close> has returned, the core
  shows every connector of the station as AVAILABLE.
\<close>

subsection \<open>Connect and Run\<close>

text \<open>
  \<open>url\<close> is \<open>url.Parse\<close>, \<open>render\<close> the text of the parsed URL with the given path, and \<open>dial\<close> the
  outcome of the WebSocket handshake at an endpoint: an error, with the HTTP status if there was a
  response, or success.
\<close>

definition Connect_sim ::
  "(string \<Rightarrow> string + string \<times> string) \<Rightarrow> (string \<Rightarrow> string) \<Rightarrow> (string \<Rightarrow> (string \<times> int option) option) \<Rightarrow>
   (Simulator \<times> 'w) caller \<Rightarrow> ('w \<Rightarrow> go_time) \<Rightarrow> Simulator \<times> 'w \<Rightarrow> sim_error option \<times> Simulator \<times> 'w" where
  "Connect_sim url render dial call now x =
     (case endpoint url (fst x) of
        Inl e \<Rightarrow> (Some (SimErr e None), x)
      | Inr path \<Rightarrow>
          (let ep = render path in
           case dial ep of
             Some (e, Some code) \<Rightarrow>
               (Some (SimErr (''simulator: dialling '' @ ep) (Some (EOther (e @ '' (HTTP '' @ itoa code @ '')'')))), x)
           | Some (e, None) \<Rightarrow> (Some (SimErr (''simulator: dialling '' @ ep) (Some (EOther e))), x)
           | None \<Rightarrow> Connect_opened call now x))"

text \<open>\<open>Wait\<close>: the goroutines come back one after the other; \<open>fires\<close> says for each whether its timer
  was faster than \<open>done\<close>.\<close>

fun Wait_sim ::
  "(Simulator \<times> 'w) caller \<Rightarrow> ('w \<Rightarrow> go_time) \<Rightarrow> bool list \<Rightarrow> Simulator \<times> 'w \<Rightarrow> Simulator \<times> 'w" where
  "Wait_sim call now [] x = x"
| "Wait_sim call now (f # fs) x = Wait_sim call now fs (run_goroutine call now 0 f x)"

text \<open>\<open>Run\<close>: \<open>meanwhile\<close> is what happens until the context is cancelled or the connection drops.\<close>

definition Run_sim ::
  "(string \<Rightarrow> string + string \<times> string) \<Rightarrow> (string \<Rightarrow> string) \<Rightarrow> (string \<Rightarrow> (string \<times> int option) option) \<Rightarrow>
   (Simulator \<times> 'w) caller \<Rightarrow> ('w \<Rightarrow> go_time) \<Rightarrow> (Simulator \<times> 'w \<Rightarrow> Simulator \<times> 'w) \<Rightarrow> bool list \<Rightarrow>
   Simulator \<times> 'w \<Rightarrow> sim_error option \<times> Simulator \<times> 'w" where
  "Run_sim url render dial call now meanwhile fires x =
     (case Connect_sim url render dial call now x of
        (Some e, x') \<Rightarrow> (Some e, x')
      | (None, x') \<Rightarrow> (case meanwhile x' of (s, w) \<Rightarrow> (None, Wait_sim call now fires (Close_sim s, w))))"

subsection \<open>Booting over a connection that delivers\<close>

lemma second_pos: "0 < second"
  by (simp add: second_def)

lemma duration_le: "ParseDuration s = Some v \<Longrightarrow> v \<le> int64_max"
  using wrap64_in_int64
  by (auto simp: ParseDuration_def Let_def in_int64_def int64_max_def split: if_splits option.splits)

lemma whole_seconds_pos: "0 \<le> d \<Longrightarrow> whole_seconds d = d div second"
  by (cases "d = 0") (simp_all add: whole_seconds_def sgn_if)

lemma station_identity:
  "New_sim r = Inr s \<Longrightarrow> so_Vendor (opts s) \<noteq> [] \<and> so_Model (opts s) \<noteq> []"
  by (drule New_sim_eq) (simp add: applyDefaults_sim_def)

lemma direct_boot:
  fixes w :: Service
  assumes "so_Vendor (opts s) \<noteq> []" "so_Model (opts s) \<noteq> []"
    "i = whole_seconds (dur (ch_HeartbeatInterval (cf_Charger c)))" "in_int64 i"
  shows "\<exists>info. boot (direct c t cp) (s, w) =
           (None, (if i > 0 then s\<lparr>heartbeat_ns := wrap64 (i * second)\<rparr> else s, Booted (s_now (t w)) cp info w))"
proof -
  define q where "q = BootNotificationReq_zero\<lparr>bnr_ChargePointVendor := so_Vendor (opts s),
    bnr_ChargePointModel := so_Model (opts s), bnr_ChargePointSerialNumber := so_SerialNumber (opts s),
    bnr_FirmwareVersion := so_Firmware (opts s)\<rparr>"
  have dec: "decode ''BootNotificationReq'' BootNotificationReq_fields BootNotificationReq_zero
      (Some (BootNotificationReq_json q)) = Inr q"
    by (simp add: decode_def)
  have val: "BootNotificationReq_validate q = None"
    using assms(1,2) by (simp add: BootNotificationReq_validate_def q_def)
  define conf where "conf = \<lparr>bnc_Status = ''Accepted'', bnc_CurrentTime = formatTime (h_now (t w)), bnc_Interval = i\<rparr>"
  have dc: "decodeInto ''BootNotificationConf'' BootNotificationConf_fields BootNotificationConf_zero
      (Some (BootNotificationConf_json conf)) = Inr conf"
    using assms(4) by (simp add: decodeInto_def BootNotificationConf_ok_def conf_def)
  obtain info where "HandleCall c (t w) cp ActionBootNotification (Some (BootNotificationReq_json q)) w =
      (Inr (BootNotificationConf_json conf), Booted (s_now (t w)) cp info w)"
    by (simp add: HandleCall_def bootNotification_def dec val Let_def conf_def assms(3))
  then show ?thesis
    using dc by (intro exI [of _ info]) (simp add: boot_def Let_def q_def [symmetric] direct_call, simp add: conf_def)
qed

subsection \<open>What the core shows afterwards\<close>

text \<open>The core's record of a charge point that is online, whose station is available, and whose
  connectors \<open>ns\<close> have reported themselves available.\<close>

definition shows_available :: "string \<Rightarrow> int set \<Rightarrow> Service \<Rightarrow> bool" where
  "shows_available i ns w \<longleftrightarrow>
     svc_inv w \<and> IsOnline w i \<and>
     (\<exists>cp. cps w i = Some cp \<and> Core_Service.station cp = StatusAvailable \<and>
        (\<forall>n \<in> ns. evseUID w i n \<in> set (order cp) \<and> reported cp (evseUID w i n) = Some StatusAvailable \<and>
           effective cp (evseUID w i n) = Some StatusAvailable))"

lemma SetConnectorStatus_cps:
  assumes "svc_inv w"
  shows "cps (SetConnectorStatus at i n st c w) = (cps w)(i \<mapsto> settle (status_cp at i n st c w))"
    "svc_inv (SetConnectorStatus at i n st c w)" "evseUID (SetConnectorStatus at i n st c w) = evseUID w"
proof -
  show "cps (SetConnectorStatus at i n st c w) = (cps w)(i \<mapsto> settle (status_cp at i n st c w))"
    by (simp add: SetConnectorStatus_def SetConnectorStatus_eq [OF assms] commit_def publishAll_def put_cp_def)
  show "svc_inv (SetConnectorStatus at i n st c w)"
    using svc_inv_commit [OF svc_inv_locked [OF assms, of "Op_SetConnectorStatus at i n st c"]]
    by (simp add: SetConnectorStatus_def)
  show "evseUID (SetConnectorStatus at i n st c w) = evseUID w"
    by (intro ext) (simp add: evseUID_def SetConnectorStatus_def SetConnectorStatus_eq [OF assms] commit_def
        publishAll_def put_cp_def)
qed

lemma online_ensure: "IsOnline w i = online (ensure i w)"
  by (simp add: IsOnline_def ensure_def newChargePoint_def split: option.split)

lemma station_report:
  assumes "svc_inv w" "IsOnline w i"
  shows "shows_available i {} (SetConnectorStatus at i 0 StatusAvailable c w)"
proof -
  have "online (status_cp at i 0 StatusAvailable c w)" using assms(2) by (simp add: status_cp_def Let_def online_ensure)
  then show ?thesis using assms(1) by (simp add: shows_available_def SetConnectorStatus_cps IsOnline_def status_cp_def Let_def)
qed

lemma connector_report:
  assumes "shows_available i ns w" "n \<noteq> 0"
  shows "shows_available i (insert n ns) (SetConnectorStatus at i n StatusAvailable c w)"
proof -
  let ?w = "SetConnectorStatus at i n StatusAvailable c w" and ?u = "evseUID w i n"
  obtain cp where w: "svc_inv w" "cps w i = Some cp" "online cp" "Core_Service.station cp = StatusAvailable"
      "\<forall>m \<in> ns. evseUID w i m \<in> set (order cp) \<and> reported cp (evseUID w i m) = Some StatusAvailable"
    using assms(1) by (auto simp: shows_available_def IsOnline_def)
  let ?cp = "status_cp at i n StatusAvailable c w"
  have e: "ensure i w = cp" by (simp add: ensure_def w(2))
  have inv: "cp_inv i cp" using cp_inv_ensure [OF w(1), of i] by (simp add: e)
  have ord: "set (order ?cp) = insert ?u (set (order cp))"
    using assms(2) inv by (auto simp: status_cp_def Let_def e addEVSE_def cp_inv_def)
  have cp: "online ?cp" "Core_Service.station ?cp = StatusAvailable" "reported ?cp = (reported cp)(?u \<mapsto> StatusAvailable)"
    using assms(2) w by (simp_all add: status_cp_def Let_def e addEVSE_def)
  have rep: "reported ?cp (evseUID w i m) = Some StatusAvailable \<and> evseUID w i m \<in> set (order ?cp)"
    if "m \<in> insert n ns" for m
    using that w(5) by (auto simp: cp(3) ord)
  then have "effective (settle ?cp) (evseUID w i m) = Some StatusAvailable" if "m \<in> insert n ns" for m
    using that rep [OF that] by (simp add: effective_settle want_def cp mget_def effectiveStatus_def)
  then show ?thesis
    using rep cp by (auto simp: shows_available_def SetConnectorStatus_cps [OF w(1)] IsOnline_def)
qed

lemma direct_reports:
  assumes "shows_available cp ns w" "\<forall>n \<in> set is. in_int64 n \<and> 1 \<le> n \<and> ConnectorStatus s n = ''Available''"
  shows "\<exists>w'. report_connectors (direct c t cp) now is (s, w) = (None, (s, w')) \<and>
    shows_available cp (set is \<union> ns) w' \<and> evseUID w' = evseUID w"
  using assms
proof (induction "is" arbitrary: w ns)
  case (Cons n ns')
  let ?w = "SetConnectorStatus (s_now (t w)) cp n StatusAvailable ''NoError'' w"
  have n: "in_int64 n" "1 \<le> n" "ConnectorStatus s n = ''Available''" using Cons.prems(2) by simp_all
  have send: "sendStatus (direct c t cp) now n (ConnectorStatus s n) (s, w) = (None, (s, ?w))"
    using n by (simp add: direct_sendStatus MapStatus_def station_statuses)
  have "shows_available cp (insert n ns) ?w" using Cons.prems(1) n(2) by (intro connector_report) auto
  from Cons.IH [OF this] Cons.prems(2) obtain w' where
      w': "report_connectors (direct c t cp) now ns' (s, ?w) = (None, (s, w'))"
      "shows_available cp (set ns' \<union> insert n ns) w'" "evseUID w' = evseUID ?w"
    by auto
  have "evseUID ?w = evseUID w" using Cons.prems(1) by (simp add: shows_available_def SetConnectorStatus_cps)
  then show ?case using w' send by (intro exI [of _ w']) simp
qed auto

lemma Booted_ready:
  assumes "svc_inv w"
  shows "svc_inv (Booted at i info w)" "IsOnline (Booted at i info w) j = IsOnline w j" "evseUID (Booted at i info w) = evseUID w"
proof -
  show "svc_inv (Booted at i info w)"
    using svc_inv_commit [OF svc_inv_locked [OF assms, of "Op_Booted at i info"]] by (simp add: Booted_def)
  show "IsOnline (Booted at i info w) j = IsOnline w j"
    using IsOnline_other_ops [OF assms, of "Op_Booted at i info" j]
    by (simp add: Booted_def commit_def publishAll_def IsOnline_def split: prod.split)
  show "evseUID (Booted at i info w) = evseUID w"
    by (intro ext) (simp add: Booted_def evseUID_def commit_def publishAll_def Booted_locked_def Let_def put_cp_def)
qed

text \<open>
  Property C17. Connecting makes the station visible. When its endpoint can be dialled and the CSMS has
  the connection registered as online, \<open>Connect\<close> of a new station returns without an error; the
  core then has it online with an available station, and for every connector the EVSE it maps to
  has the effective status AVAILABLE.
\<close>

theorem connected_station_visible:
  assumes "New_sim r = Inr s" "in_int64 (so_Connectors r)" "endpoint url s = Inr path" "dial (render path) = None"
    "svc_inv w" "IsOnline w cp" "in_int64 (whole_seconds (dur (ch_HeartbeatInterval (cf_Charger c))))"
  shows "\<exists>s' w' st. Connect_sim url render dial (direct c t cp) now (s, w) = (None, (s', w')) \<and>
    \<not> closed s' \<and> cps w' cp = Some st \<and> online st \<and> Core_Service.station st = StatusAvailable \<and>
    (\<forall>n \<in> {1..so_Connectors (opts s)}. effective st (evseUID w cp n) = Some StatusAvailable)"
proof -
  have s: "sim_inv s" "station s = ''Available''" "\<not> closed s"
    using New_sim_eq [OF assms(1)] sim_inv_New [OF assms(1,2)] by simp_all
  have conn: "in_int64 n \<and> 1 \<le> n \<and> ConnectorStatus s n = ''Available''" if "n \<in> {1..so_Connectors (opts s)}" for n
  proof -
    have "n \<in> dom (connectors s)" using s(1) that by (simp add: sim_inv_def)
    then obtain k where k: "connectors s n = Some k" by blast
    then show ?thesis
      using New_sim_connectors [OF assms(1) k] station_connector [OF s(1) k] by (simp add: ConnectorStatus_def new_connector_def)
  qed
  let ?i = "whole_seconds (dur (ch_HeartbeatInterval (cf_Charger c)))"
  define s' where "s' = (if 0 < ?i then s\<lparr>heartbeat_ns := wrap64 (?i * second)\<rparr> else s)"
  have s': "opts s' = opts s" "station s' = station s" "connectors s' = connectors s" "closed s' = closed s"
    by (simp_all add: s'_def)
  obtain info where b: "boot (direct c t cp) (s, w) = (None, (s', Booted (s_now (t w)) cp info w))"
    using direct_boot [OF _ _ refl assms(7)] station_identity [OF assms(1)] unfolding s'_def by blast
  let ?b = "Booted (s_now (t w)) cp info w"
  let ?w = "SetConnectorStatus (s_now (t ?b)) cp 0 StatusAvailable ''NoError'' ?b"
  have r0: "sendStatus (direct c t cp) now 0 (station s') (s', ?b) = (None, (s', ?w))"
    by (simp add: s' s(2) direct_sendStatus MapStatus_def station_statuses)
  have a0: "shows_available cp {} ?w" using assms(5,6) by (intro station_report) (simp_all add: Booted_ready)
  have u0: "evseUID ?w = evseUID w" using assms(5) by (simp add: SetConnectorStatus_cps Booted_ready)
  have "\<forall>n \<in> set [1..so_Connectors (opts s')]. in_int64 n \<and> 1 \<le> n \<and> ConnectorStatus s' n = ''Available''"
    using conn by (auto simp: s' ConnectorStatus_def)
  from direct_reports [OF a0 this, of c t now] obtain w' where
      w': "report_connectors (direct c t cp) now [1..so_Connectors (opts s')] (s', ?w) = (None, (s', w'))"
      "shows_available cp {1..so_Connectors (opts s)} w'" "evseUID w' = evseUID w"
    by (auto simp: s' u0)
  have "Connect_sim url render dial (direct c t cp) now (s, w) = (None, (s', w'))"
    using r0 w'(1) by (simp add: Connect_sim_def Connect_opened_def reportInitialStatus_def assms(3,4) b)
  with w'(2,3) s(3) show ?thesis by (auto simp: shows_available_def IsOnline_def s')
qed

theorem connected_station_visible_witness:
  "\<exists>s' w' st. Connect_sim (\<lambda>_. Inr (''ws'', [])) (\<lambda>p. ''ws://localhost:9000'' @ p) (\<lambda>_. None) demo_link demo_now
      (demo_station, Connected (Time 1 0 None) ''CP1'' (New (Some (one_evse ''E'')))) = (None, (s', w')) \<and>
    cps w' ''CP1'' = Some st \<and>
    effective st (evseUID (Connected (Time 1 0 None) ''CP1'' (New (Some (one_evse ''E'')))) ''CP1'' 2) = Some StatusAvailable"
proof -
  let ?w = "Connected (Time 1 0 None) ''CP1'' (New (Some (one_evse ''E'')))"
  have inv: "svc_inv ?w" by (rule svc_inv_Connected [OF svc_inv_New])
  have on: "IsOnline ?w ''CP1''" using IsOnline_Connected [OF svc_inv_New] by simp
  have dom: "(2::int) \<in> {1..so_Connectors (opts demo_station)}"
    and ep: "endpoint (\<lambda>_. Inr (''ws'', [])) demo_station = Inr (''/ocpp/'' @ so_ID (opts demo_station))"
    by code_simp+
  have i: "in_int64 (whole_seconds (dur (ch_HeartbeatInterval (cf_Charger (one_evse ''E'')))))" by code_simp
  show ?thesis
    using connected_station_visible [OF New_demo demo_opts_int64 ep refl inv on i, of "\<lambda>p. ''ws://localhost:9000'' @ p"
        "\<lambda>_. clk" demo_now] dom unfolding demo_link_def by blast
qed

end
