(* ===== verification/Ocppj_Duplex.thy ===== *)
theory Ocppj_Duplex
  imports Ocppj_Conn "HOL-Library.Sublist"
begin

text \<open>
  Two OCPP-J connections joined by a WebSocket: what one end writes is what the other end reads,
  in order (\<open>internal/ocpp/ocppj/conn.go\<close> on both sides, as when the simulator dials the CSMS). All
  goroutines of both ends interleave freely, and either end may lose the connection at any moment.

  The contract is that of a remote procedure call: the end that serves behaves like its handler run
  on the CALLs one after the other, in the order in which they were written, each at most once; what
  a call returns is the answer of that run, unless it failed for a reason of its own.
\<close>

subsection \<open>The two ends\<close>

text \<open>The frames each end has read of what the other has written are counted.\<close>

record ('a, 'b) duplex =
  lconn :: "'a conn"
  rconn :: "'b conn"
  lread :: nat
  rread :: nat

text \<open>A step of one end that reads no message: every rule of the connection but \<open>s_read\<close>.\<close>

definition conn_quiet :: "'s conn_handler \<Rightarrow> 's conn \<Rightarrow> 's conn \<Rightarrow> bool" where
  "conn_quiet H c c' \<longleftrightarrow>
     conn_step H c c' \<and> received c' = received c \<and>
     (reader c = Reading \<longrightarrow> reader c' = Reading \<or> (\<exists>r. reader c' = ReaderDone r))"

inductive duplex_step ::
  "'a conn_handler \<Rightarrow> 'b conn_handler \<Rightarrow> ('a, 'b) duplex \<Rightarrow> ('a, 'b) duplex \<Rightarrow> bool" for HL HR where
  d_left: "conn_quiet HL (lconn d) c \<Longrightarrow> duplex_step HL HR d (d\<lparr>lconn := c\<rparr>)"
| d_right: "conn_quiet HR (rconn d) c \<Longrightarrow> duplex_step HL HR d (d\<lparr>rconn := c\<rparr>)"
| d_left_reads: "reader (lconn d) = Reading \<Longrightarrow> lread d < length (written (rconn d)) \<Longrightarrow>
     duplex_step HL HR d
       (d\<lparr>lconn := read_message (Inr (written (rconn d) ! lread d)) (lconn d), lread := Suc (lread d)\<rparr>)"
| d_right_reads: "reader (rconn d) = Reading \<Longrightarrow> rread d < length (written (lconn d)) \<Longrightarrow>
     duplex_step HL HR d
       (d\<lparr>rconn := read_message (Inr (written (lconn d) ! rread d)) (rconn d), rread := Suc (rread d)\<rparr>)"

definition duplex_init :: "'a \<Rightarrow> 'b \<Rightarrow> ('a, 'b) duplex \<Rightarrow> bool" where
  "duplex_init sl sr d \<longleftrightarrow>
     (\<exists>i v ct it. lconn d = NewConn i v ct it sl) \<and> (\<exists>i v ct it. rconn d = NewConn i v ct it sr) \<and>
     lread d = 0 \<and> rread d = 0"

text \<open>The two ends are alike: what is shown of one holds of the other.\<close>

definition swap_ends :: "('a, 'b) duplex \<Rightarrow> ('b, 'a) duplex" where
  "swap_ends d = \<lparr>lconn = rconn d, rconn = lconn d, lread = rread d, rread = lread d\<rparr>"

lemma swap_ends_simps [simp]:
  "lconn (swap_ends d) = rconn d" "rconn (swap_ends d) = lconn d"
  "lread (swap_ends d) = rread d" "rread (swap_ends d) = lread d"
  by (simp_all add: swap_ends_def)

lemma duplex_step_swap: "duplex_step HL HR d d' \<Longrightarrow> duplex_step HR HL (swap_ends d) (swap_ends d')"
proof (induction rule: duplex_step.induct)
  case (d_left d c)
  then show ?case using duplex_step.d_right [of HL "swap_ends d" c HR] by (simp add: swap_ends_def)
next
  case (d_right d c)
  then show ?case using duplex_step.d_left [of HR "swap_ends d" c HL] by (simp add: swap_ends_def)
next
  case (d_left_reads d)
  then show ?case using duplex_step.d_right_reads [of "swap_ends d" HR HL] by (simp add: swap_ends_def)
next
  case (d_right_reads d)
  then show ?case using duplex_step.d_left_reads [of "swap_ends d" HR HL] by (simp add: swap_ends_def)
qed

lemma duplex_reachable_swap:
  "reachable (duplex_init sl sr) (duplex_step HL HR) d \<Longrightarrow>
   reachable (duplex_init sr sl) (duplex_step HR HL) (swap_ends d)"
proof (induction rule: reachable.induct)
  case (reach_init d)
  then show ?case by (intro reachable.reach_init) (auto simp: duplex_init_def)
next
  case (reach_step d d')
  then show ?case by (blast intro: reachable.reach_step duplex_step_swap)
qed

subsection \<open>The sequential reading of an end\<close>

text \<open>The handler run on a list of CALLs, and its answer to the \<open>n\<close>-th of them.\<close>

definition run_calls :: "'s conn_handler \<Rightarrow> string \<Rightarrow> 's \<Rightarrow> Frame list \<Rightarrow> 's" where
  "run_calls H i s fs = foldl (\<lambda>s f. snd (dispatch H i f s)) s fs"

definition answer_at :: "'s conn_handler \<Rightarrow> string \<Rightarrow> 's \<Rightarrow> Frame list \<Rightarrow> nat \<Rightarrow> RPCError + go_any" where
  "answer_at H i s fs n = fst (dispatch H i (fs ! n) (run_calls H i s (take n fs)))"

text \<open>What the caller gets to see of an answer: details of an error are dropped, a result that
  cannot be encoded is an InternalError.\<close>

definition wire_answer :: "RPCError + go_any \<Rightarrow> callResult" where
  "wire_answer r =
     (case r of
        Inl e \<Rightarrow> Inl (Errorf (Code e) (Description e))
      | Inr (AnyBad _) \<Rightarrow> Inl (Errorf ErrInternalError ''could not encode result'')
      | Inr v \<Rightarrow> Inr (Some (any_json v)))"

lemma run_calls_snoc: "run_calls H i s (fs @ [f]) = snd (dispatch H i f (run_calls H i s fs))"
  by (simp add: run_calls_def)

lemma answer_at_append: "n < length fs \<Longrightarrow> answer_at H i s (fs @ gs) n = answer_at H i s fs n"
  by (simp add: answer_at_def nth_append)

lemma answer_at_last:
  "answer_at H i s (fs @ [f]) (length fs) = fst (dispatch H i f (run_calls H i s fs))"
  by (simp add: answer_at_def)

lemma reply_parses:
  assumes "i \<noteq> []" "reply_frame i r = Some j"
  shows "\<exists>f. ParseFrame (Inr j) = Inr f \<and> ID f = i \<and>
     (Type f = MessageTypeCallResult \<or> Type f = MessageTypeCallError) \<and> frame_result f = wire_answer r"
proof -
  note enc = parse_encode_response [OF assms(1)]
  have err: "\<exists>f. ParseFrame (Inr j) = Inr f \<and> ID f = i \<and> Type f = MessageTypeCallError \<and>
      frame_result f = Inl (Errorf (Code e) (Description e))" if "EncodeCallError i e = Inr j" for e
    using enc that by (simp add: frame_result_def message_type_defs Errorf_def)
  have res: "\<exists>f. ParseFrame (Inr j) = Inr f \<and> ID f = i \<and> Type f = MessageTypeCallResult \<and>
      frame_result f = Inr (Some (any_json p))" if "EncodeCallResult i p = Inr j" for p
    using enc that by (simp add: frame_result_def message_type_defs)
  show ?thesis
  proof (cases r)
    case (Inl e)
    then have "EncodeCallError i e = Inr j"
      using assms(2) by (simp add: reply_frame_def callError_frame_def split: sum.splits)
    then show ?thesis using err by (auto simp: wire_answer_def Inl)
  next
    case (Inr v)
    show ?thesis
    proof (cases "EncodeCallResult i v")
      case (Inl x)
      then have "EncodeCallError i (Errorf ErrInternalError ''could not encode result'') = Inr j"
        using assms(2) Inr by (simp add: reply_frame_def callError_frame_def split: sum.splits)
      moreover have "\<exists>b. v = AnyBad b" using Inl by (cases v) (simp_all add: EncodeCallResult_def)
      ultimately show ?thesis using err by (fastforce simp: wire_answer_def Inr)
    next
      case j: (Inr x)
      then have "EncodeCallResult i v = Inr j" using assms(2) Inr by (simp add: reply_frame_def)
      moreover have "\<And>b. v \<noteq> AnyBad b" using j by (auto simp: EncodeCallResult_def)
      ultimately show ?thesis using res by (cases v) (fastforce simp: wire_answer_def Inr)+
    qed
  qed
qed

subsection \<open>Where the frames of an end come from\<close>

text \<open>A frame read that parses, and a CALL.\<close>

definition parsed :: "json \<Rightarrow> Frame option" where
  "parsed j = (case ParseFrame (Inr j) of Inl _ \<Rightarrow> None | Inr f \<Rightarrow> Some f)"

definition call_of :: "json \<Rightarrow> Frame option" where
  "call_of j = (case parsed j of None \<Rightarrow> None | Some f \<Rightarrow> if is_call f then Some f else None)"

text \<open>The calls made so far, and the frame of one of them.\<close>

definition calls_made :: "'s conn \<Rightarrow> (string \<times> string) list" where
  "calls_made c = map (\<lambda>w. (call_id w, call_action w)) (callers c)"

definition call_json :: "string \<times> string \<Rightarrow> json \<Rightarrow> json" where
  "call_json m p = JArr [JInt MessageTypeCall, JStr (fst m), JStr (snd m), p]"

definition is_reply :: "'s conn_handler \<Rightarrow> 's \<Rightarrow> 's conn \<Rightarrow> json \<Rightarrow> bool" where
  "is_reply H s c j \<longleftrightarrow>
     (\<exists>n < length (served c). reply_frame (ID (served c ! n)) (answer_at H (conn_id c) s (served c) n) = Some j)"

definition is_refusal :: "json list \<Rightarrow> json \<Rightarrow> bool" where
  "is_refusal D j \<longleftrightarrow> (\<exists>x \<in> set D. \<exists>i e. ParseFrame (Inr x) = Inl (i, e) \<and> callError_frame i e = Some j)"

definition origin :: "'s conn_handler \<Rightarrow> 's \<Rightarrow> json list \<Rightarrow> 's conn \<Rightarrow> json \<Rightarrow> bool" where
  "origin H s D c j \<longleftrightarrow> (\<exists>m \<in> set (calls_made c). \<exists>p. j = call_json m p) \<or> is_reply H s c j \<or> is_refusal D j"

text \<open>The invariant of one end that started with the handler state \<open>s\<close> and has read \<open>D\<close>.\<close>

definition end_ok :: "'s conn_handler \<Rightarrow> 's \<Rightarrow> json list \<Rightarrow> 's conn \<Rightarrow> bool" where
  "end_ok H s D c \<longleftrightarrow>
     hstate c = run_calls H (conn_id c) s (served c) \<and>
     received c = List.map_filter parsed D \<and>
     (\<forall>j \<in> set (written c @ send c). origin H s D c j) \<and>
     (\<forall>j. handler c = Replying j \<longrightarrow> is_reply H s c j) \<and>
     (\<forall>j. reader c = Answering j \<longrightarrow> is_refusal D j) \<and>
     (\<forall>k j. k < length (callers c) \<longrightarrow> call_phase (callers c ! k) = Sending j \<longrightarrow>
        (\<exists>p. j = call_json (calls_made c ! k) p))"

lemma origin_mono:
  assumes "origin H s D c j" "set D \<subseteq> set D'" "set (calls_made c) \<subseteq> set (calls_made c')"
    "conn_id c' = conn_id c" "served c' = served c @ fs"
  shows "origin H s D' c' j"
proof -
  have "is_reply H s c j \<Longrightarrow> is_reply H s c' j"
    unfolding is_reply_def assms(4,5)
    by (elim exE conjE, rename_tac n, rule_tac x = n in exI) (auto simp: answer_at_append nth_append)
  then show ?thesis using assms(1-3) unfolding origin_def is_refusal_def by blast
qed

lemma end_ok_cong:
  assumes "end_ok H s D c" "hstate c' = hstate c" "conn_id c' = conn_id c" "served c' = served c"
    "received c' = received c" "calls_made c' = calls_made c" "set (written c' @ send c') \<subseteq> set (written c @ send c) \<union> new"
    "\<And>j. j \<in> new \<Longrightarrow> origin H s D c j"
    "\<And>j. handler c' = Replying j \<Longrightarrow> handler c = Replying j"
    "\<And>j. reader c' = Answering j \<Longrightarrow> reader c = Answering j"
    "\<And>k j. k < length (callers c) \<Longrightarrow> call_phase (callers c' ! k) = Sending j \<Longrightarrow> call_phase (callers c ! k) = Sending j"
  shows "end_ok H s D c'"
proof -
  have o: "origin H s D c' j" if "origin H s D c j" for j
    using origin_mono [OF that subset_refl] assms(3,4,6) by simp
  have n: "length (callers c') = length (callers c)"
    using arg_cong [OF assms(6), of length] by (simp add: calls_made_def)
  have r: "is_reply H s c' j = is_reply H s c j" for j by (simp add: is_reply_def assms(3,4))
  have "\<forall>j \<in> set (written c' @ send c'). origin H s D c' j"
    using assms(1,7,8) o unfolding end_ok_def by blast
  then show ?thesis using assms(1-6,9-) unfolding end_ok_def r n by simp
qed

subsection \<open>Every step keeps the origins\<close>

lemma duplex_op_simps [simp]:
  "written (forget i c) = written c" "hstate (forget i c) = hstate c" "conn_id (forget i c) = conn_id c"
  "written (Close c) = written c" "hstate (Close c) = hstate c" "conn_id (Close c) = conn_id c"
  "written (set_caller k w c) = written c" "hstate (set_caller k w c) = hstate c"
  "conn_id (set_caller k w c) = conn_id c"
  by (simp_all add: forget_def Close_def set_caller_def)

lemma duplex_call_simps [simp]:
  "written (call_return k r c) = written c" "hstate (call_return k r c) = hstate c"
  "conn_id (call_return k r c) = conn_id c"
  "written (deliver k x c) = written c" "hstate (deliver k x c) = hstate c" "conn_id (deliver k x c) = conn_id c"
  "reader (deliver k x c) = reader c"
  "written (call_enter a p c) = written c" "hstate (call_enter a p c) = hstate c"
  "conn_id (call_enter a p c) = conn_id c"
  by (simp_all add: call_return_def deliver_def call_enter_def Let_def split: option.split sum.split)

lemma duplex_read_simps [simp]:
  "written (read_message d c) = written c" "hstate (read_message d c) = hstate c"
  "conn_id (read_message d c) = conn_id c"
  "written (serve_next H f c) = written c" "conn_id (serve_next H f c) = conn_id c"
  "hstate (serve_next H f c) = snd (dispatch H (conn_id c) f (hstate c))"
  by (simp_all add: read_message_def serve_next_def Let_def split: sum.split option.split prod.split)

lemma calls_made_update:
  "k < length (callers c) \<Longrightarrow> call_id w = call_id (callers c ! k) \<Longrightarrow>
   call_action w = call_action (callers c ! k) \<Longrightarrow> callers c' = (callers c)[k := w] \<Longrightarrow> calls_made c' = calls_made c"
  by (simp add: calls_made_def map_update list_update_same_conv)

lemma calls_made_same: "callers c' = callers c \<Longrightarrow> calls_made c' = calls_made c"
  by (simp add: calls_made_def)

lemma calls_made_deliver [simp]: "calls_made (deliver k r c) = calls_made c"
proof (cases "k < length (callers c)")
  case True
  then show ?thesis
    by (cases "call_chan (callers c ! k)")
      (auto simp: deliver_def intro: calls_made_update [where k = k and w = "(callers c ! k)\<lparr>call_chan := Some r\<rparr>"])
next
  case False
  then show ?thesis by (auto simp: deliver_def Let_def calls_made_def list_update_beyond split: option.split)
qed

lemma deliver_phase [simp]: "k' < length (callers c) \<Longrightarrow> call_phase (callers (deliver k r c) ! k') = call_phase (callers c ! k')"
  by (cases "k < length (callers c)")
    (auto simp: deliver_def Let_def nth_list_update list_update_beyond split: option.split)

lemma end_ok_return:
  assumes "end_ok H s D c" "k < length (callers c)"
  shows "end_ok H s D (call_return k r c)"
proof -
  have "calls_made (call_return k r c) = calls_made c"
    by (rule calls_made_update [OF assms(2), where w = "(callers c ! k)\<lparr>call_phase := Returned r\<rparr>"]) simp_all
  then show ?thesis
    by (intro end_ok_cong [OF assms(1), where new = "{}"]) (auto simp: nth_list_update assms(2) split: if_splits)
qed

lemma end_ok_enter:
  assumes "end_ok H s D c"
  shows "end_ok H s D (call_enter a p c)"
proof -
  obtain w where w: "callers (call_enter a p c) = callers c @ [w]"
      "call_phase w = Sending j \<Longrightarrow> \<exists>p. j = call_json (call_id w, call_action w) p" for j
  proof (cases "EncodeCall (dec (unat (nextID c + 1))) a p")
    case (Inl e)
    then show thesis by (intro that) (simp add: call_enter_def Let_def, simp)
  next
    case (Inr j)
    then have "\<exists>q. j = call_json (dec (unat (nextID c + 1)), a) q"
      by (auto simp: EncodeCall_def call_json_def split: go_any.splits)
    then show thesis using Inr by (intro that) (simp add: call_enter_def Let_def, simp)
  qed
  have made: "calls_made (call_enter a p c) = calls_made c @ [(call_id w, call_action w)]"
    by (simp add: calls_made_def w(1))
  have len: "length (calls_made c) = length (callers c)" by (simp add: calls_made_def)
  have o: "origin H s D (call_enter a p c) j" if "origin H s D c j" for j
    by (rule origin_mono [OF that subset_refl]) (auto simp: made)
  have r: "is_reply H s (call_enter a p c) j = is_reply H s c j" for j by (simp add: is_reply_def)
  show ?thesis
    using assms o w(2) unfolding end_ok_def r
    by (auto simp: made w(1) nth_append less_Suc_eq len)
qed

lemma end_ok_serve:
  assumes "end_ok H s D c" "handler c = HandlerIdle"
  shows "end_ok H s D (serve_next H f c)"
proof -
  let ?c = "serve_next H f c"
  have h: "hstate ?c = run_calls H (conn_id c) s (served ?c)"
    using assms(1) by (simp add: end_ok_def run_calls_snoc)
  have made: "calls_made ?c = calls_made c" by (simp add: calls_made_def)
  have o: "origin H s D ?c j" if "origin H s D c j" for j
    by (rule origin_mono [OF that subset_refl]) (auto simp: made)
  have r: "is_reply H s ?c j" if "handler ?c = Replying j" for j
  proof -
    have "reply_frame (ID f) (fst (dispatch H (conn_id c) f (run_calls H (conn_id c) s (served c)))) = Some j"
      using that assms by (auto simp: serve_next_def end_ok_def Let_def split: prod.splits option.splits)
    then show ?thesis
      by (auto simp: is_reply_def answer_at_last intro: exI [of _ "length (served c)"])
  qed
  show ?thesis using assms(1) h o r unfolding end_ok_def by (simp add: made)
qed

lemma quiet_read:
  assumes "reader c = Reading" "conn_quiet H c (read_message d c)"
  shows "read_message d c = c"
  using assms
  by (auto simp: conn_quiet_def read_message_def Let_def split: sum.splits option.splits if_splits)

lemma end_ok_quiet:
  assumes "conn_quiet H c c'" "end_ok H s D c"
  shows "end_ok H s D c'"
proof -
  have "conn_step H c c'" using assms(1) by (simp add: conn_quiet_def)
  then show ?thesis
  proof (cases rule: conn_step.cases)
    case (s_enter a p)
    then show ?thesis using end_ok_enter [OF assms(2)] by simp
  next
    case (s_sent k j)
    have "calls_made c' = calls_made c"
      by (rule calls_made_update [OF s_sent(2), where w = "(callers c ! k)\<lparr>call_phase := Waiting\<rparr>"])
        (simp_all add: s_sent(1))
    moreover have "origin H s D c j"
    proof -
      obtain p where "j = call_json (calls_made c ! k) p" using assms(2) s_sent unfolding end_ok_def by blast
      then show ?thesis using s_sent(2) by (auto simp: origin_def calls_made_def)
    qed
    ultimately show ?thesis
      by (intro end_ok_cong [OF assms(2), where new = "{j}"]) (auto simp: s_sent(1,2) nth_list_update split: if_splits)
  next
    case (s_read d)
    then show ?thesis using assms quiet_read [of c H d] by simp
  next
    case (s_delivered k r)
    then have "calls_made c' = calls_made c"
      using calls_made_same [of "(deliver k r c)\<lparr>reader := Reading\<rparr>" "deliver k r c"] by simp
    then show ?thesis
      by (intro end_ok_cong [OF assms(2), where new = "{}"]) (auto simp: s_delivered(1))
  next
    case (s_serve f fs)
    then show ?thesis using end_ok_serve [OF assms(2)] by simp
  next
    case (s_answered j)
    have "origin H s D c j" using assms(2) s_answered(2) by (simp add: end_ok_def origin_def)
    then show ?thesis
      by (intro end_ok_cong [OF assms(2), where new = "{j}"]) (auto simp: s_answered(1) calls_made_def)
  next
    case (s_replied j)
    have "origin H s D c j" using assms(2) s_replied(2) by (simp add: end_ok_def origin_def)
    then show ?thesis
      by (intro end_ok_cong [OF assms(2), where new = "{j}"]) (auto simp: s_replied(1) calls_made_def)
  next
    case (s_closed k j)
    then show ?thesis using end_ok_return [OF assms(2) s_closed(2)] by simp
  next
    case (s_cancelled k j)
    then show ?thesis using end_ok_return [OF assms(2) s_cancelled(2)] by simp
  next
    case (s_timeout k)
    then show ?thesis using end_ok_return [OF assms(2) s_timeout(2)] by simp
  next
    case (s_result k r)
    then show ?thesis using end_ok_return [OF assms(2) s_result(2)] by simp
  qed (auto simp: calls_made_def intro!: end_ok_cong [OF assms(2), where new = "{}"])
qed

lemma end_ok_read:
  assumes "end_ok H s D c" "reader c = Reading"
  shows "end_ok H s (D @ [x]) (read_message (Inr x) c)"
proof -
  let ?c = "read_message (Inr x) c"
  have o: "origin H s (D @ [x]) ?c j" if "origin H s D c j" for j
    by (rule origin_mono [OF that]) (auto simp: calls_made_def)
  have r: "is_reply H s ?c j = is_reply H s c j" for j by (simp add: is_reply_def)
  have m: "calls_made ?c = calls_made c" by (simp add: calls_made_def)
  have "received ?c = List.map_filter parsed (D @ [x])"
    using assms(1)
    by (auto simp: end_ok_def read_message_def Let_def parsed_def List.map_filter_def callError_frame_def
        EncodeCallError_def split: sum.split option.split)
  moreover have "is_refusal (D @ [x]) j" if "reader ?c = Answering j" for j
    using that assms(2)
    by (auto simp: read_message_def is_refusal_def Let_def split: sum.splits option.splits if_splits)
  ultimately show ?thesis using assms(1) o unfolding end_ok_def r m by simp
qed

subsection \<open>Every CALL is sent once\<close>

text \<open>The message id of a CALL frame, and those an end has sent.\<close>

fun json_call_id :: "json \<Rightarrow> string option" where
  "json_call_id (JArr (JInt t # JStr i # xs)) = (if t = MessageTypeCall then Some i else None)"
| "json_call_id _ = None"

definition sent_calls :: "'s conn \<Rightarrow> string list" where
  "sent_calls c = List.map_filter json_call_id (written c @ send c)"

definition past_sending :: "'s conn \<Rightarrow> nat \<Rightarrow> bool" where
  "past_sending c k \<longleftrightarrow> k < length (callers c) \<and> (\<forall>j. call_phase (callers c ! k) \<noteq> Sending j)"

definition sent_once :: "'s conn \<Rightarrow> bool" where
  "sent_once c \<longleftrightarrow> distinct (sent_calls c) \<and> (\<forall>i \<in> set (sent_calls c). \<exists>k. past_sending c k \<and> i = nth_id k)"

lemma map_filter_in: "y \<in> set (List.map_filter f xs) \<longleftrightarrow> (\<exists>x \<in> set xs. f x = Some y)"
  by (induction xs) (auto simp: List.map_filter_simps split: option.split)

lemma map_filter_append [simp]: "List.map_filter f (xs @ ys) = List.map_filter f xs @ List.map_filter f ys"
  by (simp add: List.map_filter_def)

lemma json_call_id_call [simp]: "json_call_id (call_json m p) = Some (fst m)"
  by (simp add: call_json_def)

lemma error_not_call: "callError_frame i e = Some j \<Longrightarrow> json_call_id j = None"
  by (auto simp: callError_frame_def EncodeCallError_def message_type_defs split: sum.splits)

lemma reply_not_call: "reply_frame i r = Some j \<Longrightarrow> json_call_id j = None"
  using error_not_call [of i]
  by (auto simp: reply_frame_def EncodeCallResult_def message_type_defs split: sum.splits go_any.splits)

lemma is_reply_not_call: "is_reply H s c j \<Longrightarrow> json_call_id j = None"
  using reply_not_call by (auto simp: is_reply_def)

lemma is_refusal_not_call: "is_refusal D j \<Longrightarrow> json_call_id j = None"
  using error_not_call by (auto simp: is_refusal_def)

lemma past_sending_enter: "past_sending c k \<Longrightarrow> past_sending (call_enter a p c) k"
  by (auto simp: past_sending_def call_enter_def Let_def nth_append split: sum.split)

lemma past_sending_update:
  "past_sending c k' \<Longrightarrow> callers c' = (callers c)[k := w] \<Longrightarrow> (\<And>j. call_phase w \<noteq> Sending j) \<Longrightarrow> past_sending c' k'"
  by (cases "k < length (callers c)") (auto simp: past_sending_def nth_list_update list_update_beyond)

lemma past_sending_step: "conn_step H c c' \<Longrightarrow> past_sending c k \<Longrightarrow> past_sending c' k"
proof (induction rule: conn_step.induct)
  case (s_enter c a p)
  then show ?case by (rule past_sending_enter)
next
  case (s_delivered c k' r)
  then show ?case by (simp add: past_sending_def)
qed (erule past_sending_update [where k = k] past_sending_update; simp | simp add: past_sending_def nth_list_update)+

lemma sent_once_step:
  assumes "conn_step H c c'" "end_ok H s D c" "ids_ok c" "small c" "sent_once c"
  shows "sent_once c'"
proof -
  have past: "past_sending c k \<Longrightarrow> past_sending c' k" for k by (rule past_sending_step [OF assms(1)])
  have sub: ?thesis if "distinct (sent_calls c')" "set (sent_calls c') \<subseteq> set (sent_calls c)"
    using assms(5) past that unfolding sent_once_def by blast
  have same: ?thesis if "sent_calls c' = sent_calls c"
    using sub that assms(5) by (simp add: sent_once_def)
  from assms(1) show ?thesis
  proof (cases rule: conn_step.cases)
    case (s_sent k j)
    obtain p where j: "j = call_json (calls_made c ! k) p" using assms(2) s_sent unfolding end_ok_def by blast
    then have i: "json_call_id j = Some (nth_id k)"
      using s_sent(2) assms(3) by (simp add: calls_made_def ids_ok_def)
    have "nth_id k \<notin> set (sent_calls c)"
    proof
      assume "nth_id k \<in> set (sent_calls c)"
      then obtain k' where k': "past_sending c k'" "nth_id k = nth_id k'" using assms(5) by (auto simp: sent_once_def)
      then have "k = k'" using s_sent(2) assms(4) by (subst (asm) nth_id_inj) (auto simp: past_sending_def small_def)
      then show False using k'(1) s_sent(3) by (simp add: past_sending_def)
    qed
    moreover have "sent_calls c' = sent_calls c @ [nth_id k]"
      using i by (simp add: sent_calls_def s_sent(1) List.map_filter_def)
    moreover have "past_sending c' k" by (simp add: past_sending_def s_sent(1,2))
    ultimately show ?thesis using assms(5) past unfolding sent_once_def by auto blast
  next
    case (s_answered j)
    then have "json_call_id j = None" using assms(2) is_refusal_not_call by (auto simp: end_ok_def)
    then show ?thesis by (intro same) (simp add: sent_calls_def s_answered(1) List.map_filter_def)
  next
    case (s_replied j)
    then have "json_call_id j = None" using assms(2) is_reply_not_call by (auto simp: end_ok_def)
    then show ?thesis by (intro same) (simp add: sent_calls_def s_replied(1) List.map_filter_def)
  next
    case (s_write_failed j js)
    then show ?thesis
      using assms(5) by (intro sub) (auto simp: sent_once_def sent_calls_def List.map_filter_def split: if_splits)
  next
    case (s_written j js)
    then show ?thesis by (intro same) (simp add: sent_calls_def)
  qed (intro same; simp add: sent_calls_def)+
qed

subsection \<open>The invariant of two connected ends\<close>

definition side_ok :: "'s conn_handler \<Rightarrow> 's \<Rightarrow> 's conn \<Rightarrow> nat \<Rightarrow> 't conn \<Rightarrow> bool" where
  "side_ok H s c n peer \<longleftrightarrow>
     conn_inv c \<and> end_ok H s (take n (written peer)) c \<and> n \<le> length (written peer) \<and> (small c \<longrightarrow> sent_once c)"

definition duplex_inv :: "'a conn_handler \<Rightarrow> 'b conn_handler \<Rightarrow> 'a \<Rightarrow> 'b \<Rightarrow> ('a, 'b) duplex \<Rightarrow> bool" where
  "duplex_inv HL HR sl sr d \<longleftrightarrow>
     side_ok HL sl (lconn d) (lread d) (rconn d) \<and> side_ok HR sr (rconn d) (rread d) (lconn d)"

lemma written_grows: "conn_step H c c' \<Longrightarrow> \<exists>js. written c' = written c @ js"
  by (induction rule: conn_step.induct) auto

lemma quiet_written: "conn_quiet H c c' \<Longrightarrow> \<exists>js. written c' = written c @ js"
  unfolding conn_quiet_def by (blast dest: written_grows)

lemma side_ok_peer:
  assumes "side_ok H s c n peer" "written peer' = written peer @ js"
  shows "side_ok H s c n peer'"
proof -
  have "take n (written peer') = take n (written peer)" using assms by (simp add: side_ok_def)
  then show ?thesis using assms by (auto simp: side_ok_def)
qed

lemma sent_once_small:
  assumes "conn_step H c c'" "side_ok H s c n peer"
  shows "small c' \<longrightarrow> sent_once c'"
  using assms sent_once_step [OF assms(1), of s "take n (written peer)"] callers_grow [OF assms(1)]
  by (auto simp: side_ok_def small_def conn_inv_def)

lemma side_ok_quiet: "conn_quiet H c c' \<Longrightarrow> side_ok H s c n peer \<Longrightarrow> side_ok H s c' n peer"
  using sent_once_small [of H c c' s n peer] end_ok_quiet [of H c c' s "take n (written peer)"] conn_inv_step [of c H c']
  by (simp add: side_ok_def conn_quiet_def)

lemma side_ok_read:
  assumes "side_ok H s c n peer" "reader c = Reading" "n < length (written peer)"
  shows "side_ok H s (read_message (Inr (written peer ! n)) c) (Suc n) peer"
proof -
  have st: "conn_step H c (read_message (Inr (written peer ! n)) c)" using assms(2) by (rule s_read)
  show ?thesis
    using assms sent_once_small [OF st assms(1)] conn_inv_step [OF _ st]
      end_ok_read [of H s "take n (written peer)" c "written peer ! n"]
    by (simp add: side_ok_def take_Suc_conv_app_nth)
qed

lemma side_ok_pair_quiet:
  assumes "conn_quiet H c c'" "side_ok H s c n peer" "side_ok H' s' peer n' c"
  shows "side_ok H s c' n peer \<and> side_ok H' s' peer n' c'"
proof -
  obtain js where "written c' = written c @ js" using quiet_written [OF assms(1)] by blast
  then show ?thesis using side_ok_quiet [OF assms(1,2)] side_ok_peer [OF assms(3)] by blast
qed

lemma side_ok_pair_read:
  assumes "reader c = Reading" "n < length (written peer)" "side_ok H s c n peer" "side_ok H' s' peer n' c"
  shows "side_ok H s (read_message (Inr (written peer ! n)) c) (Suc n) peer \<and>
    side_ok H' s' peer n' (read_message (Inr (written peer ! n)) c)"
  using side_ok_read [OF assms(3,1,2)] side_ok_peer [OF assms(4), of "read_message (Inr (written peer ! n)) c" "[]"]
  by simp

lemma duplex_inv_step:
  assumes "duplex_inv HL HR sl sr d" "duplex_step HL HR d d'"
  shows "duplex_inv HL HR sl sr d'"
  using assms(2)
proof (cases rule: duplex_step.cases)
  case (d_left c)
  then show ?thesis using assms(1) side_ok_pair_quiet [OF d_left(2), of sl "lread d" "rconn d" HR sr "rread d"]
    by (simp add: duplex_inv_def)
next
  case (d_right c)
  then show ?thesis using assms(1) side_ok_pair_quiet [OF d_right(2), of sr "rread d" "lconn d" HL sl "lread d"]
    by (simp add: duplex_inv_def)
next
  case d_left_reads
  then show ?thesis using assms(1) side_ok_pair_read [OF d_left_reads(2,3), of HL sl HR sr "rread d"]
    by (simp add: duplex_inv_def)
next
  case d_right_reads
  then show ?thesis using assms(1) side_ok_pair_read [OF d_right_reads(2,3), of HR sr HL sl "lread d"]
    by (simp add: duplex_inv_def)
qed

lemma side_ok_new: "side_ok H s (NewConn i v ct it s) 0 peer"
proof -
  have "conn_inv (NewConn i v ct it s)" by (rule conn_inv_init) (unfold conn_init_def, blast)
  then show ?thesis
    by (simp add: side_ok_def end_ok_def NewConn_def run_calls_def sent_once_def sent_calls_def List.map_filter_def)
qed

lemma duplex_inv_init: "duplex_init sl sr d \<Longrightarrow> duplex_inv HL HR sl sr d"
  by (auto simp: duplex_init_def duplex_inv_def side_ok_new)

interpretation duplex: invariant_system "duplex_init sl sr" "duplex_step HL HR" "duplex_inv HL HR sl sr" for sl sr HL HR
  by unfold_locales (auto intro: duplex_inv_init duplex_inv_step)

subsection \<open>What a frame received stands for\<close>

lemma call_json_parses:
  assumes "fst m \<noteq> []"
  shows "ParseFrame (Inr (call_json m p)) =
    (if snd m = [] then Inl (fst m, framework_error ''action is empty'')
     else Inr (zero_frame\<lparr>Type := MessageTypeCall, ID := fst m, Action := snd m, Payload := Some p\<rparr>))"
  using assms by (auto simp: call_json_def frame_defs)

lemma parse_body_id: "parse_body raw typ i = Inr f \<Longrightarrow> ID f = i"
  by (auto simp: parse_body_def Let_def zero_frame_def split: if_splits sum.splits)

lemma parsed_id: "parsed j = Some f \<Longrightarrow> ID f \<noteq> []"
  by (cases rule: ParseFrame_cases [of "Inr j"]) (auto simp: parsed_def parse_body_id split: sum.splits)

lemma refused_id: "ParseFrame (Inr j) = Inl (i, e) \<Longrightarrow> i \<noteq> []"
proof (cases rule: ParseFrame_cases [of "Inr j"])
  case (body t i' x xs ty)
  assume "ParseFrame (Inr j) = Inl (i, e)"
  then have "i = i'" using body(4) parse_body_error [of "t # JStr i' # x # xs" ty i' i e] by simp
  then show ?thesis using body(2) by simp
qed (auto simp: UnknownMessageID_def)

lemma refusal_parses:
  assumes "i \<noteq> []" "callError_frame i e = Some j"
  shows "\<exists>f. ParseFrame (Inr j) = Inr f \<and> ID f = i \<and> Type f = MessageTypeCallError \<and>
    frame_result f = Inl (Errorf (Code e) (Description e))"
proof -
  have "EncodeCallError i e = Inr j" using assms(2) by (simp add: callError_frame_def split: sum.splits)
  then show ?thesis
    using parse_encode_response [OF assms(1)] by (simp add: frame_result_def message_type_defs Errorf_def)
qed

lemma served_parsed:
  assumes "side_ok H s c n peer" "g \<in> set (served c)"
  shows "is_call g" "\<exists>j \<in> set (take n (written peer)). parsed j = Some g"
proof -
  obtain rest where r: "filter is_call (received c) = served c @ calls c @ rest"
    using assms(1) by (auto simp: side_ok_def conn_inv_def order_ok_def)
  then have "g \<in> set (filter is_call (received c))" using assms(2) by simp
  then show "is_call g" "\<exists>j \<in> set (take n (written peer)). parsed j = Some g"
    using assms(1) by (auto simp: side_ok_def end_ok_def map_filter_in)
qed

lemma calls_made_id:
  assumes "side_ok H s c n peer" "m \<in> set (calls_made c)"
  shows "\<exists>k < length (callers c). m = calls_made c ! k \<and> fst m = nth_id k" "fst m \<noteq> []"
proof -
  obtain k where k: "k < length (callers c)" "m = calls_made c ! k"
    using assms(2) by (auto simp: in_set_conv_nth calls_made_def)
  moreover have "fst m = nth_id k"
    using k assms(1) by (simp add: side_ok_def conn_inv_def ids_ok_def calls_made_def)
  ultimately show "\<exists>k < length (callers c). m = calls_made c ! k \<and> fst m = nth_id k" "fst m \<noteq> []"
    by (auto simp: nth_id_def)
qed

text \<open>A frame an end has written is one of its CALLs, the answer of its handler to a CALL it has
  served, or the refusal of a message that did not parse.\<close>

lemma written_meaning:
  assumes "side_ok H s c n peer" "j \<in> set (written c)"
  obtains (call) m p where "m \<in> set (calls_made c)" "j = call_json m p"
  | (reply) k f where "k < length (served c)" "parsed j = Some f" "ID f = ID (served c ! k)" "\<not> is_call f"
      "Type f = MessageTypeCallResult \<or> Type f = MessageTypeCallError"
      "frame_result f = wire_answer (answer_at H (conn_id c) s (served c) k)"
  | (refusal) x i e f where "x \<in> set (take n (written peer))" "ParseFrame (Inr x) = Inl (i, e)"
      "parsed j = Some f" "ID f = i" "Type f = MessageTypeCallError" "frame_result f = Inl (Errorf (Code e) (Description e))"
proof -
  have "origin H s (take n (written peer)) c j" using assms by (auto simp: side_ok_def end_ok_def)
  then consider "\<exists>m \<in> set (calls_made c). \<exists>p. j = call_json m p" | "is_reply H s c j"
    | "is_refusal (take n (written peer)) j"
    by (auto simp: origin_def)
  then show thesis
  proof cases
    case 1
    then show thesis using call by blast
  next
    case 2
    then obtain k where k: "k < length (served c)"
      "reply_frame (ID (served c ! k)) (answer_at H (conn_id c) s (served c) k) = Some j" by (auto simp: is_reply_def)
    have "ID (served c ! k) \<noteq> []" using served_parsed(2) [OF assms(1) nth_mem [OF k(1)]] parsed_id by blast
    from reply_parses [OF this k(2)] obtain f where f: "ParseFrame (Inr j) = Inr f" "ID f = ID (served c ! k)"
      "Type f = MessageTypeCallResult \<or> Type f = MessageTypeCallError"
      "frame_result f = wire_answer (answer_at H (conn_id c) s (served c) k)" by blast
    then show thesis using reply [OF k(1)] by (auto simp: parsed_def is_call_def message_type_defs)
  next
    case 3
    then obtain x i e where x: "x \<in> set (take n (written peer))" "ParseFrame (Inr x) = Inl (i, e)"
      "callError_frame i e = Some j" by (auto simp: is_refusal_def)
    from refusal_parses [OF refused_id [OF x(2)] x(3)] obtain f where "ParseFrame (Inr j) = Inr f" "ID f = i"
      "Type f = MessageTypeCallError" "frame_result f = Inl (Errorf (Code e) (Description e))" by blast
    then show thesis using refusal [OF x(1,2)] by (auto simp: parsed_def)
  qed
qed

text \<open>The CALL an end has served is one the other end has made.\<close>

lemma parsed_call:
  assumes "side_ok H s c n peer" "j \<in> set (written c)" "parsed j = Some f" "is_call f"
  obtains m p where "m \<in> set (calls_made c)" "snd m \<noteq> []" "j = call_json m p"
    "f = zero_frame\<lparr>Type := MessageTypeCall, ID := fst m, Action := snd m, Payload := Some p\<rparr>"
  using assms(1,2)
proof (cases rule: written_meaning)
  case (call m p)
  then show thesis
    using that assms(3) call_json_parses [OF calls_made_id(2) [OF assms(1) call(1)], of p]
    by (auto simp: parsed_def split: if_splits)
next
  case (reply k f')
  then show thesis using assms(3,4) by simp
next
  case (refusal x i e f')
  then show thesis using assms(3,4) by (simp add: is_call_def message_type_defs)
qed

lemma refused_call:
  assumes "side_ok H s c n peer" "j \<in> set (written c)" "ParseFrame (Inr j) = Inl (i, e)"
  obtains m where "m \<in> set (calls_made c)" "snd m = []" "i = fst m"
  using assms(1,2)
proof (cases rule: written_meaning)
  case (call m p)
  then show thesis
    using that assms(3) call_json_parses [OF calls_made_id(2) [OF assms(1) call(1)], of p] by (auto split: if_splits)
qed (use assms(3) in \<open>simp_all add: parsed_def\<close>)

lemma call_by_id:
  assumes "side_ok H s c n peer" "small c" "m \<in> set (calls_made c)" "w \<in> set (callers c)" "fst m = call_id w"
  shows "m = (call_id w, call_action w)"
proof -
  obtain k where k: "k < length (callers c)" "m = calls_made c ! k" "fst m = nth_id k"
    using calls_made_id(1) [OF assms(1,3)] by blast
  obtain k' where k': "k' < length (callers c)" "w = callers c ! k'" using assms(4) by (auto simp: in_set_conv_nth)
  then have "call_id w = nth_id k'" using assms(1) by (simp add: side_ok_def conn_inv_def ids_ok_def)
  then have "k = k'" using k k'(1) assms(2,5) nth_id_inj [of k k'] by (simp add: small_def)
  then show ?thesis using k(2) k' by (simp add: calls_made_def)
qed

text \<open>The \<open>k\<close>-th CALL served is the one \<open>w\<close> made.\<close>

definition serves_call :: "'a conn \<Rightarrow> 'b conn \<Rightarrow> caller_state \<Rightarrow> nat \<Rightarrow> bool" where
  "serves_call c peer w k \<longleftrightarrow>
     k < length (served peer) \<and> ID (served peer ! k) = call_id w \<and> Action (served peer ! k) = call_action w \<and>
     (\<exists>p. Payload (served peer ! k) = Some p \<and> call_json (call_id w, call_action w) p \<in> set (written c))"

lemma served_call:
  assumes "side_ok HL sl c n peer" "side_ok HR sr peer n' c" "small c" "w \<in> set (callers c)"
    "k < length (served peer)" "ID (served peer ! k) = call_id w"
  shows "serves_call c peer w k"
proof -
  obtain j where j: "j \<in> set (take n' (written c))" "parsed j = Some (served peer ! k)" "is_call (served peer ! k)"
    using served_parsed [OF assms(2) nth_mem [OF assms(5)]] by blast
  have jw: "j \<in> set (written c)" using j(1) by (rule in_set_takeD)
  from assms(1) jw j(2,3) show ?thesis
  proof (rule parsed_call)
    fix m p
    assume m: "m \<in> set (calls_made c)" "j = call_json m p"
      "served peer ! k = zero_frame\<lparr>Type := MessageTypeCall, ID := fst m, Action := snd m, Payload := Some p\<rparr>"
    then have "m = (call_id w, call_action w)" using call_by_id [OF assms(1,3) m(1) assms(4)] assms(6) by simp
    then show ?thesis using m jw assms(5) by (simp add: serves_call_def)
  qed
qed

lemma response_meaning:
  assumes "side_ok HL sl c n peer" "side_ok HR sr peer n' c" "small c" "w \<in> set (callers c)" "call_action w \<noteq> []"
    "answered_by (received c) (call_id w) r"
  shows "\<exists>k. serves_call c peer w k \<and> r = wire_answer (answer_at HR (conn_id peer) sr (served peer) k)"
proof -
  obtain f where f: "f \<in> set (received c)" "Type f = MessageTypeCallResult \<or> Type f = MessageTypeCallError"
      "ID f = call_id w" "frame_result f = r" using assms(6) by (auto simp: answered_by_def)
  then have nc: "\<not> is_call f" by (auto simp: is_call_def message_type_defs)
  have "f \<in> set (List.map_filter parsed (take n (written peer)))"
    using f(1) assms(1) by (simp add: side_ok_def end_ok_def)
  then obtain j where "j \<in> set (take n (written peer))" and p: "parsed j = Some f" by (auto simp: map_filter_in)
  then have "j \<in> set (written peer)" by (meson in_set_takeD)
  with assms(2) show ?thesis
  proof (cases rule: written_meaning)
    case (call m q)
    then show ?thesis
      using p nc call_json_parses [OF calls_made_id(2) [OF assms(2) call(1)], of q]
      by (auto simp: parsed_def is_call_def split: if_splits)
  next
    case (reply k f')
    then have "serves_call c peer w k" using p f(3) by (intro served_call [OF assms(1-4)]) simp_all
    then show ?thesis using reply p f(4) by auto
  next
    case (refusal x i e f')
    have "x \<in> set (written c)" using refusal(1) by (rule in_set_takeD)
    from assms(1) this refusal(2) show ?thesis
    proof (rule refused_call)
      fix m
      assume m: "m \<in> set (calls_made c)" "snd m = []" "i = fst m"
      have "m = (call_id w, call_action w)"
        using call_by_id [OF assms(1,3) m(1) assms(4)] m(3) refusal(3,4) p f(3) by simp
      then show ?thesis using m(2) assms(5) by simp
    qed
  qed
qed

end
