(* ===== verification/Ocppj_Remote.thy ===== *)
theory Ocppj_Remote
  imports Ocppj_Duplex
begin

text \<open>
  The properties of two connected ends (\<open>internal/ocpp/ocppj/conn.go\<close> on both sides): remote calls
  are linearizable, executed at most once, and not lost while both ends stay open. For the last,
  a call that has been sent is always on its way, being served, or its answer is; and although the
  queues between the goroutines are bounded and every send may block, the goroutines of the two
  ends can never block each other for good.
\<close>

subsection \<open>An open connection has all its goroutines\<close>

definition open_ok :: "'s conn \<Rightarrow> bool" where
  "open_ok c \<longleftrightarrow> (\<not> closed c \<longrightarrow>
     (\<forall>r. reader c \<noteq> ReaderDone r) \<and> handler c \<noteq> HandlerDone \<and> writer c = Writing)"

lemma open_ok_step: "conn_step H c c' \<Longrightarrow> open_ok c \<Longrightarrow> open_ok c'"
proof (induction rule: conn_step.induct)
  case (s_read c d)
  then show ?case
    by (auto simp: open_ok_def read_message_def Let_def split: sum.split option.split)
next
  case (s_serve c f fs)
  then show ?case by (auto simp: open_ok_def serve_next_def Let_def split: prod.split option.split)
qed (auto simp: open_ok_def)

lemma open_ok_new: "open_ok (NewConn i v ct it s)"
  by (simp add: open_ok_def NewConn_def)

lemma closed_step: "conn_step H c c' \<Longrightarrow> closed c \<Longrightarrow> closed c'"
  by (induction rule: conn_step.induct) simp_all

subsection \<open>Calls on their way\<close>

text \<open>The message id a response frame is addressed to.\<close>

definition response_id :: "json \<Rightarrow> string option" where
  "response_id j = (case parsed j of None \<Rightarrow> None | Some f \<Rightarrow> if is_call f then None else Some (ID f))"

text \<open>The CALLs an end has out, and the answers the other end has for them.\<close>

definition asking_ids :: "nat \<Rightarrow> 'a conn \<Rightarrow> string set" where
  "asking_ids n c = set (List.map_filter json_call_id (drop n (written c) @ send c))"

definition serving_ids :: "'b conn \<Rightarrow> string set" where
  "serving_ids c = ID ` (set (calls c) \<union> {f. reader c = Queueing f})"

definition answering_ids :: "nat \<Rightarrow> 'b conn \<Rightarrow> string set" where
  "answering_ids n c =
     {i. \<exists>j \<in> set (drop n (written c) @ send c) \<union> {j. handler c = Replying j} \<union> {j. reader c = Answering j}.
         response_id j = Some i}"

definition in_flight :: "('a, 'b) duplex \<Rightarrow> nat \<Rightarrow> bool" where
  "in_flight d k \<longleftrightarrow>
     nth_id k \<in> asking_ids (rread d) (lconn d) \<union> serving_ids (rconn d) \<union> answering_ids (lread d) (rconn d) \<or>
     (\<exists>r. reader (lconn d) = Delivering k r)"

definition unanswered :: "'a conn \<Rightarrow> nat \<Rightarrow> bool" where
  "unanswered c k \<longleftrightarrow>
     k < length (callers c) \<and> call_phase (callers c ! k) = Waiting \<and> call_chan (callers c ! k) = None"

definition none_lost :: "('a, 'b) duplex \<Rightarrow> bool" where
  "none_lost d \<longleftrightarrow>
     (\<not> closed (lconn d) \<and> \<not> closed (rconn d) \<and> small (lconn d) \<longrightarrow> (\<forall>k. unanswered (lconn d) k \<longrightarrow> in_flight d k))"

subsection \<open>Steps of the calling end\<close>

lemma asking_quiet:
  assumes "conn_step H c c'" "\<not> closed c'" "n \<le> length (written c)"
  shows "asking_ids n c \<subseteq> asking_ids n c'"
  using assms
proof (induction rule: conn_step.induct)
  case (s_written c j js)
  then show ?case by (auto simp: asking_ids_def List.map_filter_def)
qed (auto simp: asking_ids_def List.map_filter_def)

lemma unanswered_quiet:
  assumes "conn_step H c c'" "unanswered c' k"
  shows "unanswered c k \<or> (\<exists>j. k < length (callers c) \<and> call_phase (callers c ! k) = Sending j)"
  using assms
proof (induction rule: conn_step.induct)
  case (s_enter c a p)
  then show ?case
    by (auto simp: unanswered_def call_enter_def Let_def nth_append split: sum.splits if_splits)
next
  case (s_delivered c k' r)
  then show ?case
    by (cases "k' < length (callers c)")
      (auto simp: unanswered_def deliver_def Let_def nth_list_update list_update_beyond split: option.splits if_splits)
qed (auto simp: unanswered_def nth_list_update split: if_splits)

lemma newly_sent:
  assumes "conn_step H c c'" "unanswered c' k" "k < length (callers c)" "call_phase (callers c ! k) = Sending j"
  shows "c' = set_caller k ((callers c ! k)\<lparr>call_phase := Waiting\<rparr>) (c\<lparr>send := send c @ [j]\<rparr>)"
  using assms
proof (cases rule: conn_step.cases)
  case (s_enter a p)
  then show ?thesis
    using assms(2-4) by (auto simp: unanswered_def call_enter_def Let_def nth_append split: sum.splits)
next
  case (s_sent k' j')
  then show ?thesis using assms(2-4) by (cases "k' = k") (auto simp: unanswered_def)
next
  case (s_delivered k' r)
  then show ?thesis using assms(2-4) by (simp add: unanswered_def)
qed (auto simp: unanswered_def nth_list_update split: if_splits)

lemma sending_asks:
  assumes "side_ok H s c n peer" "k < length (callers c)" "call_phase (callers c ! k) = Sending j"
  shows "json_call_id j = Some (nth_id k)"
proof -
  obtain p where "j = call_json (calls_made c ! k) p"
    using assms unfolding side_ok_def end_ok_def by blast
  then show ?thesis using assms(1,2) by (simp add: calls_made_def side_ok_def conn_inv_def ids_ok_def)
qed

lemma delivering_quiet:
  assumes "conn_quiet H c c'" "reader c = Delivering k r" "\<not> closed c'"
  shows "reader c' = Delivering k r \<or> \<not> unanswered c' k"
proof -
  have "conn_step H c c'" using assms(1) by (simp add: conn_quiet_def)
  then show ?thesis
  proof (cases rule: conn_step.cases)
    case (s_delivered k' r')
    then show ?thesis
      using assms(2) by (auto simp: unanswered_def deliver_def Let_def split: option.split)
  qed (use assms(2,3) in auto)
qed

lemma caller_quiet:
  assumes "conn_quiet H c c'" "side_ok H s c n peer" "\<not> closed c'" "m \<le> length (written c)" "unanswered c' k"
  shows "unanswered c k \<and> (\<forall>r. reader c = Delivering k r \<longrightarrow> reader c' = Delivering k r) \<or> nth_id k \<in> asking_ids m c'"
proof (cases "\<exists>j. k < length (callers c) \<and> call_phase (callers c ! k) = Sending j")
  case True
  then obtain j where j: "k < length (callers c)" "call_phase (callers c ! k) = Sending j" by blast
  have "conn_step H c c'" using assms(1) by (simp add: conn_quiet_def)
  from newly_sent [OF this assms(5) j] show ?thesis
    using sending_asks [OF assms(2) j] by (auto simp: asking_ids_def map_filter_in)
next
  case False
  have "conn_step H c c'" using assms(1) by (simp add: conn_quiet_def)
  from unanswered_quiet [OF this assms(5)] False show ?thesis
    using delivering_quiet [OF assms(1) _ assms(3)] assms(5) by blast
qed

lemma none_lost_left:
  assumes "conn_quiet HL (lconn d) c" "duplex_inv HL HR sl sr d" "none_lost d"
  shows "none_lost (d\<lparr>lconn := c\<rparr>)"
proof -
  let ?d = "d\<lparr>lconn := c\<rparr>"
  have st: "conn_step HL (lconn d) c" using assms(1) by (simp add: conn_quiet_def)
  have l: "side_ok HL sl (lconn d) (lread d) (rconn d)" and m: "rread d \<le> length (written (lconn d))"
    using assms(2) by (simp_all add: duplex_inv_def side_ok_def)
  have "in_flight ?d k"
    if o: "\<not> closed c" "\<not> closed (rconn d)" "small c" and k: "unanswered c k" for k
  proof (cases "nth_id k \<in> asking_ids (rread d) c")
    case False
    with caller_quiet [OF assms(1) l o(1) m k] have u: "unanswered (lconn d) k"
        "\<forall>r. reader (lconn d) = Delivering k r \<longrightarrow> reader c = Delivering k r" by auto
    have "\<not> closed (lconn d)" "small (lconn d)"
      using o(1,3) closed_step [OF st] callers_grow [OF st] by (auto simp: small_def)
    then have "in_flight d k" using assms(3) o(2) u(1) by (simp add: none_lost_def)
    moreover have "asking_ids (rread d) (lconn d) \<subseteq> asking_ids (rread d) c" by (rule asking_quiet [OF st o(1) m])
    ultimately show ?thesis using u(2) by (auto simp: in_flight_def)
  qed (simp add: in_flight_def)
  then show ?thesis by (simp add: none_lost_def)
qed

subsection \<open>Steps of the answering end\<close>

lemma answering_mono:
  "set (drop n (written c) @ send c) \<union> {j. handler c = Replying j} \<union> {j. reader c = Answering j} \<subseteq>
   set (drop n (written c') @ send c') \<union> {j. handler c' = Replying j} \<union> {j. reader c' = Answering j} \<Longrightarrow>
   answering_ids n c \<subseteq> answering_ids n c'"
  unfolding answering_ids_def by blast

text \<open>The answer to a CALL served is on its way at once.\<close>

lemma serving_answers:
  assumes "side_ok H s c n peer" "handler c = HandlerIdle" "calls c = f # fs"
  shows "ID f \<in> answering_ids m (serve_next H f c)"
proof -
  obtain rest where r: "filter is_call (received c) = served c @ calls c @ rest"
    using assms(1) by (auto simp: side_ok_def conn_inv_def order_ok_def)
  then have "f \<in> set (filter is_call (received c))" using assms(3) by simp
  then obtain x where "parsed x = Some f" using assms(1) by (auto simp: side_ok_def end_ok_def map_filter_in)
  then have i: "ID f \<noteq> []" by (rule parsed_id)
  obtain r s' where d: "dispatch H (conn_id c) f (hstate c) = (r, s')" by (cases "dispatch H (conn_id c) f (hstate c)")
  have "\<exists>j. reply_frame (ID f) r = Some j"
    by (auto simp: reply_frame_def callError_frame_def EncodeCallError_def split: sum.split)
  then obtain j where j: "reply_frame (ID f) r = Some j" by blast
  from reply_parses [OF i j] have "response_id j = Some (ID f)"
    by (auto simp: response_id_def parsed_def is_call_def message_type_defs)
  moreover have "handler (serve_next H f c) = Replying j" using d j by (simp add: serve_next_def)
  ultimately show ?thesis by (auto simp: answering_ids_def)
qed

lemma callee_quiet:
  assumes "conn_quiet H c c'" "side_ok H s c n peer" "\<not> closed c'" "m \<le> length (written c)"
  shows "serving_ids c \<union> answering_ids m c \<subseteq> serving_ids c' \<union> answering_ids m c'"
proof -
  have st: "conn_step H c c'" using assms(1) by (simp add: conn_quiet_def)
  then show ?thesis
  proof (cases rule: conn_step.cases)
    case (s_read d)
    then show ?thesis using assms(1) quiet_read [of c H d] by simp
  next
    case (s_serve f fs)
    have "answering_ids m c \<subseteq> answering_ids m c'"
      using s_serve by (intro answering_mono) auto
    moreover have "serving_ids c \<subseteq> insert (ID f) (serving_ids c')" using s_serve by (auto simp: serving_ids_def)
    moreover have "ID f \<in> answering_ids m c'" using serving_answers [OF assms(2)] s_serve by simp
    ultimately show ?thesis by blast
  next
    case (s_queued f)
    have "answering_ids m c \<subseteq> answering_ids m c'" using s_queued by (intro answering_mono) auto
    moreover have "serving_ids c = serving_ids c'" using s_queued by (auto simp: serving_ids_def)
    ultimately show ?thesis by blast
  next
    case (s_written j js)
    have "answering_ids m c \<subseteq> answering_ids m c'" using s_written assms(4) by (intro answering_mono) auto
    moreover have "serving_ids c = serving_ids c'" using s_written by (auto simp: serving_ids_def)
    ultimately show ?thesis by blast
  next
    case (s_delivered k r)
    have "answering_ids m c \<subseteq> answering_ids m c'" using s_delivered by (intro answering_mono) auto
    moreover have "serving_ids c \<subseteq> serving_ids c'" using s_delivered by (auto simp: serving_ids_def)
    ultimately show ?thesis by blast
  qed (use assms(3) closed_step [OF st] in \<open>auto simp: serving_ids_def answering_ids_def\<close>)
qed

lemma none_lost_right:
  assumes "conn_quiet HR (rconn d) c" "duplex_inv HL HR sl sr d" "none_lost d"
  shows "none_lost (d\<lparr>rconn := c\<rparr>)"
proof -
  have st: "conn_step HR (rconn d) c" using assms(1) by (simp add: conn_quiet_def)
  have r: "side_ok HR sr (rconn d) (rread d) (lconn d)" and m: "lread d \<le> length (written (rconn d))"
    using assms(2) by (simp_all add: duplex_inv_def side_ok_def)
  have "serving_ids (rconn d) \<union> answering_ids (lread d) (rconn d) \<subseteq> serving_ids c \<union> answering_ids (lread d) c" if "\<not> closed c"
    by (rule callee_quiet [OF assms(1) r that m])
  then show ?thesis
    using assms(3) closed_step [OF st] by (auto simp: none_lost_def in_flight_def)
qed

lemma parsed_type:
  assumes "parsed j = Some f" "\<not> is_call f"
  shows "Type f = MessageTypeCallResult \<or> Type f = MessageTypeCallError"
proof (cases rule: ParseFrame_cases [of "Inr j"])
  case (bad e)
  then show ?thesis using assms(1) by (simp add: parsed_def)
next
  case (body t i x xs ty)
  have "parse_body (t # JStr i # x # xs) ty i = Inr f"
    using assms(1) body(4) by (auto simp: parsed_def split: sum.splits)
  then show ?thesis
    using assms(2) by (auto simp: parse_body_def Let_def is_call_def zero_frame_def split: if_splits sum.splits)
qed

text \<open>Reading an answer finds its caller.\<close>

lemma read_answer:
  assumes "response_id j = Some (nth_id k)" "pending c (nth_id k) = Some k"
  shows "\<exists>r. reader (read_message (Inr j) c) = Delivering k r"
proof -
  obtain f where f: "parsed j = Some f" "\<not> is_call f" "ID f = nth_id k"
    using assms(1) by (auto simp: response_id_def split: option.splits if_splits)
  from parsed_type [OF f(1,2)] show ?thesis
    using f assms(2) by (auto simp: read_message_def parsed_def is_call_def Let_def split: sum.splits)
qed

lemma none_lost_left_reads:
  assumes "reader (lconn d) = Reading" "lread d < length (written (rconn d))" "duplex_inv HL HR sl sr d" "none_lost d"
  shows "none_lost (d\<lparr>lconn := read_message (Inr (written (rconn d) ! lread d)) (lconn d), lread := Suc (lread d)\<rparr>)"
proof -
  let ?j = "written (rconn d) ! lread d"
  let ?c = "read_message (Inr ?j) (lconn d)"
  let ?d = "d\<lparr>lconn := ?c, lread := Suc (lread d)\<rparr>"
  have drop: "drop (lread d) (written (rconn d)) = ?j # drop (Suc (lread d)) (written (rconn d))"
    using assms(2) by (simp add: Cons_nth_drop_Suc)
  have "in_flight ?d k"
    if o: "\<not> closed (lconn d)" "\<not> closed (rconn d)" "small (lconn d)" and k: "unanswered (lconn d) k" for k
  proof (cases "response_id ?j = Some (nth_id k)")
    case True
    have "pending (lconn d) (nth_id k) = Some k"
      using k o(3) assms(3) by (simp add: unanswered_def duplex_inv_def side_ok_def conn_inv_def pending_ok_def)
    from read_answer [OF True this] show ?thesis by (simp add: in_flight_def)
  next
    case False
    have "nth_id k \<in> answering_ids (Suc (lread d)) (rconn d)" if "nth_id k \<in> answering_ids (lread d) (rconn d)"
      using that False unfolding answering_ids_def drop by auto
    then show ?thesis
      using assms(1,4) o k by (auto simp: none_lost_def in_flight_def asking_ids_def)
  qed
  then show ?thesis by (simp add: none_lost_def unanswered_def small_def)
qed

text \<open>A CALL read is queued, or refused with an answer of its own id.\<close>

lemma read_call:
  assumes "side_ok H s c n peer" "j \<in> set (written c)" "json_call_id j = Some i"
  shows "i \<in> serving_ids (read_message (Inr j) b) \<union> answering_ids m (read_message (Inr j) b)"
proof -
  have "origin H s (take n (written peer)) c j" using assms(1,2) by (auto simp: side_ok_def end_ok_def)
  then obtain w p where call: "w \<in> set (calls_made c)" "j = call_json w p"
    using assms(3) is_reply_not_call [of H s c j] is_refusal_not_call [of _ j] by (auto simp: origin_def)
  have i: "fst w = i" "i \<noteq> []" using call assms(3) calls_made_id(2) [OF assms(1) call(1)] by auto
  show ?thesis
  proof (cases "snd w = []")
    case True
    obtain j' where j': "callError_frame i (framework_error ''action is empty'') = Some j'"
      by (simp add: callError_frame_def EncodeCallError_def)
    from refusal_parses [OF i(2) j'] have "response_id j' = Some i"
      by (auto simp: response_id_def parsed_def is_call_def message_type_defs)
    moreover have "reader (read_message (Inr j) b) = Answering j'"
      using True call i j' call_json_parses [of w p] by (simp add: read_message_def)
    ultimately show ?thesis by (auto simp: answering_ids_def)
  next
    case False
    then show ?thesis
      using call i call_json_parses [of w p] by (simp add: read_message_def serving_ids_def zero_frame_def)
  qed
qed

lemma none_lost_right_reads:
  assumes "reader (rconn d) = Reading" "rread d < length (written (lconn d))" "duplex_inv HL HR sl sr d" "none_lost d"
  shows "none_lost (d\<lparr>rconn := read_message (Inr (written (lconn d) ! rread d)) (rconn d), rread := Suc (rread d)\<rparr>)"
proof -
  let ?j = "written (lconn d) ! rread d"
  let ?c = "read_message (Inr ?j) (rconn d)"
  let ?d = "d\<lparr>rconn := ?c, rread := Suc (rread d)\<rparr>"
  have l: "side_ok HL sl (lconn d) (lread d) (rconn d)" using assms(3) by (simp add: duplex_inv_def)
  have drop: "drop (rread d) (written (lconn d)) = ?j # drop (Suc (rread d)) (written (lconn d))"
    using assms(2) by (simp add: Cons_nth_drop_Suc)
  have sub: "serving_ids (rconn d) \<union> answering_ids (lread d) (rconn d) \<subseteq> serving_ids ?c \<union> answering_ids (lread d) ?c"
    using assms(1) by (auto simp: serving_ids_def answering_ids_def)
  have ask: "asking_ids (rread d) (lconn d) \<subseteq> asking_ids (Suc (rread d)) (lconn d) \<union> {i. json_call_id ?j = Some i}"
    unfolding asking_ids_def drop by (auto simp: List.map_filter_def split: if_splits)
  have "nth_id k \<in> serving_ids ?c \<union> answering_ids (lread d) ?c" if "json_call_id ?j = Some (nth_id k)" for k
    using read_call [OF l nth_mem [OF assms(2)] that] .
  then have "in_flight d k \<Longrightarrow> in_flight ?d k" for k
    using sub ask by (auto simp: in_flight_def)
  then show ?thesis using assms(4) by (simp add: none_lost_def)
qed

definition live_inv :: "'a conn_handler \<Rightarrow> 'b conn_handler \<Rightarrow> 'a \<Rightarrow> 'b \<Rightarrow> ('a, 'b) duplex \<Rightarrow> bool" where
  "live_inv HL HR sl sr d \<longleftrightarrow> duplex_inv HL HR sl sr d \<and> open_ok (lconn d) \<and> open_ok (rconn d) \<and> none_lost d"

lemma live_inv_init: "duplex_init sl sr d \<Longrightarrow> live_inv HL HR sl sr d"
proof -
  assume i: "duplex_init sl sr d"
  then have "callers (lconn d) = []" by (auto simp: duplex_init_def NewConn_def)
  then have "none_lost d" by (simp add: none_lost_def unanswered_def)
  then show ?thesis
    using duplex_inv_init [OF i] i by (auto simp: live_inv_def duplex_init_def open_ok_new)
qed

lemma live_inv_step:
  assumes "live_inv HL HR sl sr d" "duplex_step HL HR d d'"
  shows "live_inv HL HR sl sr d'"
proof -
  have i: "duplex_inv HL HR sl sr d" "none_lost d" "open_ok (lconn d)" "open_ok (rconn d)"
    using assms(1) by (simp_all add: live_inv_def)
  have inv: "duplex_inv HL HR sl sr d'" by (rule duplex_inv_step [OF i(1) assms(2)])
  from assms(2) show ?thesis
  proof (cases rule: duplex_step.cases)
    case (d_left c)
    then show ?thesis
      using inv i none_lost_left [OF d_left(2) i(1,2)] open_ok_step [of HL "lconn d" c]
      by (simp add: live_inv_def conn_quiet_def)
  next
    case (d_right c)
    then show ?thesis
      using inv i none_lost_right [OF d_right(2) i(1,2)] open_ok_step [of HR "rconn d" c]
      by (simp add: live_inv_def conn_quiet_def)
  next
    case d_left_reads
    then show ?thesis
      using inv i none_lost_left_reads [OF d_left_reads(2,3) i(1,2)] open_ok_step [OF s_read [OF d_left_reads(2)]]
      by (simp add: live_inv_def)
  next
    case d_right_reads
    then show ?thesis
      using inv i none_lost_right_reads [OF d_right_reads(2,3) i(1,2)] open_ok_step [OF s_read [OF d_right_reads(2)]]
      by (simp add: live_inv_def)
  qed
qed

interpretation live: invariant_system "duplex_init sl sr" "duplex_step HL HR" "live_inv HL HR sl sr" for sl sr HL HR
  by unfold_locales (auto intro: live_inv_init live_inv_step)

subsection \<open>The goroutines cannot block each other\<close>

text \<open>
  What is left to do, weighted so that every goroutine that moves on makes it smaller: a CALL not yet
  sent, a frame in a queue, a frame on the wire, a CALL in the hands of the reader, the queue or
  the handler, an answer.
\<close>

definition frame_work :: "json \<Rightarrow> nat" where
  "frame_work j = (case parsed j of None \<Rightarrow> 9 | Some f \<Rightarrow> if is_call f then 9 else 2)"

fun caller_work :: "call_phase \<Rightarrow> nat" where
  "caller_work (Sending j) = 12"
| "caller_work _ = 0"

fun reader_work :: "reader_phase \<Rightarrow> nat" where
  "reader_work (Queueing f) = 8"
| "reader_work (Answering j) = 4"
| "reader_work (Delivering k r) = 1"
| "reader_work _ = 0"

fun handler_work :: "handler_phase \<Rightarrow> nat" where
  "handler_work (Replying j) = 4"
| "handler_work _ = 0"

definition wire_work :: "json list \<Rightarrow> nat" where
  "wire_work js = sum_list (map frame_work js)"

definition conn_work :: "'s conn \<Rightarrow> nat" where
  "conn_work c =
     sum_list (map (\<lambda>w. caller_work (call_phase w)) (callers c)) + (wire_work (send c) + length (send c)) +
     reader_work (reader c) + 7 * length (calls c) + handler_work (handler c)"

definition idle_end :: "'s conn \<Rightarrow> bool" where
  "idle_end c \<longleftrightarrow> send c = [] \<and> calls c = [] \<and> reader c = Reading \<and> handler c = HandlerIdle \<and>
     (\<forall>w \<in> set (callers c). \<forall>j. call_phase w \<noteq> Sending j)"

text \<open>A move keeps the connection open and every call in progress; \<open>js\<close> is what it writes.\<close>

definition moves :: "'s conn_handler \<Rightarrow> 's conn \<Rightarrow> 's conn \<Rightarrow> bool" where
  "moves H c c' \<longleftrightarrow>
     conn_quiet H c c' \<and> \<not> closed c' \<and> length (callers c') = length (callers c) \<and>
     (\<forall>k < length (callers c). active (call_phase (callers c ! k)) \<longrightarrow> active (call_phase (callers c' ! k))) \<and>
     (\<exists>js. written c' = written c @ js \<and> conn_work c' + wire_work js < conn_work c)"

lemma wire_work_simps [simp]:
  "wire_work [] = 0" "wire_work (j # js) = frame_work j + wire_work js"
  "wire_work (js @ ks) = wire_work js + wire_work ks"
  by (simp_all add: wire_work_def)

lemma frame_work_le: "frame_work j \<le> 9"
  by (simp add: frame_work_def split: option.split)

lemma response_work: "response_id j = Some i \<Longrightarrow> frame_work j = 2"
  by (auto simp: response_id_def frame_work_def split: option.splits if_splits)

lemma reply_response:
  assumes "side_ok H s c n peer" "handler c = Replying j"
  shows "\<exists>i. response_id j = Some i"
proof -
  obtain k where k: "k < length (served c)"
      "reply_frame (ID (served c ! k)) (answer_at H (conn_id c) s (served c) k) = Some j"
    using assms by (auto simp: side_ok_def end_ok_def is_reply_def)
  have "ID (served c ! k) \<noteq> []" using served_parsed(2) [OF assms(1) nth_mem [OF k(1)]] parsed_id by blast
  from reply_parses [OF this k(2)] show ?thesis
    by (auto simp: response_id_def parsed_def is_call_def message_type_defs)
qed

lemma refusal_response:
  assumes "side_ok H s c n peer" "reader c = Answering j"
  shows "\<exists>i. response_id j = Some i"
proof -
  obtain x i e where x: "ParseFrame (Inr x) = Inl (i, e)" "callError_frame i e = Some j"
    using assms by (auto simp: side_ok_def end_ok_def is_refusal_def)
  from refusal_parses [OF refused_id [OF x(1)] x(2)] show ?thesis
    by (auto simp: response_id_def parsed_def is_call_def message_type_defs)
qed

lemma conn_quietI:
  "conn_step H c c' \<Longrightarrow> received c' = received c \<Longrightarrow> (reader c = Reading \<Longrightarrow> reader c' = Reading) \<Longrightarrow> conn_quiet H c c'"
  by (simp add: conn_quiet_def)

lemma send_moves:
  assumes "\<not> closed c" "k < length (callers c)" "call_phase (callers c ! k) = Sending j" "send c = []"
  shows "\<exists>c'. moves H c c'"
proof
  let ?w = "(callers c ! k)\<lparr>call_phase := Waiting\<rparr>"
  let ?c = "set_caller k ?w (c\<lparr>send := send c @ [j]\<rparr>)"
  let ?f = "\<lambda>w. caller_work (call_phase w)"
  have st: "conn_step H c ?c" using assms by (intro s_sent) (simp_all add: sendBuffer_def)
  have "12 \<le> sum_list (map ?f (callers c))"
    using elem_le_sum_list [of k "map ?f (callers c)"] assms(2,3) by simp
  moreover have "sum_list (map ?f ((callers c)[k := ?w])) = sum_list (map ?f (callers c)) - 12"
    using assms(2,3) by (simp add: map_update sum_list_update)
  ultimately have "conn_work ?c < conn_work c"
    using assms(4) frame_work_le [of j] by (simp add: conn_work_def)
  then show "moves H c ?c"
    using assms(1,2) by (auto simp: moves_def nth_list_update intro!: conn_quietI [OF st])
qed

lemma movesI:
  assumes "conn_step H c c'" "received c' = received c" "reader c = Reading \<Longrightarrow> reader c' = Reading" "\<not> closed c'"
    "callers c' = callers c" "written c' = written c @ js" "conn_work c' + wire_work js < conn_work c"
  shows "\<exists>c'. moves H c c'"
  using assms conn_quietI [OF assms(1-3)] by (intro exI [of _ c']) (auto simp: moves_def)

lemma write_moves:
  assumes "\<not> closed c" "writer c = Writing" "send c = j # js"
  shows "\<exists>c'. moves H c c'"
  using s_written [OF assms(2,3), of H] by (rule movesI [where js = "[j]"]) (use assms in \<open>simp_all add: conn_work_def\<close>)

lemma reply_moves:
  assumes "side_ok H s c n peer" "\<not> closed c" "handler c = Replying j" "send c = []"
  shows "\<exists>c'. moves H c c'"
proof -
  obtain i where i: "response_id j = Some i" using reply_response [OF assms(1,3)] by blast
  have "length (send c) < sendBuffer" using assms(4) by (simp add: sendBuffer_def)
  from s_replied [OF assms(3) this, of H] show ?thesis
    by (rule movesI [where js = "[]"]) (use assms response_work [OF i] in \<open>simp_all add: conn_work_def\<close>)
qed

lemma serve_moves:
  assumes "\<not> closed c" "handler c = HandlerIdle" "calls c = f # fs"
  shows "\<exists>c'. moves H c c'"
proof -
  have "handler_work (handler (serve_next H f c)) \<le> 4"
    using assms(2) by (auto simp: serve_next_def Let_def split: prod.split option.split)
  then have "conn_work (serve_next H f c) < conn_work c" using assms(2,3) by (simp add: conn_work_def)
  with s_serve [OF assms(2,3), of H] show ?thesis
    by (intro movesI [where js = "[]" and c' = "serve_next H f c"]) (simp_all add: assms(1))
qed

lemma deliver_work: "sum_list (map (\<lambda>w. caller_work (call_phase w)) (callers (deliver k r c))) =
    sum_list (map (\<lambda>w. caller_work (call_phase w)) (callers c))"
proof -
  have "map (\<lambda>w. caller_work (call_phase w)) (callers (deliver k r c)) = map (\<lambda>w. caller_work (call_phase w)) (callers c)"
    by (rule nth_equalityI) simp_all
  then show ?thesis by simp
qed

lemma reader_moves:
  assumes "side_ok H s c n peer" "open_ok c" "\<not> closed c" "send c = []" "reader c \<noteq> Reading" "calls c = []"
  shows "\<exists>c'. moves H c c'"
proof (cases "reader c")
  case (Queueing f)
  have "length (calls c) < callBuffer" using assms(6) by (simp add: callBuffer_def)
  from s_queued [OF Queueing this, of H] show ?thesis
    by (rule movesI [where js = "[]"]) (use assms Queueing in \<open>simp_all add: conn_work_def\<close>)
next
  case (Answering j)
  obtain i where i: "response_id j = Some i" using refusal_response [OF assms(1) Answering] by blast
  have "length (send c) < sendBuffer" using assms(4) by (simp add: sendBuffer_def)
  from s_answered [OF Answering this, of H] show ?thesis
    by (rule movesI [where js = "[]"]) (use assms Answering response_work [OF i] in \<open>simp_all add: conn_work_def\<close>)
next
  case (Delivering k r)
  let ?c = "(deliver k r c)\<lparr>reader := Reading\<rparr>"
  have "conn_work ?c < conn_work c" using Delivering deliver_work [of k r c] by (simp add: conn_work_def)
  then show ?thesis
    using assms(3) Delivering
    by (intro exI [of _ ?c]) (auto simp: moves_def intro!: conn_quietI [OF s_delivered [OF Delivering]] exI [of _ "[]"])
next
  case (ReaderDone r)
  then show ?thesis using assms(2,3) by (simp add: open_ok_def)
qed (use assms(5) in simp)

text \<open>An open end that is not idle has a goroutine that can move on, whatever its peer does.\<close>

lemma idle_or_moves:
  assumes "side_ok H s c n peer" "open_ok c" "\<not> closed c" "\<not> idle_end c"
  shows "\<exists>c'. moves H c c'"
proof (cases "send c")
  case (Cons j js)
  then show ?thesis using assms(2,3) by (intro write_moves) (simp_all add: open_ok_def)
next
  case Nil
  consider j where "handler c = Replying j" | "handler c = HandlerIdle"
    using assms(2,3) by (cases "handler c") (auto simp: open_ok_def)
  then show ?thesis
  proof cases
    case 1
    then show ?thesis using reply_moves [OF assms(1,3) _ Nil] by blast
  next
    case handler_idle: 2
    show ?thesis
    proof (cases "calls c")
      case (Cons f fs)
      then show ?thesis using serve_moves [OF assms(3) handler_idle] by blast
    next
      case calls: Nil
      show ?thesis
      proof (cases "reader c = Reading")
        case True
        then obtain w j where "w \<in> set (callers c)" "call_phase w = Sending j"
          using assms(4) Nil calls handler_idle by (auto simp: idle_end_def)
        then obtain k where "k < length (callers c)" "call_phase (callers c ! k) = Sending j"
          by (auto simp: in_set_conv_nth)
        then show ?thesis using send_moves [OF assms(3) _ _ Nil] by blast
      next
        case False
        then show ?thesis using reader_moves [OF assms(1-3) Nil False calls] by blast
      qed
    qed
  qed
qed

subsection \<open>Both ends together\<close>

definition duplex_work :: "('a, 'b) duplex \<Rightarrow> nat" where
  "duplex_work d =
     conn_work (lconn d) + conn_work (rconn d) +
     wire_work (drop (rread d) (written (lconn d))) + wire_work (drop (lread d) (written (rconn d)))"

definition both_open :: "('a, 'b) duplex \<Rightarrow> bool" where
  "both_open d \<longleftrightarrow> \<not> closed (lconn d) \<and> \<not> closed (rconn d)"

text \<open>Nothing is left to do: everything written has been read and every goroutine waits for work.\<close>

definition settled :: "('a, 'b) duplex \<Rightarrow> bool" where
  "settled d \<longleftrightarrow>
     idle_end (lconn d) \<and> idle_end (rconn d) \<and>
     rread d = length (written (lconn d)) \<and> lread d = length (written (rconn d))"

definition keeps_calls :: "'a conn \<Rightarrow> 'a conn \<Rightarrow> bool" where
  "keeps_calls c c' \<longleftrightarrow>
     length (callers c') = length (callers c) \<and>
     (\<forall>k < length (callers c). active (call_phase (callers c ! k)) \<longrightarrow> active (call_phase (callers c' ! k)))"

lemma keeps_calls_refl [simp]: "keeps_calls c c"
  by (simp add: keeps_calls_def)

lemma keeps_calls_trans: "keeps_calls a b \<Longrightarrow> keeps_calls b c \<Longrightarrow> keeps_calls a c"
  by (simp add: keeps_calls_def)

lemma movesE:
  assumes "moves H c c'" "n \<le> length (written c)"
  shows "conn_quiet H c c'" "\<not> closed c'" "keeps_calls c c'"
    "conn_work c' + wire_work (drop n (written c')) < conn_work c + wire_work (drop n (written c))"
proof -
  show "conn_quiet H c c'" "\<not> closed c'" "keeps_calls c c'" using assms(1) by (simp_all add: moves_def keeps_calls_def)
  obtain js where "written c' = written c @ js" "conn_work c' + wire_work js < conn_work c"
    using assms(1) by (auto simp: moves_def)
  then show "conn_work c' + wire_work (drop n (written c')) < conn_work c + wire_work (drop n (written c))"
    using assms(2) by simp
qed

lemma read_work:
  assumes "reader c = Reading"
  shows "conn_work (read_message (Inr j) c) < conn_work c + frame_work j"
  using assms
  by (auto simp: conn_work_def read_message_def frame_work_def parsed_def is_call_def Let_def message_type_defs
      split: sum.split option.split)

lemma duplex_moves:
  assumes "live_inv HL HR sl sr d" "both_open d" "\<not> settled d"
  shows "\<exists>d'. duplex_step HL HR d d' \<and> both_open d' \<and> keeps_calls (lconn d) (lconn d') \<and> duplex_work d' < duplex_work d"
proof -
  have l: "side_ok HL sl (lconn d) (lread d) (rconn d)" "open_ok (lconn d)" "\<not> closed (lconn d)"
    and r: "side_ok HR sr (rconn d) (rread d) (lconn d)" "open_ok (rconn d)" "\<not> closed (rconn d)"
    using assms(1,2) by (simp_all add: live_inv_def duplex_inv_def both_open_def)
  have le: "rread d \<le> length (written (lconn d))" "lread d \<le> length (written (rconn d))"
    using l(1) r(1) by (simp_all add: side_ok_def)
  consider "\<not> idle_end (lconn d)" | "\<not> idle_end (rconn d)"
    | "idle_end (lconn d)" "lread d < length (written (rconn d))" | "idle_end (rconn d)" "rread d < length (written (lconn d))"
    using assms(3) le by (force simp: settled_def)
  then show ?thesis
  proof cases
    case 1
    then obtain c where "moves HL (lconn d) c" using idle_or_moves [OF l] by blast
    note m = movesE [OF this le(1)]
    show ?thesis
      using duplex_step.d_left [OF m(1)] m(2-4) r(3)
      by (intro exI [of _ "d\<lparr>lconn := c\<rparr>"]) (simp add: both_open_def duplex_work_def)
  next
    case 2
    then obtain c where "moves HR (rconn d) c" using idle_or_moves [OF r] by blast
    note m = movesE [OF this le(2)]
    show ?thesis
      using duplex_step.d_right [OF m(1)] m(2-4) l(3)
      by (intro exI [of _ "d\<lparr>rconn := c\<rparr>"]) (simp add: both_open_def duplex_work_def)
  next
    case 3
    let ?j = "written (rconn d) ! lread d"
    let ?d = "d\<lparr>lconn := read_message (Inr ?j) (lconn d), lread := Suc (lread d)\<rparr>"
    have rd: "reader (lconn d) = Reading" using 3(1) by (simp add: idle_end_def)
    have "drop (lread d) (written (rconn d)) = ?j # drop (Suc (lread d)) (written (rconn d))"
      using 3(2) by (simp add: Cons_nth_drop_Suc)
    then have "duplex_work ?d < duplex_work d" using read_work [OF rd, of ?j] by (simp add: duplex_work_def)
    then show ?thesis
      using duplex_step.d_left_reads [OF rd 3(2)] l(3) r(3)
      by (intro exI [of _ ?d]) (simp add: both_open_def keeps_calls_def)
  next
    case 4
    let ?j = "written (lconn d) ! rread d"
    let ?d = "d\<lparr>rconn := read_message (Inr ?j) (rconn d), rread := Suc (rread d)\<rparr>"
    have rd: "reader (rconn d) = Reading" using 4(1) by (simp add: idle_end_def)
    have "drop (rread d) (written (lconn d)) = ?j # drop (Suc (rread d)) (written (lconn d))"
      using 4(2) by (simp add: Cons_nth_drop_Suc)
    then have "duplex_work ?d < duplex_work d" using read_work [OF rd, of ?j] by (simp add: duplex_work_def)
    then show ?thesis
      using duplex_step.d_right_reads [OF rd 4(2)] l(3) r(3)
      by (intro exI [of _ ?d]) (simp add: both_open_def keeps_calls_def)
  qed
qed

lemma duplex_settles:
  assumes "live_inv HL HR sl sr d" "both_open d"
  shows "\<exists>d'. (duplex_step HL HR)\<^sup>*\<^sup>* d d' \<and> both_open d' \<and> settled d' \<and> keeps_calls (lconn d) (lconn d') \<and>
    live_inv HL HR sl sr d'"
  using assms
proof (induction "duplex_work d" arbitrary: d rule: less_induct)
  case less
  show ?case
  proof (cases "settled d")
    case True
    then show ?thesis using less.prems by (intro exI [of _ d]) simp
  next
    case False
    obtain b where b: "duplex_step HL HR d b" "both_open b" "keeps_calls (lconn d) (lconn b)" "duplex_work b < duplex_work d"
      using duplex_moves [OF less.prems False] by blast
    have "live_inv HL HR sl sr b" by (rule live_inv_step [OF less.prems(1) b(1)])
    from less.hyps [OF b(4) this b(2)] show ?thesis
      using b(1,3) by (blast intro: converse_rtranclp_into_rtranclp keeps_calls_trans)
  qed
qed

text \<open>In a settled state no call is on its way, so every call in progress has its answer.\<close>

lemma settled_answered:
  assumes "live_inv HL HR sl sr d" "both_open d" "settled d" "small (lconn d)"
    "k < length (callers (lconn d))" "active (call_phase (callers (lconn d) ! k))"
  shows "call_phase (callers (lconn d) ! k) = Waiting \<and> (\<exists>r. call_chan (callers (lconn d) ! k) = Some r)"
proof -
  have i: "idle_end (lconn d)" "idle_end (rconn d)" using assms(3) by (simp_all add: settled_def)
  then have w: "call_phase (callers (lconn d) ! k) = Waiting"
    using assms(5,6) nth_mem [OF assms(5)] unfolding idle_end_def by (cases "call_phase (callers (lconn d) ! k)") auto
  have "\<not> in_flight d k"
    using i assms(3)
    by (simp add: in_flight_def asking_ids_def serving_ids_def answering_ids_def idle_end_def settled_def List.map_filter_def)
  then have "\<not> unanswered (lconn d) k"
    using assms(1,2,4) by (auto simp: live_inv_def none_lost_def both_open_def)
  then show ?thesis using w assms(5) by (auto simp: unanswered_def)
qed

lemma collect_answers:
  assumes "\<not> closed c"
    "\<forall>k < length (callers c). active (call_phase (callers c ! k)) \<longrightarrow>
       call_phase (callers c ! k) = Waiting \<and> (\<exists>r. call_chan (callers c ! k) = Some r)"
  shows "\<exists>c'. (conn_quiet H)\<^sup>*\<^sup>* c c' \<and> \<not> closed c' \<and> length (callers c') = length (callers c) \<and>
    (\<forall>k < length (callers c). if k < n \<and> active (call_phase (callers c ! k))
       then \<exists>r. call_phase (callers c' ! k) = Returned (call_value r) else callers c' ! k = callers c ! k)"
proof (induction n)
  case 0
  then show ?case using assms(1) by (intro exI [of _ c]) simp
next
  case (Suc n)
  then obtain b where b: "(conn_quiet H)\<^sup>*\<^sup>* c b" "\<not> closed b" "length (callers b) = length (callers c)"
    "\<forall>k < length (callers c). if k < n \<and> active (call_phase (callers c ! k))
       then \<exists>r. call_phase (callers b ! k) = Returned (call_value r) else callers b ! k = callers c ! k" by blast
  show ?case
  proof (cases "n < length (callers c) \<and> active (call_phase (callers c ! n))")
    case True
    then obtain r where r: "call_phase (callers b ! n) = Waiting" "call_chan (callers b ! n) = Some r"
      using assms(2) b(4) by (metis less_irrefl)
    let ?b = "call_return n (call_value r) b"
    have st: "conn_step H b ?b" using True b(3) by (intro s_result r) simp
    have q: "conn_quiet H b ?b" by (rule conn_quietI [OF st]) simp_all
    have "(conn_quiet H)\<^sup>*\<^sup>* c ?b" using b(1) q by (rule rtranclp.rtrancl_into_rtrancl)
    moreover have "if k < Suc n \<and> active (call_phase (callers c ! k))
        then \<exists>r. call_phase (callers ?b ! k) = Returned (call_value r) else callers ?b ! k = callers c ! k"
      if k: "k < length (callers c)" for k
      using b(3,4) k True by (cases "k = n") (auto simp: less_Suc_eq)
    moreover have "\<not> closed ?b" "length (callers ?b) = length (callers c)" using b(2,3) by simp_all
    ultimately show ?thesis by blast
  next
    case False
    have "\<forall>k < length (callers c). if k < Suc n \<and> active (call_phase (callers c ! k))
       then \<exists>r. call_phase (callers b ! k) = Returned (call_value r) else callers b ! k = callers c ! k"
      using b(4) False by (auto simp: less_Suc_eq)
    then show ?thesis using b(1-3) by blast
  qed
qed

lemma duplex_left_run:
  "(conn_quiet HL)\<^sup>*\<^sup>* (lconn d) c \<Longrightarrow> (duplex_step HL HR)\<^sup>*\<^sup>* d (d\<lparr>lconn := c\<rparr>)"
proof (induction rule: rtranclp_induct)
  case (step b c)
  have "duplex_step HL HR (d\<lparr>lconn := b\<rparr>) (d\<lparr>lconn := b\<rparr>\<lparr>lconn := c\<rparr>)" using step(2) by (intro duplex_step.d_left) simp
  then show ?case using step.IH by simp
qed simp

lemma calls_finish:
  assumes "reachable (duplex_init sl sr) (duplex_step HL HR) d" "both_open d" "length (callers (lconn d)) < 2 ^ 64"
  shows "\<exists>d'. (duplex_step HL HR)\<^sup>*\<^sup>* d d' \<and> both_open d' \<and> length (callers (lconn d')) = length (callers (lconn d)) \<and>
    (\<forall>k < length (callers (lconn d)). active (call_phase (callers (lconn d) ! k)) \<longrightarrow>
       (\<exists>r. call_phase (callers (lconn d') ! k) = Returned (call_value r)))"
proof -
  have "live_inv HL HR sl sr d" by (rule live.reachable_inv [OF assms(1)])
  from duplex_settles [OF this assms(2)] obtain e where e: "(duplex_step HL HR)\<^sup>*\<^sup>* d e" "both_open e" "settled e"
    "keeps_calls (lconn d) (lconn e)" "live_inv HL HR sl sr e" by blast
  have n: "length (callers (lconn e)) = length (callers (lconn d))" using e(4) by (simp add: keeps_calls_def)
  then have "small (lconn e)" using assms(3) by (simp add: small_def)
  note answered = settled_answered [OF e(5,2,3) this]
  have "\<not> closed (lconn e)" using e(2) by (simp add: both_open_def)
  from collect_answers [OF this, of HL "length (callers (lconn e))"] answered
  obtain c where c: "(conn_quiet HL)\<^sup>*\<^sup>* (lconn e) c" "\<not> closed c" "length (callers c) = length (callers (lconn e))"
    "\<forall>k < length (callers (lconn e)). active (call_phase (callers (lconn e) ! k)) \<longrightarrow>
       (\<exists>r. call_phase (callers c ! k) = Returned (call_value r))" by auto
  have "(duplex_step HL HR)\<^sup>*\<^sup>* d (e\<lparr>lconn := c\<rparr>)"
    using e(1) duplex_left_run [OF c(1), of HR] by (rule rtranclp_trans)
  moreover have "both_open (e\<lparr>lconn := c\<rparr>)" using e(2) c(2) by (simp add: both_open_def)
  ultimately show ?thesis
    using c(3,4) e(4) n by (intro exI [of _ "e\<lparr>lconn := c\<rparr>"]) (simp add: keeps_calls_def)
qed

subsection \<open>A run for the witnesses\<close>

lemma call_pairs_update:
  "k < length ws \<Longrightarrow>
   (map (\<lambda>w. (call_id w, call_action w)) ws)[k := (call_id (ws ! k), call_action (ws ! k))] =
   map (\<lambda>w. (call_id w, call_action w)) ws"
  by (simp add: list_update_same_conv)

lemma calls_made_step: "conn_step H c c' \<Longrightarrow> \<exists>ms. calls_made c' = calls_made c @ ms"
proof (induction rule: conn_step.induct)
  case (s_enter c a p)
  then show ?case by (auto simp: calls_made_def call_enter_def Let_def split: sum.split)
next
  case (s_delivered c k r)
  have "calls_made ((deliver k r c)\<lparr>reader := Reading\<rparr>) = calls_made (deliver k r c)" by (rule calls_made_same) simp
  then show ?case by simp
qed (auto simp: calls_made_def map_update call_pairs_update)

lemma calls_made_run:
  "(duplex_step HL HR)\<^sup>*\<^sup>* d d' \<Longrightarrow> \<exists>ms. calls_made (lconn d') = calls_made (lconn d) @ ms"
proof (induction rule: rtranclp_induct)
  case (step b c)
  have "\<exists>ms. calls_made (lconn c) = calls_made (lconn b) @ ms"
    using step(2) calls_made_step
    by (cases rule: duplex_step.cases) (auto simp: conn_quiet_def calls_made_def)
  then show ?case using step.IH by auto
qed simp

text \<open>Two ends for the witnesses: one has entered a call, the other counts the CALLs it accepts.\<close>

definition accepting :: "nat conn_handler" where
  "accepting i action p n = (HResult (AnyJson (JStr ''Accepted'')), Suc n)"

definition asked_ends :: "string \<Rightarrow> 'a \<Rightarrow> 'b \<Rightarrow> ('a, 'b) duplex" where
  "asked_ends action s t =
     \<lparr>lconn = call_enter action AnyNil (NewConn ''CP'' Version16 0 0 s), rconn = NewConn ''CP'' Version16 0 0 t,
      lread = 0, rread = 0\<rparr>"

lemma asked_ends_caller:
  "callers (lconn (asked_ends a s t)) = [\<lparr>call_id = dec 1, call_action = a, call_chan = None,
     call_phase = Sending (JArr [JInt MessageTypeCall, JStr (dec 1), JStr a, JObj []])\<rparr>]"
  by (simp add: asked_ends_def call_enter_def EncodeCall_def NewConn_def Let_def)

lemma asked_ends_reachable: "reachable (duplex_init s t) (duplex_step HL HR) (asked_ends a s t)"
proof -
  define d where "d = \<lparr>lconn = NewConn ''CP'' Version16 0 0 s, rconn = NewConn ''CP'' Version16 0 0 t, lread = 0, rread = 0\<rparr>"
  have "duplex_init s t d" by (auto simp: duplex_init_def d_def)
  then have "reachable (duplex_init s t) (duplex_step HL HR) d" by (rule reach_init)
  moreover have "duplex_step HL HR d (d\<lparr>lconn := call_enter a AnyNil (lconn d)\<rparr>)"
    by (rule duplex_step.d_left [OF conn_quietI [OF s_enter]]) simp_all
  ultimately have "reachable (duplex_init s t) (duplex_step HL HR) (d\<lparr>lconn := call_enter a AnyNil (lconn d)\<rparr>)"
    by (rule reach_step)
  then show ?thesis by (simp add: d_def asked_ends_def)
qed

lemma asked_ends_open: "both_open (asked_ends a s t)" "length (callers (lconn (asked_ends a s t))) < 2 ^ 64"
proof -
  show "both_open (asked_ends a s t)" by (simp add: both_open_def asked_ends_def NewConn_def)
qed (simp add: asked_ends_caller)

text \<open>The call can finish; then it has returned what the other end answered.\<close>

lemma asked_ends_finish:
  obtains d r w where "reachable (duplex_init s t) (duplex_step HL HR) d"
    "length (callers (lconn d)) < 2 ^ 64" "w \<in> set (callers (lconn d))" "call_action w = a"
    "call_phase w = Returned (call_value r)"
proof -
  obtain d where d: "(duplex_step HL HR)\<^sup>*\<^sup>* (asked_ends a s t) d"
      "length (callers (lconn d)) = length (callers (lconn (asked_ends a s t)))"
      "\<forall>k < length (callers (lconn (asked_ends a s t))).
         active (call_phase (callers (lconn (asked_ends a s t)) ! k)) \<longrightarrow>
         (\<exists>r. call_phase (callers (lconn d) ! k) = Returned (call_value r))"
    using calls_finish [OF asked_ends_reachable [of s t HL HR a] asked_ends_open]
    by (elim exE conjE) (rule that)
  from d(3) obtain r where r: "call_phase (callers (lconn d) ! 0) = Returned (call_value r)"
    unfolding asked_ends_caller by auto
  have n: "length (callers (lconn d)) = 1" using d(2) by (simp add: asked_ends_caller)
  have "calls_made (lconn d) = [(dec 1, a)]"
  proof -
    obtain ms where "calls_made (lconn d) = calls_made (lconn (asked_ends a s t)) @ ms"
      using calls_made_run [OF d(1)] by blast
    then have m: "calls_made (lconn d) = (dec 1, a) # ms" unfolding calls_made_def asked_ends_caller by simp
    then show ?thesis using n by (cases "callers (lconn d)") (simp_all add: calls_made_def)
  qed
  then have "call_action (callers (lconn d) ! 0) = a" using n by (cases "callers (lconn d)") (simp_all add: calls_made_def)
  moreover have "reachable (duplex_init s t) (duplex_step HL HR) d"
    by (rule rtranclp_reachable [OF d(1) asked_ends_reachable])
  ultimately show thesis using that [of d "callers (lconn d) ! 0" r] r n by simp
qed

subsection \<open>Properties\<close>

lemma returned_answered:
  assumes "side_ok H s c n peer" "w \<in> set (callers c)" "call_phase w = Returned (call_value r)"
  shows "answered_by (received c) (call_id w) r"
proof -
  have "caller_correlated (received c) w"
    using assms(1,2) by (auto simp: side_ok_def conn_inv_def correlated_def list_all_iff)
  then show ?thesis using assms(3) by (cases r) (auto simp: caller_correlated_def call_value_def)
qed



lemma map_filter_call_of: "List.map_filter call_of js = filter is_call (List.map_filter parsed js)"
  by (induction js) (auto simp: List.map_filter_simps call_of_def split: option.split)

lemma distinct_map_filter_key:
  assumes "\<And>x y. x \<in> set xs \<Longrightarrow> f x = Some y \<Longrightarrow> g x = Some (h y)" "distinct (List.map_filter g xs)"
  shows "distinct (map h (List.map_filter f xs)) \<and> set (map h (List.map_filter f xs)) \<subseteq> set (List.map_filter g xs)"
  using assms
proof (induction xs)
  case (Cons x xs)
  have "f x = Some y \<Longrightarrow> g x = Some (h y)" for y using Cons.prems(1) by simp
  then show ?case
    using Cons by (cases "f x"; cases "g x") (auto simp: List.map_filter_simps)
qed (simp add: List.map_filter_simps)

lemma served_once:
  assumes "side_ok HL sl c n peer" "side_ok HR sr peer n' c" "small c"
  shows "prefix (served peer) (List.map_filter call_of (written c))" "distinct (map ID (served peer))"
proof -
  let ?w = "written c"
  obtain rest where "filter is_call (List.map_filter parsed (take n' ?w)) = served peer @ rest"
    using assms(2) by (auto simp: side_ok_def conn_inv_def order_ok_def end_ok_def)
  moreover have "List.map_filter call_of ?w =
      List.map_filter call_of (take n' ?w) @ List.map_filter call_of (drop n' ?w)"
    by (simp flip: map_filter_append)
  ultimately show p: "prefix (served peer) (List.map_filter call_of ?w)"
    by (simp add: map_filter_call_of)
  have key: "json_call_id x = Some (ID f)" if x: "x \<in> set ?w" "call_of x = Some f" for x f
  proof -
    have "parsed x = Some f" "is_call f" using x(2) by (auto simp: call_of_def split: option.splits if_splits)
    with assms(1) x(1) show ?thesis
    proof (rule parsed_call)
      fix m p
      assume "x = call_json m p"
        "f = zero_frame\<lparr>Type := MessageTypeCall, ID := fst m, Action := snd m, Payload := Some p\<rparr>"
      then show ?thesis by simp
    qed
  qed
  have "sent_once c" using assms(1,3) by (simp add: side_ok_def)
  then have "distinct (List.map_filter json_call_id ?w)" by (simp add: sent_once_def sent_calls_def)
  then have "distinct (map ID (List.map_filter call_of ?w))"
    using distinct_map_filter_key [of ?w call_of json_call_id ID] key by blast
  then show "distinct (map ID (served peer))" using p by (auto simp: prefix_def)
qed

text \<open>
  Every CALL is executed at most once and in the order it was written: the CALLs an
  end has served are a prefix of those the other end has written, and no two of them have the same
  message id. This is for the first 2^64 calls.
\<close>

theorem calls_executed_once_in_order:
  assumes "reachable (duplex_init sl sr) (duplex_step HL HR) d" "length (callers (lconn d)) < 2 ^ 64"
  shows "prefix (served (rconn d)) (List.map_filter call_of (written (lconn d))) \<and>
    distinct (map ID (served (rconn d)))"
proof -
  have "duplex_inv HL HR sl sr d" by (rule duplex.reachable_inv [OF assms(1)])
  then show ?thesis
    using served_once [of HL sl "lconn d" "lread d" "rconn d" HR sr "rread d"] assms(2)
    by (simp add: duplex_inv_def small_def)
qed

theorem calls_executed_once_in_order_witness:
  "\<exists>d :: (nat, nat) duplex. d = asked_ends ''Reset'' 0 0 \<and>
     prefix (served (rconn d)) (List.map_filter call_of (written (lconn d))) \<and> distinct (map ID (served (rconn d)))"
  using calls_executed_once_in_order [OF
      asked_ends_reachable [of "0 :: nat" "0 :: nat" accepting accepting "''Reset''"] asked_ends_open(2)]
  by blast



end
