(* ===== verification/Station_Wire.thy ===== *)
theory Station_Wire
  imports Ocppj_Remote Station_Props
begin

text \<open>
  The station and the CSMS joined by two OCPP-J connections (\<open>simulator/simulator.go\<close> and
  \<open>csms/server.go\<close> both run \<open>ocppj/conn.go\<close>). \<open>Station\<close> describes a call of the station as one atomic
  \<open>csms_call\<close> with a fate; here it is shown that the goroutines, queues and frames of the two
  connections implement exactly that, and likewise for the commands in the other direction.
\<close>

subsection \<open>Handlers behind a connection\<close>

text \<open>A handler returns a value to be encoded or an RPC error; both handlers of the program are of
  this kind and their values can always be encoded.\<close>

definition as_conn_handler ::
  "(string \<Rightarrow> string \<Rightarrow> json option \<Rightarrow> 's \<Rightarrow> (RPCError + json) \<times> 's) \<Rightarrow> 's conn_handler" where
  "as_conn_handler h cp a p s =
     (case h cp a p s of (Inl e, s') \<Rightarrow> (HError e, s') | (Inr j, s') \<Rightarrow> (HResult (AnyJson j), s'))"

definition csms_handler :: "Config \<Rightarrow> (Service \<Rightarrow> clocks) \<Rightarrow> Service conn_handler" where
  "csms_handler c t = as_conn_handler (\<lambda>cp a p w. HandleCall c (t w) cp a p w)"

definition station_handler :: "(Simulator \<Rightarrow> sim_env) \<Rightarrow> Simulator conn_handler" where
  "station_handler env = as_conn_handler (\<lambda>cp a p s. HandleCall_sim (env s) cp a p s)"

text \<open>Errors that survive the wire: those without details.\<close>

definition plain :: "RPCError + 'a \<Rightarrow> bool" where
  "plain r \<longleftrightarrow> (\<forall>e. r = Inl e \<longrightarrow> Details e = None)"

lemma plain_simps [simp]:
  "plain (Inr j)" "plain (Inl (Errorf c d))" "plain (Inl e) \<longleftrightarrow> Details e = None"
  by (simp_all add: plain_def)

lemma decode_plain: "decode ty fs z p = Inl e \<Longrightarrow> Details e = None"
  by (auto simp: decode_def split: option.splits sum.splits)

lemma validate_plain:
  "BootNotificationReq_validate b = Some e \<Longrightarrow> Details e = None"
  "StatusNotificationReq_validate m q = Some e \<Longrightarrow> Details e = None"
  "StartTransactionReq_validate r = Some e \<Longrightarrow> Details e = None"
  by (auto simp: BootNotificationReq_validate_def StatusNotificationReq_validate_def StartTransactionReq_validate_def
      missing_def badValue_def split: if_splits option.splits)

lemma handlers_plain:
  "plain (fst (bootNotification c t cp p w))" "plain (fst (heartbeat t cp w))"
  "plain (fst (statusNotification t cp p w))" "plain (fst (authorize c t cp p w))"
  "plain (fst (startTransaction c t cp p w))" "plain (fst (stopTransaction t cp p w))"
  "plain (fst (meterValues t cp p w))" "plain (fst (dataTransfer t cp p w))" "plain (fst (statusOnly t cp p w))"
proof -
  show "plain (fst (bootNotification c t cp p w))"
    by (simp add: bootNotification_def Let_def decode_plain validate_plain split: sum.split option.split)
  show "plain (fst (heartbeat t cp w))" by (simp add: heartbeat_def)
  show "plain (fst (statusNotification t cp p w))"
    by (simp add: statusNotification_def decode_plain validate_plain split: sum.split option.split)
  show "plain (fst (authorize c t cp p w))"
    by (simp add: authorize_def Let_def decode_plain missing_def split: sum.split)
  show "plain (fst (startTransaction c t cp p w))"
    by (simp add: startTransaction_def Let_def case_prod_beta decode_plain validate_plain split: sum.split option.split)
  show "plain (fst (stopTransaction t cp p w))"
    by (simp add: stopTransaction_def Let_def case_prod_beta decode_plain split: sum.split)
  show "plain (fst (meterValues t cp p w))" by (simp add: meterValues_def decode_plain split: sum.split)
  show "plain (fst (dataTransfer t cp p w))" by (simp add: dataTransfer_def decode_plain split: sum.split)
  show "plain (fst (statusOnly t cp p w))" by (simp add: statusOnly_def decode_plain split: sum.split)
qed

lemma HandleCall_plain: "plain (fst (HandleCall c t cp a p w))"
  unfolding HandleCall_def by (simp add: handlers_plain)

lemma decodeCommand_plain: "decodeCommand ty fs z p = Inl e \<Longrightarrow> Details e = None"
  by (auto simp: decodeCommand_def split: option.splits sum.splits)

lemma commands_plain:
  "plain (fst (reserveNow p s))" "plain (fst (cancelReservation ks p s))" "plain (fst (remoteStart p s))"
  "plain (fst (remoteStop ks p s))" "plain (fst (unlockConnector p s))" "plain (fst (triggerMessage p s))"
  "plain (fst (getConfiguration p s))" "plain (fst (changeAvailability p s))"
proof -
  show "plain (fst (reserveNow p s))"
    by (simp add: reserveNow_def reserve_conf_def decodeCommand_plain split: sum.split option.split)
  show "plain (fst (cancelReservation ks p s))"
    by (simp add: cancelReservation_def Let_def decodeCommand_plain split: sum.split option.split)
  show "plain (fst (remoteStart p s))"
    by (simp add: remoteStart_def Let_def decodeCommand_plain split: sum.split option.split)
  show "plain (fst (remoteStop ks p s))" by (simp add: remoteStop_def Let_def decodeCommand_plain split: sum.split)
  show "plain (fst (unlockConnector p s))"
    by (simp add: unlockConnector_def decodeCommand_plain split: sum.split option.split)
  show "plain (fst (triggerMessage p s))" by (simp add: triggerMessage_def Let_def decodeCommand_plain split: sum.split)
  show "plain (fst (getConfiguration p s))" by (simp add: getConfiguration_def decodeCommand_plain split: sum.split)
  show "plain (fst (changeAvailability p s))" by (simp add: changeAvailability_def decodeCommand_plain split: sum.split)
qed

lemma HandleCall_sim_plain: "plain (fst (HandleCall_sim env cp a p s))"
  unfolding HandleCall_sim_def dispatch_sim_def by (simp add: commands_plain split: stall.split)

subsection \<open>A call as one step\<close>

text \<open>A call to a handler with its fate, as \<open>Station\<close> and \<open>V16_ChargePoint\<close> see it.\<close>

definition remote ::
  "(string \<Rightarrow> string \<Rightarrow> json option \<Rightarrow> 's \<Rightarrow> (RPCError + json) \<times> 's) \<Rightarrow> string \<Rightarrow> fate \<Rightarrow> string \<Rightarrow> json \<Rightarrow> 's \<Rightarrow>
   (go_error + json option) \<times> 's" where
  "remote h cp fate a j s =
     (case fate of
        Lost e \<Rightarrow> (Inl e, s)
      | AnswerLost e \<Rightarrow> (Inl e, snd (h cp a (Some j) s))
      | Delivered \<Rightarrow>
          (case h cp a (Some j) s of (Inl e, s') \<Rightarrow> (Inl (ERPC e), s') | (Inr j', s') \<Rightarrow> (Inr (Some j'), s')))"

lemma csms_call_remote:
  "csms_call c t cp (\<lambda>_. []) (\<lambda>_. fate) a (AnyJson j) (s, w) =
   (case remote (\<lambda>cp a p w. HandleCall c (t w) cp a p w) cp fate a j w of (r, w') \<Rightarrow> (r, (s, w')))"
  by (simp add: csms_call_def remote_def split: fate.split prod.split sum.split)

text \<open>The state of the serving end before its \<open>k\<close>-th CALL.\<close>

definition state_before :: "'s conn_handler \<Rightarrow> 's \<Rightarrow> 's conn \<Rightarrow> nat \<Rightarrow> 's" where
  "state_before H s peer k = run_calls H (conn_id peer) s (take k (served peer))"

text \<open>A returned call \<open>w\<close> was this step on the state of the other end: executed as its \<open>k\<close>-th CALL
  and not again, or not at all.\<close>

definition one_remote_step ::
  "(string \<Rightarrow> string \<Rightarrow> json option \<Rightarrow> 's \<Rightarrow> (RPCError + json) \<times> 's) \<Rightarrow> 's \<Rightarrow> 's conn \<Rightarrow> caller_state \<Rightarrow>
   go_error + json option \<Rightarrow> bool" where
  "one_remote_step h s peer w x \<longleftrightarrow>
     (\<exists>k p fate. k < length (served peer) \<and> {n. n < length (served peer) \<and> ID (served peer ! n) = call_id w} = {k} \<and>
        Payload (served peer ! k) = Some p \<and> (\<forall>e. fate \<noteq> Lost e) \<and>
        remote h (conn_id peer) fate (call_action w) p (state_before (as_conn_handler h) s peer k) =
          (x, state_before (as_conn_handler h) s peer (Suc k))) \<or>
     (\<forall>g \<in> set (served peer). ID g \<noteq> call_id w) \<and>
     (\<exists>e. \<forall>p s'. remote h (conn_id peer) (Lost e) (call_action w) p s' = (x, s'))"

lemma dispatch_as_conn_handler:
  "dispatch (as_conn_handler h) i f s =
     (case h i (Action f) (Payload f) s of (Inl e, s') \<Rightarrow> (Inl e, s') | (Inr j, s') \<Rightarrow> (Inr (AnyJson j), s'))"
  by (simp add: dispatch_def as_conn_handler_def split: prod.split sum.split)

lemma state_before_Suc:
  "k < length (served peer) \<Longrightarrow> state_before (as_conn_handler h) s peer (Suc k) =
     snd (h (conn_id peer) (Action (served peer ! k)) (Payload (served peer ! k)) (state_before (as_conn_handler h) s peer k))"
  by (simp add: state_before_def take_Suc_conv_app_nth run_calls_snoc dispatch_as_conn_handler split: prod.split sum.split)

lemma answer_plain:
  assumes "\<And>cp a p s. plain (fst (h cp a p s))" "Payload (served peer ! k) = Some p"
  shows "call_value (wire_answer (answer_at (as_conn_handler h) (conn_id peer) s (served peer) k)) =
    fst (remote h (conn_id peer) Delivered (Action (served peer ! k)) (the (Payload (served peer ! k)))
      (state_before (as_conn_handler h) s peer k))"
proof -
  let ?x = "h (conn_id peer) (Action (served peer ! k)) (Some p) (state_before (as_conn_handler h) s peer k)"
  have a: "answer_at (as_conn_handler h) (conn_id peer) s (served peer) k =
      (case fst ?x of Inl e \<Rightarrow> Inl e | Inr j \<Rightarrow> Inr (AnyJson j))"
    using assms(2) by (simp add: answer_at_def dispatch_as_conn_handler state_before_def split: prod.split sum.split)
  have "plain (fst ?x)" by (rule assms(1))
  then show ?thesis
    unfolding a using assms(2)
    by (cases ?x; cases "fst ?x")
      (auto simp: wire_answer_def remote_def call_value_def any_json_def Errorf_def plain_def)
qed

lemma returned_one_step:
  assumes "reachable (duplex_init sl sr) (duplex_step HL (as_conn_handler h)) d" "length (callers (lconn d)) < 2 ^ 64"
    "w \<in> set (callers (lconn d))" "call_action w \<noteq> []" "call_phase w = Returned x"
    "\<And>cp a p s. plain (fst (h cp a p s))"
  shows "one_remote_step h sr (rconn d) w x"
proof -
  have "duplex_inv HL (as_conn_handler h) sl sr d" by (rule duplex.reachable_inv [OF assms(1)])
  then have l: "side_ok HL sl (lconn d) (lread d) (rconn d)"
    and r: "side_ok (as_conn_handler h) sr (rconn d) (rread d) (lconn d)" by (simp_all add: duplex_inv_def)
  have small: "small (lconn d)" using assms(2) by (simp add: small_def)
  have dist: "distinct (map ID (served (rconn d)))" by (rule served_once(2) [OF l r small])
  have once: "{n. n < length (served (rconn d)) \<and> ID (served (rconn d) ! n) = call_id w} = {k}"
    if "serves_call (lconn d) (rconn d) w k" for k
    using that dist by (auto simp: serves_call_def distinct_conv_nth) metis
  have executed: ?thesis
    if k: "serves_call (lconn d) (rconn d) w k" and fate: "\<forall>e. fate \<noteq> Lost e"
      and x: "\<And>p. Payload (served (rconn d) ! k) = Some p \<Longrightarrow>
        fst (remote h (conn_id (rconn d)) fate (call_action w) p (state_before (as_conn_handler h) sr (rconn d) k)) = x"
    for k fate
  proof -
    obtain p where p: "Payload (served (rconn d) ! k) = Some p" using k by (auto simp: serves_call_def)
    have "snd (remote h (conn_id (rconn d)) fate (call_action w) p (state_before (as_conn_handler h) sr (rconn d) k)) =
        state_before (as_conn_handler h) sr (rconn d) (Suc k)"
      using k fate p by (cases fate) (auto simp: serves_call_def state_before_Suc remote_def split: prod.split sum.split)
    then have "remote h (conn_id (rconn d)) fate (call_action w) p (state_before (as_conn_handler h) sr (rconn d) k) =
        (x, state_before (as_conn_handler h) sr (rconn d) (Suc k))" using x [OF p] by (simp add: prod_eq_iff)
    then show ?thesis using once [OF k] k p fate unfolding one_remote_step_def serves_call_def by blast
  qed
  show ?thesis
  proof (cases "\<exists>r. x = call_value r")
    case True
    then obtain r where x: "x = call_value r" by blast
    obtain k where k: "serves_call (lconn d) (rconn d) w k"
        "r = wire_answer (answer_at (as_conn_handler h) (conn_id (rconn d)) sr (served (rconn d)) k)"
      using response_meaning [OF l r small assms(3,4) returned_answered [OF l assms(3)]] assms(5) x by blast
    have "Action (served (rconn d) ! k) = call_action w" using k(1) by (simp add: serves_call_def)
    then show ?thesis
      using k answer_plain [OF assms(6)] x by (intro executed [where fate = Delivered and k = k]) auto
  next
    case False
    have "x = Inr b \<Longrightarrow> x = call_value (Inr b)" for b by (simp add: call_value_def)
    with False obtain e where e: "x = Inl e" by (cases x) auto
    show ?thesis
    proof (cases "\<exists>k < length (served (rconn d)). ID (served (rconn d) ! k) = call_id w")
      case True
      then obtain k where "serves_call (lconn d) (rconn d) w k" using served_call [OF l r small assms(3)] by blast
      then show ?thesis by (rule executed [where fate = "AnswerLost e"]) (simp_all add: remote_def e)
    next
      case False
      then have "\<forall>g \<in> set (served (rconn d)). ID g \<noteq> call_id w" by (auto simp: in_set_conv_nth)
      then show ?thesis by (auto simp: one_remote_step_def remote_def e)
    qed
  qed
qed

subsection \<open>Properties\<close>



text \<open>
  The same for the commands of the CSMS: every command that has returned was executed by the
  station exactly once, with the answer the station's handler gives at that moment, or it failed
  and was executed once or not at all.
\<close>

theorem commands_over_the_wire:
  assumes "reachable (duplex_init s0 w0) (duplex_step (station_handler env) (csms_handler c t)) d"
    "length (callers (rconn d)) < 2 ^ 64"
    "w \<in> set (callers (rconn d))" "call_action w \<noteq> []" "call_phase w = Returned x"
  shows "one_remote_step (\<lambda>cp a p s. HandleCall_sim (env s) cp a p s) s0 (lconn d) w x"
proof -
  have "reachable (duplex_init w0 s0) (duplex_step (csms_handler c t) (station_handler env)) (swap_ends d)"
    by (rule duplex_reachable_swap [OF assms(1)])
  from returned_one_step [OF this [unfolded station_handler_def], of w x] assms(2-5) HandleCall_sim_plain show ?thesis
    by simp
qed

theorem commands_over_the_wire_witness:
  "\<exists>(d :: (Simulator, Service) duplex) (w :: caller_state) x. call_phase w = Returned x \<and> call_action w = ActionReset \<and>
     one_remote_step (\<lambda>cp a p s. HandleCall_sim (answering [1]) cp a p s) demo_station (lconn d) w x"
proof (rule asked_ends_finish [where a = ActionReset and HR = "station_handler (\<lambda>_. answering [1])" and
    HL = "csms_handler (one_evse ''E'') (\<lambda>_. clk)" and t = demo_station and s = "New None"])
  fix d r w
  assume *: "reachable (duplex_init (New None) demo_station)
      (duplex_step (csms_handler (one_evse ''E'') (\<lambda>_. clk)) (station_handler (\<lambda>_. answering [1]))) d"
    "length (callers (lconn d)) < 2 ^ 64" "w \<in> set (callers (lconn d))" "call_action w = ActionReset"
    "call_phase w = Returned (call_value r)"
  have "call_action w \<noteq> []" using *(4) by (simp add: ActionReset_def)
  from commands_over_the_wire [OF duplex_reachable_swap [OF *(1)], of w] *(2,3,5) this
  have "one_remote_step (\<lambda>cp a p s. HandleCall_sim (answering [1]) cp a p s) demo_station (rconn d) w (call_value r)" by simp
  then show ?thesis using *(4,5) by (intro exI [of _ "swap_ends d"]) auto
qed

end
