(* ===== verification/Station_Commands.thy ===== *)
theory Station_Commands
  imports Station_Wire
begin

text \<open>
  The interface \<open>ocpp.ChargePoint\<close> (\<open>ocpp/chargepoint.go\<close>) and its 1.6 implementation
  (\<open>v16/chargepoint.go\<close>). Its comments promise that a station saying no is an answer and not an error, and that
  the errors are a timeout, a lost connection, an unknown EVSE (before anything is sent) or the
  station's CALLERROR. That is the locale \<open>charge_point\<close>; it holds for the 1.6 adapter over every
  caller that keeps the contract of \<open>rpc_caller\<close>, and the connection to the simulated station does.
\<close>

subsection \<open>The interface and its implementation\<close>

record 'w ChargePoint_iface =
  if_ID :: string
  if_Version :: Version
  if_ReserveNow :: "ReserveRequest \<Rightarrow> 'w \<Rightarrow> (go_error + Result) \<times> 'w"
  if_CancelReservation :: "int \<Rightarrow> 'w \<Rightarrow> (go_error + Result) \<times> 'w"
  if_RemoteStart :: "RemoteStartRequest \<Rightarrow> 'w \<Rightarrow> (go_error + Result) \<times> 'w"
  if_RemoteStop :: "string \<Rightarrow> 'w \<Rightarrow> (go_error + Result) \<times> 'w"
  if_UnlockConnector :: "string \<Rightarrow> 'w \<Rightarrow> (go_error + Result) \<times> 'w"
  if_TriggerStatus :: "string \<Rightarrow> 'w \<Rightarrow> (go_error + Result) \<times> 'w"
  if_Capabilities :: "'w \<Rightarrow> (go_error + Capabilities) \<times> 'w"

text \<open>The \<open>Caller\<close> interface of the adapter.\<close>

record 'w Caller_iface =
  ca_ID :: string
  ca_Version :: Version
  ca_Call :: "'w caller"

definition NewChargePoint :: "'w Caller_iface \<Rightarrow> Config \<Rightarrow> 'w ChargePoint_iface" where
  "NewChargePoint c conf =
     \<lparr>if_ID = ca_ID c, if_Version = ca_Version c,
      if_ReserveNow = ReserveNow (ca_Call c) conf, if_CancelReservation = CancelReservation (ca_Call c),
      if_RemoteStart = RemoteStart (ca_Call c) conf, if_RemoteStop = RemoteStop (ca_Call c),
      if_UnlockConnector = UnlockConnector (ca_Call c) conf, if_TriggerStatus = TriggerStatus (ca_Call c) conf,
      if_Capabilities = Capabilities_of (ca_Call c)\<rparr>"

subsection \<open>What a command may fail with\<close>

definition call_failed :: "go_error \<Rightarrow> bool" where
  "call_failed e \<longleftrightarrow> error_is e ErrTimeout \<or> error_is e ErrNotConnected \<or> (\<exists>r. e = ERPC r)"

lemma call_failed_simps [simp]:
  "call_failed (ETimeout a)" "call_failed EConnClosed" "call_failed (ENotConnected t)" "call_failed (ERPC r)"
  "\<not> call_failed EContext" "\<not> call_failed (EOther t)" "\<not> call_failed (EUnknownEVSE t)"
  by (simp_all add: call_failed_def)

definition kept_promise :: "go_error + 'a \<Rightarrow> bool" where
  "kept_promise r \<longleftrightarrow> (\<forall>e. r = Inl e \<longrightarrow> call_failed e)"

lemma kept_promise_simps [simp]: "kept_promise (Inr x)" "kept_promise (Inl e) \<longleftrightarrow> call_failed e"
  by (simp_all add: kept_promise_def)

text \<open>The contract of the interface. \<open>configured\<close> are the EVSE uids of the configuration, \<open>running_id\<close>
  the texts that can be transaction ids.\<close>

locale charge_point =
  fixes cp :: "'w ChargePoint_iface"
    and configured :: "string \<Rightarrow> bool"
    and running_id :: "string \<Rightarrow> bool"
  assumes reserve: "configured (rr_EVSEUID r) \<Longrightarrow> kept_promise (fst (if_ReserveNow cp r w))"
    and reserve_unknown: "\<not> configured (rr_EVSEUID r) \<Longrightarrow> \<exists>t. if_ReserveNow cp r w = (Inl (EUnknownEVSE t), w)"
    and cancel: "kept_promise (fst (if_CancelReservation cp i w))"
    and start: "configured (rs_EVSEUID q) \<Longrightarrow> kept_promise (fst (if_RemoteStart cp q w))"
    and start_unknown: "\<not> configured (rs_EVSEUID q) \<Longrightarrow> \<exists>t. if_RemoteStart cp q w = (Inl (EUnknownEVSE t), w)"
    and stop: "running_id x \<Longrightarrow> kept_promise (fst (if_RemoteStop cp x w))"
    and unlock: "configured u \<Longrightarrow> kept_promise (fst (if_UnlockConnector cp u w))"
    and unlock_unknown: "\<not> configured u \<Longrightarrow> \<exists>t. if_UnlockConnector cp u w = (Inl (EUnknownEVSE t), w)"
    and trigger: "configured u \<Longrightarrow> kept_promise (fst (if_TriggerStatus cp u w))"
    and trigger_unknown: "\<not> configured u \<Longrightarrow> \<exists>t. if_TriggerStatus cp u w = (Inl (EUnknownEVSE t), w)"
    and capabilities: "kept_promise (fst (if_Capabilities cp w))"
begin

text \<open>A client can tell the errors apart, and an unknown EVSE means that nothing was sent.\<close>

lemma unknown_evse_unsent:
  "error_is e ErrUnknownEVSE \<Longrightarrow> if_ReserveNow cp r w = (Inl e, w') \<Longrightarrow> w' = w \<and> \<not> configured (rr_EVSEUID r)"
  "error_is e ErrUnknownEVSE \<Longrightarrow> if_RemoteStart cp q w = (Inl e, w') \<Longrightarrow> w' = w \<and> \<not> configured (rs_EVSEUID q)"
  "error_is e ErrUnknownEVSE \<Longrightarrow> if_UnlockConnector cp u w = (Inl e, w') \<Longrightarrow> w' = w \<and> \<not> configured u"
  "error_is e ErrUnknownEVSE \<Longrightarrow> if_TriggerStatus cp u w = (Inl e, w') \<Longrightarrow> w' = w \<and> \<not> configured u"
proof -
  assume "error_is e ErrUnknownEVSE"
  then have e: "\<not> call_failed e" by (cases e) auto
  show "if_ReserveNow cp r w = (Inl e, w') \<Longrightarrow> w' = w \<and> \<not> configured (rr_EVSEUID r)"
    using e reserve [of r w] reserve_unknown [of r w] by (cases "configured (rr_EVSEUID r)") auto
  show "if_RemoteStart cp q w = (Inl e, w') \<Longrightarrow> w' = w \<and> \<not> configured (rs_EVSEUID q)"
    using e start [of q w] start_unknown [of q w] by (cases "configured (rs_EVSEUID q)") auto
  show "if_UnlockConnector cp u w = (Inl e, w') \<Longrightarrow> w' = w \<and> \<not> configured u"
    using e unlock [of u w] unlock_unknown [of u w] by (cases "configured u") auto
  show "if_TriggerStatus cp u w = (Inl e, w') \<Longrightarrow> w' = w \<and> \<not> configured u"
    using e trigger [of u w] trigger_unknown [of u w] by (cases "configured u") auto
qed

end

text \<open>The contract of the connection: a call fails with one of the errors of a call, and the answers
  to the commands can be decoded.\<close>

definition status_actions :: "string set" where
  "status_actions = {ActionReserveNow, ActionCancelReservation, ActionRemoteStartTransaction,
     ActionRemoteStopTransaction, ActionUnlockConnector, ActionTriggerMessage}"

definition status_body :: "json option \<Rightarrow> bool" where
  "status_body b \<longleftrightarrow> (\<exists>x. unmarshal status_type status_fields \<lparr>sc_Status = []\<rparr> b = Inr x)"

definition config_body :: "json option \<Rightarrow> bool" where
  "config_body b \<longleftrightarrow>
     (\<exists>x. unmarshal ''v16.GetConfigurationConf'' (GetConfigurationConf_fields ''GetConfigurationConf'')
            GetConfigurationConf_zero b = Inr x)"

locale rpc_caller =
  fixes call :: "'w caller"
  assumes call_fails: "call a (AnyJson j) w = (Inl e, w') \<Longrightarrow> call_failed e"
    and call_status: "a \<in> status_actions \<Longrightarrow> call a (AnyJson j) w = (Inr b, w') \<Longrightarrow> status_body b"
    and call_config: "call ActionGetConfiguration (AnyJson j) w = (Inr b, w') \<Longrightarrow> config_body b"
begin

lemma command_promise: "a \<in> status_actions \<Longrightarrow> kept_promise (fst (command call a req w))"
proof (cases "call a (AnyJson req) w")
  case (Pair r w')
  assume a: "a \<in> status_actions"
  show ?thesis
  proof (cases r)
    case (Inl e)
    then show ?thesis using Pair call_fails [of a req w e w'] by (simp add: command_def)
  next
    case (Inr b)
    then show ?thesis
      using Pair call_status [OF a, of req w b w'] by (auto simp: command_def status_body_def)
  qed
qed

lemma capabilities_promise: "kept_promise (fst (Capabilities_of call w))"
proof -
  define req where "req = GetConfigurationReq_json \<lparr>gcr_Key = [KeySupportedFeatureProfiles]\<rparr>"
  obtain r w' where c: "call ActionGetConfiguration (AnyJson req) w = (r, w')"
    by (cases "call ActionGetConfiguration (AnyJson req) w")
  show ?thesis
  proof (cases r)
    case (Inl e)
    then show ?thesis
      using c call_fails [of ActionGetConfiguration req w e w'] by (simp add: Capabilities_of_def GetConfiguration_def req_def)
  next
    case (Inr b)
    then show ?thesis
      using c call_config [of req w b w'] by (auto simp: Capabilities_of_def GetConfiguration_def req_def config_body_def)
  qed
qed

end

subsection \<open>The adapter keeps the contract over every such caller\<close>

definition configured_uids :: "Config \<Rightarrow> string set" where
  "configured_uids conf = ev_UID ` set (lo_EVSEs (cf_Location conf))"

lemma connectorID_configured: "u \<in> configured_uids conf \<Longrightarrow> \<exists>n. connectorID conf u = Inr n"
  by (auto simp: connectorID_def configured_uids_def EVSEByUID_def find_None_iff split: option.split)

lemma connectorID_not_configured: "u \<notin> configured_uids conf \<Longrightarrow> connectorID conf u = Inl (EUnknownEVSE (go_quote u))"
  by (simp add: configured_uids_def connectorID_unknown)

lemma status_actionsI [simp]:
  "ActionReserveNow \<in> status_actions" "ActionCancelReservation \<in> status_actions"
  "ActionRemoteStartTransaction \<in> status_actions" "ActionRemoteStopTransaction \<in> status_actions"
  "ActionUnlockConnector \<in> status_actions" "ActionTriggerMessage \<in> status_actions"
  by (simp_all add: status_actions_def)

lemma NewChargePoint_simps [simp]:
  "if_ReserveNow (NewChargePoint c conf) = ReserveNow (ca_Call c) conf"
  "if_CancelReservation (NewChargePoint c conf) = CancelReservation (ca_Call c)"
  "if_RemoteStart (NewChargePoint c conf) = RemoteStart (ca_Call c) conf"
  "if_RemoteStop (NewChargePoint c conf) = RemoteStop (ca_Call c)"
  "if_UnlockConnector (NewChargePoint c conf) = UnlockConnector (ca_Call c) conf"
  "if_TriggerStatus (NewChargePoint c conf) = TriggerStatus (ca_Call c) conf"
  "if_Capabilities (NewChargePoint c conf) = Capabilities_of (ca_Call c)"
  by (simp_all add: NewChargePoint_def)

sublocale rpc_caller \<subseteq> adapter: charge_point "NewChargePoint \<lparr>ca_ID = i, ca_Version = v, ca_Call = call\<rparr> conf"
  "\<lambda>u. u \<in> configured_uids conf" "\<lambda>x. atoi x \<noteq> None" for i v conf
proof
  fix r :: ReserveRequest and q :: RemoteStartRequest and u x :: string and k w
  show "rr_EVSEUID r \<in> configured_uids conf \<Longrightarrow>
      kept_promise (fst (if_ReserveNow (NewChargePoint \<lparr>ca_ID = i, ca_Version = v, ca_Call = call\<rparr> conf) r w))"
    using connectorID_configured [of "rr_EVSEUID r" conf] command_promise by (auto simp: ReserveNow_def)
  show "rr_EVSEUID r \<notin> configured_uids conf \<Longrightarrow>
      \<exists>t. if_ReserveNow (NewChargePoint \<lparr>ca_ID = i, ca_Version = v, ca_Call = call\<rparr> conf) r w = (Inl (EUnknownEVSE t), w)"
    by (simp add: ReserveNow_def connectorID_not_configured)
  show "kept_promise (fst (if_CancelReservation (NewChargePoint \<lparr>ca_ID = i, ca_Version = v, ca_Call = call\<rparr> conf) k w))"
    by (simp add: CancelReservation_def command_promise)
  show "rs_EVSEUID q \<in> configured_uids conf \<Longrightarrow>
      kept_promise (fst (if_RemoteStart (NewChargePoint \<lparr>ca_ID = i, ca_Version = v, ca_Call = call\<rparr> conf) q w))"
    using connectorID_configured [of "rs_EVSEUID q" conf] command_promise by (auto simp: RemoteStart_def)
  show "rs_EVSEUID q \<notin> configured_uids conf \<Longrightarrow>
      \<exists>t. if_RemoteStart (NewChargePoint \<lparr>ca_ID = i, ca_Version = v, ca_Call = call\<rparr> conf) q w = (Inl (EUnknownEVSE t), w)"
    by (simp add: RemoteStart_def connectorID_not_configured)
  show "atoi x \<noteq> None \<Longrightarrow>
      kept_promise (fst (if_RemoteStop (NewChargePoint \<lparr>ca_ID = i, ca_Version = v, ca_Call = call\<rparr> conf) x w))"
    using command_promise by (auto simp: RemoteStop_def)
  show "u \<in> configured_uids conf \<Longrightarrow>
      kept_promise (fst (if_UnlockConnector (NewChargePoint \<lparr>ca_ID = i, ca_Version = v, ca_Call = call\<rparr> conf) u w))"
    using connectorID_configured [of u conf] command_promise by (auto simp: UnlockConnector_def)
  show "u \<notin> configured_uids conf \<Longrightarrow>
      \<exists>t. if_UnlockConnector (NewChargePoint \<lparr>ca_ID = i, ca_Version = v, ca_Call = call\<rparr> conf) u w = (Inl (EUnknownEVSE t), w)"
    by (simp add: UnlockConnector_def connectorID_not_configured)
  show "u \<in> configured_uids conf \<Longrightarrow>
      kept_promise (fst (if_TriggerStatus (NewChargePoint \<lparr>ca_ID = i, ca_Version = v, ca_Call = call\<rparr> conf) u w))"
    using connectorID_configured [of u conf] command_promise by (auto simp: TriggerStatus_def)
  show "u \<notin> configured_uids conf \<Longrightarrow>
      \<exists>t. if_TriggerStatus (NewChargePoint \<lparr>ca_ID = i, ca_Version = v, ca_Call = call\<rparr> conf) u w = (Inl (EUnknownEVSE t), w)"
    by (simp add: TriggerStatus_def connectorID_not_configured)
  show "kept_promise (fst (if_Capabilities (NewChargePoint \<lparr>ca_ID = i, ca_Version = v, ca_Call = call\<rparr> conf) w))"
    by (simp add: capabilities_promise)
qed

subsection \<open>The connection to the station\<close>

text \<open>What may happen to a call on a connection (\<open>Conn.Call\<close> of \<open>ocppj/conn.go\<close>), a cancelled context
  aside.\<close>

datatype link_outcome = Answered | TimedOut bool | Dropped bool

definition link_fate :: "string \<Rightarrow> link_outcome \<Rightarrow> fate" where
  "link_fate action l =
     (case l of
        Answered \<Rightarrow> Delivered
      | TimedOut arrived \<Rightarrow> (if arrived then AnswerLost (ETimeout action) else Lost (ETimeout action))
      | Dropped arrived \<Rightarrow> (if arrived then AnswerLost EConnClosed else Lost EConnClosed))"

definition station_caller ::
  "(Simulator \<Rightarrow> sim_env) \<Rightarrow> string \<Rightarrow> (Simulator \<Rightarrow> link_outcome) \<Rightarrow> Simulator caller" where
  "station_caller env cp link action payload s =
     (case payload of
        AnyJson j \<Rightarrow> remote (\<lambda>cp a p s. HandleCall_sim (env s) cp a p s) cp (link_fate action (link s)) action j s
      | AnyNil \<Rightarrow> remote (\<lambda>cp a p s. HandleCall_sim (env s) cp a p s) cp (link_fate action (link s)) action (JObj []) s
      | AnyBad e \<Rightarrow> (Inl (EOther (''encoding CALL '' @ action @ '': '' @ e)), s))"

definition says_status :: "RPCError + json \<Rightarrow> bool" where
  "says_status r \<longleftrightarrow> (\<forall>j. r = Inr j \<longrightarrow> (\<exists>st. j = JObj [(''status'', JStr st)]))"

lemma says_status_simps [simp]:
  "says_status (Inl e)" "says_status (Inr (JObj [(''status'', JStr st)]))"
  by (simp_all add: says_status_def)

lemma replies_say_status:
  "says_status (fst (reserveNow p s))" "says_status (fst (cancelReservation ks p s))"
  "says_status (fst (remoteStart p s))" "says_status (fst (remoteStop ks p s))"
  "says_status (fst (unlockConnector p s))" "says_status (fst (triggerMessage p s))"
proof -
  note json = ReserveNowConf_json_def CancelReservationConf_json_def RemoteStartTransactionConf_json_def
    RemoteStopTransactionConf_json_def UnlockConnectorConf_json_def TriggerMessageConf_json_def enc_str_def
  show "says_status (fst (reserveNow p s))"
    by (simp add: reserveNow_def reserve_conf_def json split: sum.split option.split)
  show "says_status (fst (cancelReservation ks p s))"
    by (simp add: cancelReservation_def Let_def json split: sum.split option.split)
  show "says_status (fst (remoteStart p s))"
    by (simp add: remoteStart_def Let_def json split: sum.split option.split)
  show "says_status (fst (remoteStop ks p s))" by (simp add: remoteStop_def Let_def json split: sum.split)
  show "says_status (fst (unlockConnector p s))" by (simp add: unlockConnector_def json split: sum.split option.split)
  show "says_status (fst (triggerMessage p s))" by (simp add: triggerMessage_def Let_def json split: sum.split)
qed

lemma status_reply: "a \<in> status_actions \<Longrightarrow> says_status (fst (HandleCall_sim env cp a p s))"
  unfolding HandleCall_sim_def dispatch_sim_def status_actions_def
  by (auto simp: replies_say_status split: stall.split)

lemma config_reply:
  "fst (HandleCall_sim env cp ActionGetConfiguration p s) = Inr j \<Longrightarrow> \<exists>x. j = GetConfigurationConf_json x"
proof -
  have d: "dispatch_sim ks ActionGetConfiguration p s = getConfiguration p s" for ks
    by (simp add: dispatch_sim_def command_action_defs)
  assume "fst (HandleCall_sim env cp ActionGetConfiguration p s) = Inr j"
  then show ?thesis
    unfolding HandleCall_sim_def d by (auto simp: getConfiguration_def split: stall.splits sum.splits if_splits)
qed

interpretation station: rpc_caller "station_caller env cp link" for env cp link
proof
  fix a j w e w' b
  show "station_caller env cp link a (AnyJson j) w = (Inl e, w') \<Longrightarrow> call_failed e"
    by (auto simp: station_caller_def remote_def link_fate_def split: link_outcome.splits fate.splits prod.splits
        sum.splits if_splits)
  show "a \<in> status_actions \<Longrightarrow> station_caller env cp link a (AnyJson j) w = (Inr b, w') \<Longrightarrow> status_body b"
    using status_reply [of a "env w" cp "Some j" w]
    by (auto simp: station_caller_def remote_def says_status_def status_body_def decode_status
        split: fate.splits prod.splits sum.splits)
  show "station_caller env cp link ActionGetConfiguration (AnyJson j) w = (Inr b, w') \<Longrightarrow> config_body b"
    using config_reply [of "env w" cp "Some j" w]
    by (auto simp: station_caller_def remote_def config_body_def unmarshal_def
        split: fate.splits prod.splits sum.splits)
qed

subsection \<open>Properties\<close>

text \<open>An outcome the interface documents: an answer, a failed call, or an unknown EVSE with nothing sent.\<close>

definition documented :: "'w \<Rightarrow> (go_error + 'a) \<times> 'w \<Rightarrow> bool" where
  "documented w x \<longleftrightarrow>
     (\<exists>res. fst x = Inr res) \<or> (\<exists>e. fst x = Inl e \<and> (call_failed e \<or> error_is e ErrUnknownEVSE \<and> snd x = w))"

lemma documentedI: "kept_promise (fst x) \<Longrightarrow> documented w x"
  by (cases "fst x") (simp_all add: documented_def)

lemma documented_cases: "(P \<Longrightarrow> kept_promise (fst x)) \<Longrightarrow> (\<not> P \<Longrightarrow> \<exists>t. x = (Inl (EUnknownEVSE t), w)) \<Longrightarrow> documented w x"
  using documentedI [of x w] by (cases P) (auto simp: documented_def)



end
