(* ===== verification/Wiring.thy ===== *)
theory Wiring
  imports Station_Wire Cli_Props Go_Net
begin

text \<open>
  How the parts are put together: the options and accessors of a connection and the texts of its
  errors (\<open>ocppj/conn.go\<close>), the connections the server and the station open (\<open>csms/server.go\<close>,
  \<open>simulator/simulator.go\<close>), the 1.6 handler with its clock (\<open>v16/handler.go\<close>), opening the
  configuration file (\<open>config/load.go\<close>) and durations in YAML (\<open>config/duration.go\<close>). What is shown of
  two connected ends is shown of the ends the program builds.
\<close>

subsection \<open>Connections\<close>

record conn_Options =
  co_ID :: string
  co_Version :: Version
  co_CallTimeout :: int
  co_IdleTimeout :: int

definition New_conn :: "conn_Options \<Rightarrow> 's \<Rightarrow> 's conn" where
  "New_conn r s = NewConn (co_ID r) (co_Version r) (co_CallTimeout r) (co_IdleTimeout r) s"

definition Conn_ID :: "'s conn \<Rightarrow> string" where "Conn_ID c = conn_id c"
definition Conn_Version :: "'s conn \<Rightarrow> Version" where "Conn_Version c = version c"

text \<open>Whether the channel \<open>Done\<close> is closed.\<close>

definition Conn_Done :: "'s conn \<Rightarrow> bool" where "Conn_Done c = conn.closed c"

text \<open>The text of an error a call on the connection returns; a context's error has the context's text.\<close>

definition call_error_text :: "'s conn \<Rightarrow> string \<Rightarrow> go_error \<Rightarrow> string" where
  "call_error_text c ctx e =
     (case e of
        EConnClosed \<Rightarrow> ''ocpp: connection closed''
      | ETimeout action \<Rightarrow> action @ '': no answer within '' @ Duration_String (callTimeout c)
      | ERPC r \<Rightarrow> RPCError_Error r
      | EContext \<Rightarrow> ctx
      | EOther t \<Rightarrow> t
      | ENotConnected t \<Rightarrow> t
      | EUnknownEVSE t \<Rightarrow> t)"

text \<open>The connection of a charge point that dialled in, and the one the station dials out.\<close>

definition csms_conn_options :: "csms_Options \<Rightarrow> string \<Rightarrow> Version \<Rightarrow> conn_Options" where
  "csms_conn_options r i v =
     \<lparr>co_ID = i, co_Version = v, co_CallTimeout = cs_CallTimeout r, co_IdleTimeout = cs_IdleTimeout r\<rparr>"

definition station_conn_options :: "Options \<Rightarrow> conn_Options" where
  "station_conn_options r =
     \<lparr>co_ID = so_ID r, co_Version = so_Version r, co_CallTimeout = 30 * second, co_IdleTimeout = 24 * 3600 * second\<rparr>"

subsection \<open>The handler (v16/handler.go)\<close>

text \<open>The handler's core is the state it works on; its clock may depend on when it is read.\<close>

record Handler16 =
  hd_cfg :: Config
  hd_now :: "Service \<Rightarrow> go_time"

type_synonym handler_option = "Handler16 \<Rightarrow> Handler16"

definition WithClock :: "(Service \<Rightarrow> go_time) \<Rightarrow> handler_option" where
  "WithClock now h = h\<lparr>hd_now := now\<rparr>"

definition NewHandler :: "(Service \<Rightarrow> go_time) \<Rightarrow> Config \<Rightarrow> handler_option list \<Rightarrow> Handler16" where
  "NewHandler time_Now c os = fold (\<lambda>f h. f h) os \<lparr>hd_cfg = c, hd_now = time_Now\<rparr>"

definition Handler_Version :: "Handler16 \<Rightarrow> Version" where
  "Handler_Version h = Version16"

definition Handler_HandleCall ::
  "(Service \<Rightarrow> go_time \<times> go_time) \<Rightarrow> Handler16 \<Rightarrow> string \<Rightarrow> string \<Rightarrow> json option \<Rightarrow> Service \<Rightarrow> response \<times> Service" where
  "Handler_HandleCall core_now h cp a p w =
     HandleCall (hd_cfg h) \<lparr>h_now = hd_now h w, s_now = fst (core_now w), s_now' = snd (core_now w)\<rparr> cp a p w"

lemma NewHandler_clock:
  "NewHandler t0 c [] = \<lparr>hd_cfg = c, hd_now = t0\<rparr>"
  "NewHandler t0 c (map WithClock ts @ [WithClock t]) = \<lparr>hd_cfg = c, hd_now = t\<rparr>"
proof -
  have "fold (\<lambda>f h. f h) (map WithClock ts) \<lparr>hd_cfg = c, hd_now = t0\<rparr> = \<lparr>hd_cfg = c, hd_now = last (t0 # ts)\<rparr>"
    by (induction ts arbitrary: t0) (simp_all add: WithClock_def)
  then show "NewHandler t0 c (map WithClock ts @ [WithClock t]) = \<lparr>hd_cfg = c, hd_now = t\<rparr>"
    by (simp add: NewHandler_def WithClock_def)
qed (simp add: NewHandler_def)

subsection \<open>The system the program builds\<close>

text \<open>Right after the handshake: the station's end and the server's end of one WebSocket.\<close>

definition dialled :: "Options \<Rightarrow> csms_Options \<Rightarrow> string \<Rightarrow> Version \<Rightarrow> Simulator \<Rightarrow> Service \<Rightarrow> (Simulator, Service) duplex" where
  "dialled so r i v s w =
     \<lparr>lconn = New_conn (station_conn_options so) s, rconn = New_conn (csms_conn_options r i v) w, lread = 0, rread = 0\<rparr>"

lemma dialled_init: "duplex_init s w (dialled so r i v s w)"
  by (auto simp: duplex_init_def dialled_def New_conn_def)

lemma dialled_timeouts:
  "callTimeout (lconn (dialled so r i v s w)) = 30 * second" "idleTimeout (lconn (dialled so r i v s w)) = 24 * 3600 * second"
  "0 < cs_IdleTimeout r \<Longrightarrow> idleTimeout (rconn (dialled so r i v s w)) = cs_IdleTimeout r"
  "0 < cs_CallTimeout r \<Longrightarrow> callTimeout (rconn (dialled so r i v s w)) = cs_CallTimeout r"
  by (simp_all add: dialled_def New_conn_def NewConn_def station_conn_options_def csms_conn_options_def second_def)

lemma handler_is_csms_handler:
  "as_conn_handler (Handler_HandleCall core_now h) =
     csms_handler (hd_cfg h) (\<lambda>w. \<lparr>h_now = hd_now h w, s_now = fst (core_now w), s_now' = snd (core_now w)\<rparr>)"
  by (simp add: csms_handler_def Handler_HandleCall_def fun_eq_iff as_conn_handler_def)

text \<open>No call of the dialled station is lost while the connection is up.\<close>

lemma dialled_calls_finish:
  assumes "(duplex_step (station_handler env) (as_conn_handler (Handler_HandleCall core_now h)))\<^sup>*\<^sup>* (dialled so r i v s w) d"
    "both_open d" "length (callers (lconn d)) < 2 ^ 64"
  shows "\<exists>d'. (duplex_step (station_handler env) (as_conn_handler (Handler_HandleCall core_now h)))\<^sup>*\<^sup>* d d' \<and> both_open d' \<and>
    (\<forall>k < length (callers (lconn d)). active (call_phase (callers (lconn d) ! k)) \<longrightarrow>
       (\<exists>r. call_phase (callers (lconn d') ! k) = Returned (call_value r)))"
proof -
  have "reachable (duplex_init s w) (duplex_step (station_handler env) (as_conn_handler (Handler_HandleCall core_now h))) d"
    by (rule rtranclp_reachable [OF assms(1)], rule reach_init, rule dialled_init)
  from calls_finish [OF this assms(2,3)] show ?thesis by blast
qed

subsection \<open>Loading the configuration\<close>

text \<open>\<open>Load\<close>: the file cannot be opened, or its text is parsed.\<close>

definition Load_config ::
  "string option \<Rightarrow> (string \<Rightarrow> string + string \<times> string) \<Rightarrow> yaml_outcome \<Rightarrow> extra_doc \<Rightarrow> load_outcome" where
  "Load_config open_err url_parse first extra =
     (case open_err of Some e \<Rightarrow> Inl e | None \<Rightarrow> Inr (parse_config url_parse first extra))"

text \<open>A node of the YAML document is a scalar with its text, or a list, map or alias.\<close>

datatype yaml_node = Scalar string | NonScalar

definition UnmarshalYAML :: "yaml_node \<Rightarrow> Duration \<Rightarrow> Duration" where
  "UnmarshalYAML n d = (case n of Scalar v \<Rightarrow> d\<lparr>raw := v\<rparr> | NonScalar \<Rightarrow> d)"

definition MarshalYAML :: "Duration \<Rightarrow> yaml_node" where
  "MarshalYAML d = Scalar (raw d)"

lemma duration_yaml_roundtrip: "raw (UnmarshalYAML (MarshalYAML d) d') = raw d"
  by (simp add: UnmarshalYAML_def MarshalYAML_def)

text \<open>A list or a map in the place of a duration is taken for one that was left out.\<close>

lemma nonscalar_duration_default:
  assumes "raw d = []" "ParseDuration (Duration_String v) = Some v"
  shows "resolved (or_default v (UnmarshalYAML NonScalar d)) = \<lparr>raw = Duration_String v, dur = v\<rparr>"
  using resolved_default [OF assms] by (simp add: UnmarshalYAML_def)

text \<open>The configuration of a process is loaded exactly when its file opens and validates.\<close>

lemma Load_config_ok:
  "Load_config open_err url_parse first extra = Inr (Inr c) \<longleftrightarrow> open_err = None \<and> parse_config url_parse first extra = Inr c"
  by (cases open_err) (simp_all add: Load_config_def)

end
