(* ===== verification/Csms_Life.thy ===== *)
theory Csms_Life
  imports Csms_Server
begin

text \<open>
  The life of the CSMS server (\<open>internal/ocpp/csms/server.go\<close>): \<open>Start\<close>, \<open>Addr\<close> and \<open>Shutdown\<close>.
  \<open>Shutdown\<close> closes the connections in the registry and waits for the goroutines; the theory shows
  when this wait ends by itself, and that it does not when a connection is between its handshake
  and its registration.
\<close>

subsection \<open>Starting and stopping\<close>

text \<open>\<open>up_ln\<close> is the address bound, \<open>up_serving\<close> the goroutine of \<open>Start\<close> that serves the listener,
  \<open>up_cancelled\<close> the context passed to the handlers.\<close>

record listening =
  up_opts :: csms_Options
  up_server :: server
  up_ln :: "string option"
  up_serving :: bool
  up_cancelled :: bool

text \<open>\<open>net.Listen\<close> is an argument: an error or the address bound.\<close>

definition Start_csms :: "(string \<Rightarrow> string + string) \<Rightarrow> listening \<Rightarrow> string option \<times> listening" where
  "Start_csms listen u =
     (let bind = cs_Bind (up_opts u) in
      case listen bind of
        Inl e \<Rightarrow> (Some (''csms: listening on '' @ bind @ '': '' @ e), u)
      | Inr a \<Rightarrow> (None, u\<lparr>up_ln := Some a, up_serving := True\<rparr>))"

definition Addr :: "listening \<Rightarrow> string" where
  "Addr u = (case up_ln u of None \<Rightarrow> cs_Bind (up_opts u) | Some a \<Rightarrow> a)"

text \<open>
  \<open>Shutdown\<close> up to its wait: the context is cancelled, every registered connection closed, and the
  HTTP server shut down, which closes the listener and ends the goroutine that serves it.
\<close>

definition Shutdown_begin :: "listening \<Rightarrow> listening" where
  "Shutdown_begin u = u\<lparr>up_cancelled := True, up_server := close_all (up_server u), up_serving := False\<rparr>"

text \<open>The wait group: the goroutine of \<open>Start\<close> and one goroutine per connection.\<close>

definition wg_zero :: "listening \<Rightarrow> bool" where
  "wg_zero u \<longleftrightarrow> \<not> up_serving u \<and> list_all (\<lambda>t. sv_phase t = Finished) (srv_threads (up_server u))"

text \<open>What \<open>Shutdown\<close> may return in a state: the result of \<open>http.Shutdown\<close> once the goroutines are
  gone, the error of its own context once that has ended.\<close>

definition Shutdown_outcomes :: "string option \<Rightarrow> string option \<Rightarrow> listening \<Rightarrow> string option list" where
  "Shutdown_outcomes http_err ctx_err u =
     (if wg_zero u then [http_err] else []) @ (case ctx_err of None \<Rightarrow> [] | Some e \<Rightarrow> [Some e])"

subsection \<open>Goroutines going home\<close>

text \<open>
  The steps the goroutines of \<open>serveConn\<close> take without the peer: a connection's \<open>Run\<close> returns when
  the connection was closed, and is only certain to return then.
\<close>

inductive finish_step :: "server \<Rightarrow> server \<Rightarrow> bool" where
  f_register: "k < length (srv_threads s) \<Longrightarrow> sv_phase (srv_threads s ! k) = Registering \<Longrightarrow>
     finish_step s (register k s)"
| f_connected: "k < length (srv_threads s) \<Longrightarrow> t = srv_threads s ! k \<Longrightarrow> sv_phase t = Connecting \<Longrightarrow>
     finish_step s (set_thread k (t\<lparr>sv_phase := Running\<rparr>) (s\<lparr>srv_core := Connected now (sv_id t) (srv_core s)\<rparr>))"
| f_ended: "k < length (srv_threads s) \<Longrightarrow> t = srv_threads s ! k \<Longrightarrow> sv_phase t = Running \<Longrightarrow> sv_closed t \<Longrightarrow>
     finish_step s (set_thread k (t\<lparr>sv_phase := Ended reason, sv_closed := True\<rparr>) s)"
| f_unregister: "k < length (srv_threads s) \<Longrightarrow> sv_phase (srv_threads s ! k) = Ended reason \<Longrightarrow>
     finish_step s (unregister k reason s)"
| f_disconnected: "k < length (srv_threads s) \<Longrightarrow> t = srv_threads s ! k \<Longrightarrow> sv_phase t = Reporting reason \<Longrightarrow>
     finish_step s (set_thread k (t\<lparr>sv_phase := Finished\<rparr>)
       (s\<lparr>srv_core := Disconnected now (sv_id t) reason (srv_core s)\<rparr>))"

lemma finish_srv_step: "finish_step s s' \<Longrightarrow> srv_step s s'"
  by (induction rule: finish_step.induct)
    (auto intro: srv_register srv_connected srv_ended srv_unregister srv_disconnected)

subsection \<open>An open connection is registered\<close>

abbreviation up :: "serve_phase \<Rightarrow> bool" where
  "up p \<equiv> p = Connecting \<or> p = Running"

definition thr_inv :: "server \<Rightarrow> bool" where
  "thr_inv s \<longleftrightarrow>
     (\<forall>k < length (srv_threads s).
        (up (sv_phase (srv_threads s ! k)) \<longrightarrow>
           sv_closed (srv_threads s ! k) \<or> srv_conns s (sv_id (srv_threads s ! k)) = Some k) \<and>
        (sv_phase (srv_threads s ! k) = Registering \<longrightarrow> \<not> sv_closed (srv_threads s ! k))) \<and>
     (\<forall>i k. srv_conns s i = Some k \<longrightarrow>
        k < length (srv_threads s) \<and> sv_id (srv_threads s ! k) = i \<and> sv_phase (srv_threads s ! k) \<noteq> Registering)"

lemma thr_invI:
  assumes "\<And>k. k < length (srv_threads s) \<Longrightarrow> up (sv_phase (srv_threads s ! k)) \<Longrightarrow>
      \<not> sv_closed (srv_threads s ! k) \<Longrightarrow> srv_conns s (sv_id (srv_threads s ! k)) = Some k"
    and "\<And>k. k < length (srv_threads s) \<Longrightarrow> sv_phase (srv_threads s ! k) = Registering \<Longrightarrow> \<not> sv_closed (srv_threads s ! k)"
    and "\<And>i k. srv_conns s i = Some k \<Longrightarrow>
      k < length (srv_threads s) \<and> sv_id (srv_threads s ! k) = i \<and> sv_phase (srv_threads s ! k) \<noteq> Registering"
  shows "thr_inv s"
  unfolding thr_inv_def using assms by blast

lemma thr_invD:
  assumes "thr_inv s"
  shows "k < length (srv_threads s) \<Longrightarrow> up (sv_phase (srv_threads s ! k)) \<Longrightarrow>
      \<not> sv_closed (srv_threads s ! k) \<Longrightarrow> srv_conns s (sv_id (srv_threads s ! k)) = Some k"
    and "k < length (srv_threads s) \<Longrightarrow> sv_phase (srv_threads s ! k) = Registering \<Longrightarrow> \<not> sv_closed (srv_threads s ! k)"
    and "srv_conns s i = Some k \<Longrightarrow>
      k < length (srv_threads s) \<and> sv_id (srv_threads s ! k) = i \<and> sv_phase (srv_threads s ! k) \<noteq> Registering"
  using assms unfolding thr_inv_def by blast+

text \<open>A thread that changes its phase only.\<close>

lemma thr_inv_phase:
  assumes "thr_inv s" "k < length (srv_threads s)" "t = srv_threads s ! k" "sv_phase t \<noteq> Registering"
    "p \<noteq> Registering" "up p \<Longrightarrow> up (sv_phase t)" "srv_threads s' = srv_threads s" "srv_conns s' = srv_conns s"
  shows "thr_inv (set_thread k (t\<lparr>sv_phase := p\<rparr>) s')"
  using assms unfolding thr_inv_def by (auto simp: nth_list_update)

lemma register_threads:
  assumes "thr_inv s" "k < length (srv_threads s)" "sv_phase (srv_threads s ! k) = Registering" "m < length (srv_threads s)"
  shows "srv_threads (register k s) ! m =
    (if m = k then (srv_threads s ! k)\<lparr>sv_phase := Connecting\<rparr>
     else if srv_conns s (sv_id (srv_threads s ! k)) = Some m then (srv_threads s ! m)\<lparr>sv_closed := True\<rparr>
     else srv_threads s ! m)"
proof (cases "srv_conns s (sv_id (srv_threads s ! k))")
  case None
  then show ?thesis using assms by (simp add: register_def nth_list_update)
next
  case (Some old)
  then have "old \<noteq> k" "old < length (srv_threads s)" using assms unfolding thr_inv_def by auto
  then show ?thesis using Some assms by (auto simp: register_def close_conn_def nth_list_update Let_def)
qed

lemma register_simps [simp]:
  "length (srv_threads (register k s)) = length (srv_threads s)"
  "srv_conns (register k s) = (srv_conns s)(sv_id (srv_threads s ! k) \<mapsto> k)"
  by (auto simp: register_def close_conn_def Let_def split: option.split)

lemma thr_inv_register:
  assumes "thr_inv s" "k < length (srv_threads s)" "sv_phase (srv_threads s ! k) = Registering"
  shows "thr_inv (register k s)"
proof (rule thr_invI)
  note D = thr_invD [OF assms(1)]
  let ?i = "sv_id (srv_threads s ! k)"
  fix m
  assume m: "m < length (srv_threads (register k s))"
  then have th: "srv_threads (register k s) ! m = (if m = k then (srv_threads s ! k)\<lparr>sv_phase := Connecting\<rparr>
      else if srv_conns s ?i = Some m then (srv_threads s ! m)\<lparr>sv_closed := True\<rparr> else srv_threads s ! m)"
    by (intro register_threads assms) simp
  show "srv_conns (register k s) (sv_id (srv_threads (register k s) ! m)) = Some m"
    if "up (sv_phase (srv_threads (register k s) ! m))" "\<not> sv_closed (srv_threads (register k s) ! m)"
    using that m D(1) [of m] unfolding th by (auto split: if_splits)
  show "\<not> sv_closed (srv_threads (register k s) ! m)" if "sv_phase (srv_threads (register k s) ! m) = Registering"
    using that m D(2) [of m] D(3) [of ?i m] unfolding th by (auto split: if_splits)
next
  fix i m
  assume "srv_conns (register k s) i = Some m"
  then have c: "(if i = sv_id (srv_threads s ! k) then m = k else srv_conns s i = Some m)" by (auto split: if_splits)
  then have m: "m < length (srv_threads s)" using assms(2) thr_invD(3) [OF assms(1), of i m] by (auto split: if_splits)
  show "m < length (srv_threads (register k s)) \<and> sv_id (srv_threads (register k s) ! m) = i \<and>
      sv_phase (srv_threads (register k s) ! m) \<noteq> Registering"
    using c m assms(3) thr_invD(3) [OF assms(1), of i m] by (auto simp: register_threads [OF assms] split: if_splits)
qed

lemma thr_inv_drop:
  assumes "thr_inv s" "k < length (srv_threads s)" "srv_conns s (sv_id (srv_threads s ! k)) = Some k"
    "p \<noteq> Registering" "\<not> up p"
  shows "thr_inv (set_thread k ((srv_threads s ! k)\<lparr>sv_phase := p\<rparr>)
    (s\<lparr>srv_conns := (srv_conns s)(sv_id (srv_threads s ! k) := None)\<rparr>))" (is "thr_inv ?s")
proof (rule thr_invI)
  fix m
  assume "m < length (srv_threads ?s)"
  then have m: "m < length (srv_threads s)" by simp
  show "srv_conns ?s (sv_id (srv_threads ?s ! m)) = Some m"
    if "up (sv_phase (srv_threads ?s ! m))" "\<not> sv_closed (srv_threads ?s ! m)"
    using that thr_invD(1) [OF assms(1) m] assms(2-5) by (cases "m = k") auto
  show "\<not> sv_closed (srv_threads ?s ! m)" if "sv_phase (srv_threads ?s ! m) = Registering"
    using that thr_invD(2) [OF assms(1) m] assms(2,4) by (cases "m = k") auto
next
  fix i m
  assume "srv_conns ?s i = Some m"
  then have c: "srv_conns s i = Some m" "m \<noteq> k" using assms(3) thr_invD(3) [OF assms(1), of i m] by (auto split: if_splits)
  show "m < length (srv_threads ?s) \<and> sv_id (srv_threads ?s ! m) = i \<and> sv_phase (srv_threads ?s ! m) \<noteq> Registering"
    using thr_invD(3) [OF assms(1) c(1)] c(2) by simp
qed

lemma thr_inv_unregister:
  assumes "thr_inv s" "k < length (srv_threads s)" "sv_phase (srv_threads s ! k) = Ended reason"
  shows "thr_inv (unregister k reason s)"
proof -
  let ?t = "srv_threads s ! k"
  have "thr_inv (set_thread k (?t\<lparr>sv_phase := Finished\<rparr>) s)"
    by (rule thr_inv_phase [OF assms(1,2) refl]) (simp_all add: assms(3))
  moreover have "thr_inv (set_thread k (?t\<lparr>sv_phase := Reporting reason\<rparr>) (s\<lparr>srv_conns := (srv_conns s)(sv_id ?t := None)\<rparr>))"
    if "srv_conns s (sv_id ?t) = Some k"
    by (rule thr_inv_drop [OF assms(1,2) that]) (simp_all add: assms(3))
  ultimately show ?thesis by (simp add: unregister_def Let_def)
qed

lemma close_all_simps [simp]:
  "length (srv_threads (close_all s)) = length (srv_threads s)" "srv_conns (close_all s) = srv_conns s"
  "k < length (srv_threads s) \<Longrightarrow> srv_threads (close_all s) ! k =
     (if srv_conns s (sv_id (srv_threads s ! k)) = Some k then (srv_threads s ! k)\<lparr>sv_closed := True\<rparr>
      else srv_threads s ! k)"
  by (simp_all add: close_all_def nth_enumerate_eq)

lemma thr_inv_close_all:
  assumes "thr_inv s"
  shows "thr_inv (close_all s)"
proof (rule thr_invI)
  fix k
  assume "k < length (srv_threads (close_all s))"
  then have k: "k < length (srv_threads s)" by simp
  show "srv_conns (close_all s) (sv_id (srv_threads (close_all s) ! k)) = Some k"
    if "up (sv_phase (srv_threads (close_all s) ! k))" "\<not> sv_closed (srv_threads (close_all s) ! k)"
    using that thr_invD(1) [OF assms k] by (simp add: k split: if_splits)
  show "\<not> sv_closed (srv_threads (close_all s) ! k)" if "sv_phase (srv_threads (close_all s) ! k) = Registering"
    using that thr_invD(2) [OF assms k] thr_invD(3) [OF assms, of "sv_id (srv_threads s ! k)" k] by (simp add: k split: if_splits)
next
  fix i k
  assume "srv_conns (close_all s) i = Some k"
  then show "k < length (srv_threads (close_all s)) \<and> sv_id (srv_threads (close_all s) ! k) = i \<and>
      sv_phase (srv_threads (close_all s) ! k) \<noteq> Registering"
    using thr_invD(3) [OF assms, of i k] by simp
qed

lemma thr_inv_step: "thr_inv s \<Longrightarrow> srv_step s s' \<Longrightarrow> thr_inv s'"
proof (rotate_tac, induction rule: srv_step.induct)
  case (srv_accept i s v)
  then show ?case unfolding thr_inv_def by (auto simp: nth_append less_Suc_eq)
next
  case (srv_handle k s x)
  then show ?case by (simp add: thr_inv_def)
next
  case (srv_ended k s t reason)
  have "thr_inv (set_thread k (t\<lparr>sv_phase := Ended reason\<rparr>) s)"
    by (rule thr_inv_phase) (use srv_ended in simp_all)
  then show ?case using srv_ended unfolding thr_inv_def by (auto simp: nth_list_update)
next
  case (srv_connected k s t now)
  then show ?case by (intro thr_inv_phase [of s k t]) simp_all
next
  case (srv_disconnected k s t reason now)
  then show ?case by (intro thr_inv_phase [of s k t]) simp_all
qed (simp_all add: thr_inv_register thr_inv_unregister thr_inv_close_all)

lemma thr_inv_init: "srv_init s \<Longrightarrow> thr_inv s"
  by (auto simp: srv_init_def NewServer_def thr_inv_def)

interpretation srv_open: invariant_system srv_init srv_step thr_inv
  by unfold_locales (blast intro: thr_inv_init thr_inv_step)+

subsection \<open>Every run of the goroutines ends\<close>

fun phase_rank :: "serve_phase \<Rightarrow> nat" where
  "phase_rank Registering = 5"
| "phase_rank Connecting = 4"
| "phase_rank Running = 3"
| "phase_rank (Ended _) = 2"
| "phase_rank (Reporting _) = 1"
| "phase_rank Finished = 0"

definition srv_rank :: "server \<Rightarrow> nat" where
  "srv_rank s = sum_list (map phase_rank (map sv_phase (srv_threads s)))"

lemma register_phases:
  "map sv_phase (srv_threads (register k s)) = (map sv_phase (srv_threads s))[k := Connecting]"
proof (cases "srv_conns s (sv_id (srv_threads s ! k))")
  case (Some old)
  have "(map sv_phase (srv_threads s))[old := sv_phase (srv_threads s ! old)] = map sv_phase (srv_threads s)"
    by (metis list_update_beyond list_update_id length_map linorder_not_less nth_map)
  then show ?thesis using Some by (simp add: register_def close_conn_def Let_def map_update)
qed (simp add: register_def map_update)

lemma finish_phase:
  "finish_step s s' \<Longrightarrow> \<exists>k p. k < length (srv_threads s) \<and>
     map sv_phase (srv_threads s') = (map sv_phase (srv_threads s))[k := p] \<and>
     phase_rank p < phase_rank (sv_phase (srv_threads s ! k))"
proof (induction rule: finish_step.induct)
  case (f_register k s)
  then show ?case by (intro exI [of _ k] exI [of _ Connecting]) (simp add: register_phases)
next
  case (f_connected k s t now)
  then show ?case by (intro exI [of _ k] exI [of _ Running]) (simp add: map_update)
next
  case (f_ended k s t reason)
  then show ?case by (intro exI [of _ k] exI [of _ "Ended reason"]) (simp add: map_update)
next
  case (f_unregister k s reason)
  then show ?case
    by (intro exI [of _ k] exI [of _ "if srv_conns s (sv_id (srv_threads s ! k)) = Some k then Reporting reason else Finished"])
      (simp add: map_update unregister_def Let_def)
next
  case (f_disconnected k s t reason now)
  then show ?case by (intro exI [of _ k] exI [of _ Finished]) (simp add: map_update)
qed

lemma finish_rank:
  assumes "finish_step s s'"
  shows "srv_rank s' < srv_rank s"
proof -
  obtain k p where k: "k < length (srv_threads s)" "map sv_phase (srv_threads s') = (map sv_phase (srv_threads s))[k := p]"
      "phase_rank p < phase_rank (sv_phase (srv_threads s ! k))"
    using finish_phase [OF assms] by blast
  have "phase_rank (sv_phase (srv_threads s ! k)) \<le> srv_rank s"
    using k(1) elem_le_sum_list [of k "map phase_rank (map sv_phase (srv_threads s))"] by (simp add: srv_rank_def)
  then show ?thesis using k unfolding srv_rank_def k(2) map_update by (simp add: sum_list_update del: map_map)
qed

lemma finish_run_bound: "(finish_step ^^ n) s s' \<Longrightarrow> n + srv_rank s' \<le> srv_rank s"
  by (induction n arbitrary: s') (auto dest!: finish_rank, fastforce)

lemma srv_rank_bound: "srv_rank s \<le> 5 * length (srv_threads s)"
proof -
  have "phase_rank p \<le> 5" for p by (cases p) simp_all
  then have "sum_list (map phase_rank ps) \<le> 5 * length ps" for ps
    by (induction ps) (auto intro: add_mono)
  then show ?thesis unfolding srv_rank_def by (metis length_map)
qed

subsection \<open>What keeps a goroutine\<close>

text \<open>A connection that nobody closed, or that is about to become one.\<close>

definition open_thread :: "serving \<Rightarrow> bool" where
  "open_thread t \<longleftrightarrow> sv_phase t = Registering \<or> up (sv_phase t) \<and> \<not> sv_closed t"

definition some_open :: "server \<Rightarrow> bool" where
  "some_open s \<longleftrightarrow> (\<exists>k < length (srv_threads s). open_thread (srv_threads s ! k))"

lemma some_open_set:
  assumes "k < length (srv_threads s)" "srv_threads s' = srv_threads s" "open_thread t = open_thread (srv_threads s ! k)"
  shows "some_open (set_thread k t s') = some_open s"
  unfolding some_open_def using assms by (auto simp: nth_list_update)

lemma finish_open: "finish_step s s' \<Longrightarrow> thr_inv s \<Longrightarrow> some_open s' = some_open s"
proof (induction rule: finish_step.induct)
  case (f_register k s)
  have "open_thread (srv_threads (register k s) ! k)"
    using f_register thr_invD(2) [OF f_register(3,1)] by (simp add: register_threads open_thread_def)
  then have "some_open (register k s)" using f_register(1) by (auto simp: some_open_def)
  moreover have "some_open s" using f_register by (auto simp: some_open_def open_thread_def)
  ultimately show ?case by simp
next
  case (f_unregister k s reason)
  then have "some_open (set_thread k ((srv_threads s ! k)\<lparr>sv_phase := p\<rparr>) s') = some_open s"
    if "p \<in> {Reporting reason, Finished}" "srv_threads s' = srv_threads s" for p s'
    using that by (intro some_open_set) (auto simp: open_thread_def)
  then show ?case by (simp add: unregister_def Let_def)
qed (rule some_open_set; simp add: open_thread_def)+

lemma finish_run_open: "finish_step\<^sup>*\<^sup>* s s' \<Longrightarrow> thr_inv s \<Longrightarrow> thr_inv s' \<and> some_open s' = some_open s"
  by (induction rule: rtranclp_induct) (auto simp: finish_open intro: thr_inv_step finish_srv_step)

lemma stuck_phase:
  assumes "\<nexists>s'. finish_step s s'" "k < length (srv_threads s)"
  shows "sv_phase (srv_threads s ! k) = Finished \<or> sv_phase (srv_threads s ! k) = Running \<and> \<not> sv_closed (srv_threads s ! k)"
proof (cases "sv_phase (srv_threads s ! k)")
  case Registering
  then show ?thesis using assms f_register by blast
next
  case Connecting
  then show ?thesis using assms f_connected [OF _ refl] by blast
next
  case Running
  then show ?thesis using assms f_ended [OF _ refl] by blast
next
  case (Ended r)
  then show ?thesis using assms f_unregister by blast
next
  case (Reporting r)
  then show ?thesis using assms f_disconnected [OF _ refl] by blast
qed simp

lemma stuck_open:
  assumes "\<nexists>s'. finish_step s s'"
  shows "list_all (\<lambda>t. sv_phase t = Finished) (srv_threads s) \<longleftrightarrow> \<not> some_open s"
proof -
  have "sv_phase (srv_threads s ! k) = Finished \<longleftrightarrow> \<not> open_thread (srv_threads s ! k)" if "k < length (srv_threads s)" for k
    using stuck_phase [OF assms that] by (auto simp: open_thread_def)
  then show ?thesis by (auto simp: list_all_length some_open_def)
qed

lemma close_all_open:
  assumes "thr_inv s"
  shows "some_open (close_all s) \<longleftrightarrow> (\<exists>t \<in> set (srv_threads s). sv_phase t = Registering)"
proof -
  have "open_thread (srv_threads (close_all s) ! k) \<longleftrightarrow> sv_phase (srv_threads s ! k) = Registering"
    if "k < length (srv_threads s)" for k
    using thr_invD(1) [OF assms that] that by (auto simp: open_thread_def)
  then show ?thesis unfolding some_open_def close_all_simps(1) by (metis in_set_conv_nth)
qed

subsection \<open>Properties\<close>


definition idle_server :: "server \<Rightarrow> listening" where
  "idle_server s = \<lparr>up_opts = \<lparr>cs_Bind = ''0.0.0.0:9000'', cs_Core = None, cs_Handlers = {}, cs_NewChargePoint = None,
     cs_Accept = None, cs_CallTimeout = 0, cs_IdleTimeout = 0\<rparr>, up_server = s, up_ln = None, up_serving = True,
     up_cancelled = False\<rparr>"


end
