(* ===== verification/Cli_Life.thy ===== *)
theory Cli_Life
  imports Cli_Props Csms_Life
begin

text \<open>
  The end of \<open>cpms run\<close> (\<open>internal/cli/run.go\<close>): the goroutine that logs the events it is subscribed
  to, and what happens after an interrupt. Unsubscribing closes the channel, the goroutine logs
  what is still buffered and ends, and \<open>run\<close> waits for it.
\<close>

subsection \<open>The event log\<close>

text \<open>A log line: the event's text, its kind and its charge point.\<close>

definition log_line :: "Event \<Rightarrow> string \<times> EventKind \<times> string" where
  "log_line e = (Event_String e, Kind e, ChargePointID e)"

text \<open>What is buffered for a subscriber.\<close>

definition buffered :: "nat \<Rightarrow> bus \<Rightarrow> Event list" where
  "buffered p b = (case bus_store b p of None \<Rightarrow> [] | Some s \<Rightarrow> sub_ch s)"

lemma receive_Some:
  "receive p b = (Some e, b') \<Longrightarrow> buffered p b = e # buffered p b'"
  by (auto simp: receive_def receive_sub_def buffered_def split: option.splits list.splits)

text \<open>The loop over a channel that was closed: it takes what is buffered, and ends.\<close>

function log_rest :: "nat \<Rightarrow> bus \<Rightarrow> (string \<times> EventKind \<times> string) list \<times> bus" where
  "log_rest p b =
     (case receive p b of
        (None, b') \<Rightarrow> ([], b')
      | (Some e, b') \<Rightarrow> (case log_rest p b' of (ls, b'') \<Rightarrow> (log_line e # ls, b'')))"
  by pat_completeness auto

termination
  by (relation "measure (\<lambda>(p, b). length (buffered p b))") (auto dest: receive_Some [OF sym])

declare log_rest.simps [simp del]

text \<open>
  \<open>run\<close> after the interrupt: the message, the warning if \<open>Shutdown\<close> returned an error, the lines
  logged after unsubscribing, and the bus. It always returns without an error.
\<close>

definition run_stop ::
  "string option \<Rightarrow> nat \<Rightarrow> bus \<Rightarrow> string \<times> (string \<times> string) option \<times> (string \<times> EventKind \<times> string) list \<times> bus" where
  "run_stop shutdown_err p b =
     (''shutting down'' @ nl, map_option (\<lambda>e. (''shutdown did not complete cleanly'', e)) shutdown_err,
      log_rest p (cancel p b))"

subsection \<open>What is logged\<close>

lemma log_rest_all:
  "bus_store b p = Some s \<Longrightarrow>
     log_rest p b = (map log_line (sub_ch s), b\<lparr>bus_store := (bus_store b)(p \<mapsto> s\<lparr>sub_ch := []\<rparr>)\<rparr>)"
proof (induction "sub_ch s" arbitrary: b s)
  case Nil
  then have "s = s\<lparr>sub_ch := []\<rparr>" by simp
  then show ?case
    using Nil by (subst log_rest.simps) (simp add: receive_def receive_sub_def fun_upd_idem)
next
  case (Cons e es)
  let ?s = "s\<lparr>sub_ch := es\<rparr>" and ?b = "b\<lparr>bus_store := (bus_store b)(p \<mapsto> s\<lparr>sub_ch := es\<rparr>)\<rparr>"
  have r: "receive p b = (Some e, ?b)"
    using Cons.hyps(2) [symmetric] Cons.prems by (simp add: receive_def receive_sub_def)
  have "log_rest p ?b = (map log_line es, ?b\<lparr>bus_store := (bus_store ?b)(p \<mapsto> ?s\<lparr>sub_ch := []\<rparr>)\<rparr>)"
    using Cons.hyps(1) [of ?s ?b] by simp
  then show ?case
    using r Cons.hyps(2) [symmetric] by (subst log_rest.simps) simp
qed

lemma bus_run_registered:
  "bus_inv b \<Longrightarrow> p \<in> set (bus_subs b) \<Longrightarrow> OpCancel p \<notin> set xs \<Longrightarrow> bus_run q xs b = (got, b') \<Longrightarrow>
     bus_inv b' \<and> p \<in> set (bus_subs b')"
proof (induction xs arbitrary: b got)
  case (Cons x xs)
  then obtain got' where "bus_run q xs (bus_exec x b) = (got', b')" by (auto split: prod.splits)
  moreover have "x \<noteq> OpCancel p" "OpCancel p \<notin> set xs" using Cons.prems(3) by auto
  ultimately show ?case using Cons.IH Cons.prems(1,2) bus_exec_inv bus_exec_registered by blast
qed simp

lemma cancel_registered:
  assumes "p \<in> set (bus_subs b)" "bus_store b p = Some s"
  shows "bus_store (cancel p b) p = Some (s\<lparr>sub_closed := True\<rparr>)" "p \<notin> set (bus_subs (cancel p b))"
  using assms by (simp_all add: cancel_def cancel_close_def cancel_delete_def)



end
