(* ===== verification/Cli_Main.thy ===== *)
theory Cli_Main
  imports Cli_Life
begin

text \<open>
  The commands of \<open>cpms\<close> from the command line to the exit code (\<open>internal/cli\<close>, \<open>cmd/cpms/main.go\<close>): the
  command tree as data, what each command does when it is chosen, and what the process reports.
  Choosing the command and parsing its flags is the library's work (cobra), so that its outcome, an
  \<open>invocation\<close>, is an argument, as are the help texts it renders.
\<close>

subsection \<open>The command tree\<close>

datatype flag_value = FString string | FInt int

record flag =
  flag_name :: string
  flag_short :: string
  flag_default :: flag_value
  flag_usage :: string

datatype cobra_command =
  Command (cmd_Use: string) (cmd_Short: string) (cmd_Long: string) (cmd_NoArgs: bool) (cmd_runs: bool)
    (cmd_flags: "flag list") (cmd_subs: "cobra_command list")

definition string_flag :: "string \<Rightarrow> string \<Rightarrow> string \<Rightarrow> flag" where
  "string_flag name d usage = \<lparr>flag_name = name, flag_short = [], flag_default = FString d, flag_usage = usage\<rparr>"

definition log_level_flag :: flag where
  "log_level_flag = string_flag ''log-level'' ''info'' ''log level: debug, info, warn or error''"

definition newRunCommand :: cobra_command where
  "newRunCommand =
     Command ''run'' ''Run the CSMS and wait for the charger to connect''
       (''Starts the OCPP server and logs what the charge point does.'' @ nl @ nl @
        ''Remember that the charger dials us, not the other way round: point the'' @ nl @
        ''station's CSMS URL at the address printed on startup.'')
       True True [log_level_flag] []"

definition newConfigValidateCommand :: cobra_command where
  "newConfigValidateCommand =
     Command ''validate'' ''Check the configuration file and print a summary''
       (''Loads the configuration file, applies defaults, and validates it.'' @ nl @
        ''Exits 0 and prints a summary when the file is usable; exits 1 and lists'' @ nl @
        ''every problem, each named by its field path, when it is not.'')
       True True [] []"

definition newConfigCommand :: cobra_command where
  "newConfigCommand =
     Command ''config'' ''Inspect the configuration file'' [] False False [] [newConfigValidateCommand]"

definition newSimulateChargerCommand :: cobra_command where
  "newSimulateChargerCommand =
     Command ''charger'' ''Run a simulated charge point against a CSMS''
       (''Dials a CSMS and behaves like a charging station: boots, heartbeats,'' @ nl @
        ''reports connector status and answers commands.'' @ nl @ nl @
        ''With no flags it reads the config file and points itself at the CSMS'' @ nl @
        ''cpms itself would serve, so `cpms run` in one terminal and'' @ nl @
        ''`cpms simulate charger` in another is a working pair.'' @ nl @ nl @
        ''Scenarios make the station misbehave on purpose: '' @ scenarioList @ ''.'')
       True True
       [string_flag ''csms'' [] ''CSMS WebSocket URL (default: derived from the config's ocpp_bind)'',
        string_flag ''id'' [] ''charge point identity (default: the config's charger.id)'',
        string_flag ''ocpp'' Version16 ''OCPP version to speak'',
        \<lparr>flag_name = ''connectors'', flag_short = [], flag_default = FInt 0,
         flag_usage = ''number of connectors (default: the config's EVSE count)''\<rparr>,
        string_flag ''scenario'' ScenarioNormal (''misbehaviour to simulate: '' @ scenarioList),
        string_flag ''tag'' [] ''RFID tag to quote when starting locally (default: the config's default_id_tag)'',
        string_flag ''vendor'' [] ''chargePointVendor to report'',
        string_flag ''model'' [] ''chargePointModel to report'',
        log_level_flag] []"

definition newSimulateCommand :: cobra_command where
  "newSimulateCommand =
     Command ''simulate'' ''Pretend to be hardware, for testing without the station'' [] False False []
       [newSimulateChargerCommand]"

definition newVersionCommand :: cobra_command where
  "newVersionCommand = Command ''version'' ''Print the cpms version'' [] True True [] []"

definition NewRootCommand :: cobra_command where
  "NewRootCommand =
     Command ''cpms'' ''A terminal charge point management system (OCPP + OCPI)''
       (''cpms drives an OCPP charging station from the terminal and exposes a'' @ nl @
        ''minimal OCPI 2.3.0 CPO interface on the LAN.'' @ nl @ nl @
        ''The charger connects to us: point the station's CSMS URL at'' @ nl @
        ''ws://<this-host>:<ocpp port>/ocpp/<charge point id>.'')
       False True
       [\<lparr>flag_name = ''config'', flag_short = ''c'', flag_default = FString DefaultConfigPath,
         flag_usage = ''path to the configuration file''\<rparr>,
        string_flag ''state'' [] (''path to the state file (default: '' @ DefaultStateFile @ '' next to the config file)'')]
       [newRunCommand, newSimulateCommand, newVersionCommand, newConfigCommand]"

text \<open>The settings when no flag is given.\<close>

definition default_options :: cli_options where
  "default_options = \<lparr>configPath = DefaultConfigPath, statePath = []\<rparr>"

subsection \<open>What the commands do\<close>

text \<open>What the library makes of the arguments: help for a command without an action of its own, a
  command with its flags, or its own error (unknown command, bad flag, unexpected argument).\<close>

datatype invocation =
    Help "string list"
  | Run string
  | ConfigValidate
  | SimulateCharger sim_flags
  | PrintVersion
  | Refused string

text \<open>The world of one invocation: the configuration file, the state file, the listener, the
  shutdown, the run of the simulator, the build, and what the libraries render.\<close>

record environment =
  env_load :: load_outcome
  env_problem :: "string \<Rightarrow> string"
  env_read_err :: "string option"
  env_disk :: disk
  env_listen :: "string + string"
  env_sim_run :: "Simulator \<Rightarrow> string option"
  env_build :: Info
  env_help :: "string list \<Rightarrow> string"
  env_align :: "string \<Rightarrow> string"

text \<open>\<open>run\<close> from the flags to the end, once the interrupt has come; log lines are not part of the
  streams.\<close>

definition run_command :: "environment \<Rightarrow> cli_options \<Rightarrow> string \<Rightarrow> streams \<times> cli_error option" where
  "run_command env g level =
     (case loadConfig g (env_load env) of
        (w, Inl e) \<Rightarrow> (w, Some e)
      | (w, Inr conf) \<Rightarrow>
          (case newLogger level of
             Inl e \<Rightarrow> (w, Some (CliError e))
           | Inr logger \<Rightarrow>
               (case run_start (env_problem env) (env_read_err env) (env_disk env) (env_listen env) conf
                       (resolvedStatePath g) of
                  Inl e \<Rightarrow> (w, Some (CliError e))
                | Inr (store, r, server, msg) \<Rightarrow> (w\<lparr>printed := msg @ ''shutting down'' @ nl\<rparr>, None))))"

definition simulate_command :: "environment \<Rightarrow> cli_options \<Rightarrow> sim_flags \<Rightarrow> streams \<times> cli_error option" where
  "simulate_command env g flags =
     (case simulateCharger g flags (env_load env) of
        Inl e \<Rightarrow> (quiet, Some (CliError e))
      | Inr (sim, msg) \<Rightarrow> (quiet\<lparr>printed := msg\<rparr>, map_option CliError (env_sim_run env sim)))"

definition version_command :: "environment \<Rightarrow> streams \<times> cli_error option" where
  "version_command env = (quiet\<lparr>printed := Info_String (env_build env) @ nl\<rparr>, None)"

fun execute :: "environment \<Rightarrow> cli_options \<Rightarrow> invocation \<Rightarrow> streams \<times> cli_error option" where
  "execute env g (Help path) = (quiet\<lparr>stdout := env_help env path\<rparr>, None)"
| "execute env g (Run level) = run_command env g level"
| "execute env g ConfigValidate = configValidate (env_align env) g (env_load env)"
| "execute env g (SimulateCharger flags) = simulate_command env g flags"
| "execute env g PrintVersion = version_command env"
| "execute env g (Refused e) = (quiet, Some (CliError e))"

text \<open>The process: what is on its streams, and the exit code.\<close>

definition cpms :: "environment \<Rightarrow> cli_options \<Rightarrow> invocation \<Rightarrow> streams \<times> int" where
  "cpms env g i =
     (let (w, e) = execute env g i; (msg, code) = main_exit e in (w\<lparr>stderr := stderr w @ msg\<rparr>, code))"

text \<open>The defaults in the tree are those of an invocation without flags.\<close>

lemma tree_defaults:
  "map (\<lambda>f. (flag_name f, flag_default f)) (cmd_flags newSimulateChargerCommand) =
     [(''csms'', FString (fl_csms default_flags)), (''id'', FString (fl_id default_flags)),
      (''ocpp'', FString (fl_version default_flags)), (''connectors'', FInt (fl_connectors default_flags)),
      (''scenario'', FString (fl_scenario default_flags)), (''tag'', FString (fl_tag default_flags)),
      (''vendor'', FString (fl_vendor default_flags)), (''model'', FString (fl_model default_flags)),
      (''log-level'', FString (fl_logLevel default_flags))]"
  "map (\<lambda>f. (flag_name f, flag_default f)) (cmd_flags NewRootCommand) =
     [(''config'', FString (configPath default_options)), (''state'', FString (statePath default_options))]"
  by (simp_all add: newSimulateChargerCommand_def string_flag_def log_level_flag_def default_flags_def
      NewRootCommand_def default_options_def)

subsection \<open>Properties\<close>

lemma cpms_cases:
  "cpms env g i =
     (case execute env g i of
        (w, None) \<Rightarrow> (w, 0)
      | (w, Some ErrSilent) \<Rightarrow> (w, 1)
      | (w, Some (CliError m)) \<Rightarrow> (w\<lparr>stderr := stderr w @ ''cpms: '' @ m @ nl\<rparr>, 1))"
  by (simp add: cpms_def main_exit_def split: prod.split option.split cli_error.split)

definition reads_config :: "invocation \<Rightarrow> bool" where
  "reads_config i \<longleftrightarrow> i = ConfigValidate \<or> (\<exists>level. i = Run level)"

text \<open>What a command that failed has written: the report of its configuration, or nothing.\<close>

lemma execute_failed:
  assumes "execute env g i = (w, Some e)"
  shows "stdout w = [] \<and>
    (if reads_config i \<and> (\<exists>v. env_load env = Inr (Inl v))
     then e = ErrSilent \<and> (\<exists>v. env_load env = Inr (Inl v) \<and> stderr w = printValidationReport (configPath g) v)
     else (\<exists>m. e = CliError m) \<and> stderr w = [])"
proof (cases i)
  case (Run level)
  then show ?thesis
    using assms
    by (auto simp: run_command_def loadConfig_def quiet_def reads_config_def split: sum.splits prod.splits)
next
  case ConfigValidate
  then show ?thesis
    using assms by (auto simp: configValidate_def loadConfig_def quiet_def reads_config_def split: sum.splits prod.splits)
next
  case (SimulateCharger flags)
  then show ?thesis
    using assms by (auto simp: simulate_command_def quiet_def reads_config_def split: sum.splits prod.splits)
qed (use assms in \<open>auto simp: version_command_def quiet_def reads_config_def\<close>)

lemma execute_succeeded: "execute env g i = (w, None) \<Longrightarrow> stderr w = []"
  by (cases i)
    (auto simp: run_command_def configValidate_def simulate_command_def version_command_def loadConfig_def quiet_def
      split: sum.splits prod.splits)

text \<open>
  Whatever the command line asks for and whatever it meets, \<open>cpms\<close> exits with 0 or 1. With 0
  it reports no error; with 1 it has written nothing to the standard output and reports exactly
  once: the validation report with every problem when a command that needs the configuration finds it
  invalid, and otherwise one line that names the error.
\<close>

theorem cli_reports_once:
  "case cpms env g i of (w, code) \<Rightarrow>
     code = 0 \<and> stderr w = [] \<or>
     code = 1 \<and> stdout w = [] \<and>
       (if reads_config i \<and> (\<exists>v. env_load env = Inr (Inl v))
        then \<exists>v. env_load env = Inr (Inl v) \<and> stderr w = printValidationReport (configPath g) v
        else \<exists>m. stderr w = ''cpms: '' @ m @ nl)"
proof (cases "execute env g i")
  case (Pair w r)
  show ?thesis
  proof (cases r)
    case None
    then show ?thesis using execute_succeeded Pair by (simp add: cpms_cases)
  next
    case (Some e)
    note f = execute_failed [OF Pair [unfolded Some]]
    show ?thesis
    proof (cases "reads_config i \<and> (\<exists>v. env_load env = Inr (Inl v))")
      case True
      then show ?thesis using f Pair Some by (auto simp: cpms_cases)
    next
      case False
      then obtain m where "e = CliError m" "stderr w = []" "stdout w = []" using f by auto
      then show ?thesis using False Pair Some by (simp add: cpms_cases)
    qed
  qed
qed

lemma run_outcome:
  "run_command env g level =
     (case env_load env of
        Inr (Inr c) \<Rightarrow>
          (case newLogger level of
             Inl e \<Rightarrow> (quiet, Some (CliError e))
           | Inr l \<Rightarrow>
               (case run_start (env_problem env) (env_read_err env) (env_disk env) (env_listen env) c (resolvedStatePath g) of
                  Inl e \<Rightarrow> (quiet, Some (CliError e))
                | Inr (store, r, server, msg) \<Rightarrow> (quiet\<lparr>printed := msg @ ''shutting down'' @ nl\<rparr>, None)))
      | Inr (Inl v) \<Rightarrow> (quiet\<lparr>stderr := printValidationReport (configPath g) v\<rparr>, Some ErrSilent)
      | Inl err \<Rightarrow> (quiet, Some (CliError (''reading '' @ configPath g @ '': '' @ err))))"
  by (simp add: run_command_def loadConfig_def split: sum.split)

text \<open>
  \<open>config validate\<close> predicts \<open>run\<close>: when it fails, \<open>run\<close> fails with the very same output, and when it
  succeeds, \<open>run\<close> starts and ends with exit code 0 exactly when the log level is known, the
  configured OCPP version is 1.6, the state file can be opened and the address can be listened on.
\<close>

theorem validate_predicts_run:
  assumes "env_load env = Inr (parse_config url_parse first extra)"
  shows "(snd (cpms env g ConfigValidate) = 1 \<longrightarrow> cpms env g (Run level) = cpms env g ConfigValidate) \<and>
    (snd (cpms env g ConfigValidate) = 0 \<longrightarrow>
       (\<exists>c. parse_config url_parse first extra = Inr c \<and>
          (snd (cpms env g (Run level)) = 0 \<longleftrightarrow>
             \<not> isl (newLogger level) \<and> ch_OCPPVersion (cf_Charger c) = Version16 \<and>
             \<not> isl (Open (env_problem env) (env_read_err env) (resolvedStatePath g) (env_disk env)) \<and>
             \<not> isl (env_listen env))))"
proof (cases "parse_config url_parse first extra")
  case (Inl v)
  then show ?thesis
    using assms by (simp add: cpms_cases run_outcome configValidate_def loadConfig_def)
next
  case (Inr c)
  have ne: "Version201 \<noteq> Version16" by (simp add: Version201_def Version16_def)
  have r: "case run_start (env_problem env) (env_read_err env) (env_disk env) (env_listen env) c (resolvedStatePath g) of
     Inl e \<Rightarrow> ch_OCPPVersion (cf_Charger c) = Version201 \<or>
       isl (Open (env_problem env) (env_read_err env) (resolvedStatePath g) (env_disk env)) \<or> isl (env_listen env)
   | Inr (store, r, server, text) \<Rightarrow> ch_OCPPVersion (cf_Charger c) = Version16 \<and>
       Open (env_problem env) (env_read_err env) (resolvedStatePath g) (env_disk env) = Inr store \<and> \<not> isl (env_listen env)"
    using run_starts_iff [OF Inr, where problem = "env_problem env" and read_err = "env_read_err env" and
        d = "env_disk env" and listen = "env_listen env" and path = "resolvedStatePath g"]
    by (auto split: sum.splits)
  have "snd (cpms env g ConfigValidate) = 0"
    using assms Inr by (simp add: cpms_cases configValidate_def loadConfig_def)
  moreover have "snd (cpms env g (Run level)) = 0 \<longleftrightarrow>
             \<not> isl (newLogger level) \<and> ch_OCPPVersion (cf_Charger c) = Version16 \<and>
             \<not> isl (Open (env_problem env) (env_read_err env) (resolvedStatePath g) (env_disk env)) \<and>
             \<not> isl (env_listen env)"
    using r ne assms Inr
    by (simp add: cpms_cases run_outcome split: sum.splits prod.splits) auto
  ultimately show ?thesis using Inr by simp
qed

definition sample_environment :: environment where
  "sample_environment =
     \<lparr>env_load = Inr (parse_config sample_url (YamlConfig sample_config) NoMore), env_problem = id, env_read_err = None,
      env_disk = Map.empty, env_listen = Inr ''127.0.0.1:9000'', env_sim_run = (\<lambda>_. None),
      env_build = Get_info ''dev'' [] [] ''go1.24'' ''linux/amd64'' None, env_help = (\<lambda>_. []), env_align = id\<rparr>"

theorem validate_predicts_run_witness:
  "snd (cpms sample_environment default_options ConfigValidate) = 0 \<and>
   snd (cpms sample_environment default_options (Run ''INFO'')) = 0"
proof -
  obtain c where c: "parse_config sample_url (YamlConfig sample_config) NoMore = Inr c"
    using sample_loads by (cases "parse_config sample_url (YamlConfig sample_config) NoMore") auto
  have load: "env_load sample_environment = Inr (parse_config sample_url (YamlConfig sample_config) NoMore)"
    by (simp add: sample_environment_def)
  have v: "snd (cpms sample_environment default_options ConfigValidate) = 0"
    by (simp add: cpms_cases configValidate_def loadConfig_def load c)
  have ver: "ch_OCPPVersion (cf_Charger c) = Version16" using sample_version by (simp add: c)
  have level: "\<not> isl (newLogger ''INFO'')" by code_simp
  have disk: "\<not> isl (Open (env_problem sample_environment) (env_read_err sample_environment)
      (resolvedStatePath default_options) (env_disk sample_environment))"
    by (simp add: Open_def sample_environment_def)
  have "\<not> isl (env_listen sample_environment)" by (simp add: sample_environment_def)
  then show ?thesis
    using validate_predicts_run [OF load, of default_options "''INFO''"] v ver level disk by (simp add: c)
qed

end
