(* ===== verification/Spec2Isabelle.thy ===== *)
theory Spec2Isabelle
  imports Ocpp_Client Watchdog Reply_Types State_Power Station_Connect Station_Commands Wiring Cli_Main
begin

text \<open>
  A verification development of cpms, a charge point management system that drives one OCPP
  charging station from the terminal (Go, \<open>src/\<close>).

  \<^bold>\<open>The program.\<close> A charger dials the WebSocket server of \<open>internal/ocpp/csms\<close>, which takes its
  identity from the request path, negotiates an OCPP version and runs an OCPP-J connection
  (\<open>internal/ocpp/ocppj\<close>): frames, a table of pending calls, a reader, a writer and a handler loop.
  Inbound calls go to the version's adapter (\<open>internal/ocpp/v16\<close>), which decodes, validates and
  answers them and updates the domain core (\<open>internal/core\<close>): connection and connector statuses,
  transactions, and a bus of events. Commands go the other way, from the adapter's \<open>ChargePoint\<close>
  over the connection to the station. A configuration file (\<open>internal/config\<close>) says who the
  station is and maps EVSEs to connectors; a state file (\<open>internal/state\<close>) is replaced atomically.
  \<open>internal/simulator\<close> plays a station over the same connection code, and \<open>internal/cli\<close> ties the
  parts together.

  \<^bold>\<open>Theories and sources.\<close>
  \<^item> \<open>Prelude\<close>: 64-bit integers with their wrap-around, reachable states, and the locale
    \<open>invariant_system\<close> (an invariant that holds initially and is kept by every step), interpreted
    on the step relations of the event bus, the core under concurrent callers, a connection, two
    connected ends (twice), the test client, the server's registry (twice), and the station together
    with the CSMS.
  \<^item> \<open>Go_Text\<close>, \<open>Go_Time\<close>, \<open>Go_Json\<close>, \<open>Go_Net\<close>: what the program uses of Go's standard library, on
    byte strings: numbers, quoting, splitting and trimming, RFC 3339 times, JSON documents and the
    decoding of structs, durations, host and port, IP addresses.
  \<^item> \<open>Ocpp_Rpc\<close> (\<open>ocpp/ocpp.go\<close>, \<open>chargepoint.go\<close>): versions, errors, and the locale \<open>call_handler\<close>, the
    contract of whoever answers calls (errors change nothing, others' state is untouched, an
    invariant is kept), interpreted on the CSMS's 1.6 handler and on the simulated station.
  \<^item> \<open>Ocppj_Frame\<close>, \<open>Ocppj_Conn\<close> (\<open>ocppj/frame.go\<close>, \<open>conn.go\<close>): \<open>ParseFrame\<close> and the encoders; the
    goroutines of a connection as the step relation \<open>conn_step\<close>, whose rules are the points where
    they wait, lock or use a channel.
  \<^item> \<open>Ocppj_Duplex\<close>, \<open>Ocppj_Remote\<close> (\<open>ocppj/conn.go\<close> on both sides): two connections joined by a
    WebSocket, \<open>duplex_step\<close>, where one end reads what the other has written; the origin of every
    frame, and the properties of remote calls.
  \<^item> \<open>Watchdog\<close> (\<open>ocppj/conn.go\<close>): the read deadline and the ping of a connection, with explicit time.
  \<^item> \<open>Ocpp_Client\<close> (\<open>ocpptest/client.go\<close>): the raw client that drives the server in the tests, with a
    framing of its own, as the step relation \<open>client_step\<close>, and its composition with the server's side.
  \<^item> \<open>Core_Event\<close>, \<open>Core_Service\<close>, \<open>Core_Props\<close> (\<open>core/status.go\<close>, \<open>event.go\<close>, \<open>service.go\<close>): every
    operation of the service is its section under the lock (\<open>_locked\<close>) followed by the publication
    of the events it returned, so that interleavings of callers can be stated.
  \<^item> \<open>V16_Messages\<close>, \<open>V16_Commands\<close>, \<open>V16_Handler\<close>, \<open>V16_ChargePoint\<close> (\<open>ocpp/v16\<close>): one record per Go
    struct with its JSON form and decoder, the status tables, the inbound handlers and the outbound
    commands over an abstract \<open>caller\<close>.
  \<^item> \<open>Csms_Server\<close> (\<open>csms/server.go\<close>): options, the handshake \<open>ServeHTTP\<close>, and the goroutines running
    \<open>serveConn\<close> as the step relation \<open>srv_step\<close>.
  \<^item> \<open>Csms_Life\<close> (\<open>csms/server.go\<close>): \<open>Start\<close>, \<open>Addr\<close>, \<open>Shutdown\<close> and what it waits for.
  \<^item> \<open>Reply_Types\<close>: the types of replies in OCPP 1.6 as \<open>schema\<close>s, and \<open>conforms\<close>.
  \<^item> \<open>State_File\<close>, \<open>State_Store\<close> (\<open>state/state.go\<close>, \<open>store.go\<close>): the JSON file and its atomic
    replacement, with every system call allowed to fail and a crash between any two of them.
  \<^item> \<open>State_Power\<close> (\<open>state/syncdir_*.go\<close>): flushing the directory, and what a power cut may leave.
  \<^item> \<open>Config_Types\<close>, \<open>Config_Validate\<close>, \<open>Config_Load\<close>, \<open>Config_Props\<close> (\<open>config/*.go\<close>): the structs and
    lookups; every check with its message; normalising, defaults and the rendering of YAML errors;
    and \<open>config_ok\<close>, the rules a configuration has to satisfy, stated without the validator.
  \<^item> \<open>Simulator\<close>, \<open>Simulator_Run\<close> (\<open>simulator/*.go\<close>): the station's state, its answers to commands with
    the side effects they leave to goroutines, and what it does by itself over a \<open>caller\<close>.
  \<^item> \<open>Station\<close>, \<open>Station_Props\<close>: station and CSMS composed. The locale \<open>session_link\<close> is what the
    station may rely on of the other side; it is interpreted on \<open>csms_call\<close>, where the 1.6 handler
    over the core answers, messages and answers may be lost, and commands arrive meanwhile.
  \<^item> \<open>Station_Connect\<close> (\<open>simulator/simulator.go\<close>): \<open>Connect\<close>, \<open>Run\<close> and \<open>Wait\<close>.
  \<^item> \<open>Station_Wire\<close>: the station and the CSMS behind two connected ends; \<open>csms_call\<close>, which \<open>Station\<close> takes
    as one step, is what the goroutines and queues of the connections implement.
  \<^item> \<open>Station_Commands\<close> (\<open>ocpp/chargepoint.go\<close>, \<open>v16/chargepoint.go\<close>): the \<open>ChargePoint\<close> interface as a
    record and its promise as the locale \<open>charge_point\<close>, which the 1.6 adapter keeps over every
    \<open>rpc_caller\<close>; that locale is interpreted on the connection to the simulated station.
  \<^item> \<open>Wiring\<close> (\<open>ocppj/conn.go\<close>, \<open>v16/handler.go\<close>, \<open>config/load.go\<close>, \<open>duration.go\<close>): the options, accessors and
    error texts of a connection, the handler with its clock, the system they build, opening the
    configuration, durations in YAML.
  \<^item> \<open>Cli\<close>, \<open>Cli_Props\<close> (\<open>cli/*.go\<close>, \<open>buildinfo/buildinfo.go\<close>, \<open>cmd/cpms/main.go\<close>): the state file's path,
    the summary and the validation report, how \<open>run\<close> and \<open>simulate charger\<close> are set up.
  \<^item> \<open>Cli_Life\<close> (\<open>cli/run.go\<close>): the event log of \<open>run\<close> and what happens after an interrupt.
  \<^item> \<open>Cli_Main\<close> (\<open>cli/*.go\<close>, \<open>cmd/cpms/main.go\<close>): the command tree, the commands, and the exit of the process.
  \<^item> This theory: the way of the heartbeat interval through configuration, handler and station, and
    that the watchdog keeps a station that beats.

  \<^bold>\<open>What is shown.\<close> For the core: what an effective status implies under concurrent callers, that
  the published events replay to the current statuses, that transaction ids are fresh and a
  transaction stops once. For a connection: the pending table holds exactly the calls in
  progress, answers reach the call with their id, calls are served in order, a closed connection
  drains, and the watchdog fires exactly when the peer's OCPP layer has been silent too long. For
  two connected ends: remote calls are linearizable, executed at most once and in order, and none is
  lost while both ends stay open, although every queue is bounded and every send may block. For
  frames: acceptance is characterised, every unreadable message is answered, and the test
  client's framing agrees with the server's, so that a call comes back with what the handler
  said. For the adapter: errors leave no trace, replies are well typed, sessions need the
  configured tag, commands are addressed to the right connector and fail only in the documented
  ways, timestamps round-trip. For the
  store: safety against crashes and power cuts, all-or-nothing updates, the file round-trips. For
  the server: online exactly while connected when connections do not overlap, and when \<open>Shutdown\<close>
  returns by itself. For the configuration: validation is equivalent to \<open>config_ok\<close>,
  reports everything in one pass, and what loads is usable. For station and CSMS together: the
  sessions the station believes in are recorded, a station that connected is visible as available,
  a remote session works end to end, reservations round-trip, advertised capabilities are
  honoured, the heartbeat loop ends exactly when told to, and a station that beats is kept. For
  the commands: every invocation reports its error once, \<open>config validate\<close> predicts whether \<open>run\<close>
  starts, \<open>run\<close> logs every event it was not too slow for, and \<open>simulate charger\<close> finds it. Some theorems
  show where the code does not do what its comments say.

  \<^bold>\<open>Bounds and parameters.\<close> Transaction ids and the station's counters are 64-bit: freshness is
  shown up to 2^63 - 1 transactions, the correlation of calls up to 2^64 calls of a connection
  and 2^63 calls of the test client.
  Timestamps are those RFC 3339 can write, years 0 to 9999. All loops are recursions with
  termination proofs, except the heartbeat loop, which may run forever and is a partial function
  into \<open>option\<close>; no fuel is used. Arguments of the definitions stand for the clock, the order in
  which Go visits a map, the outcome of system calls and of dialling, the YAML decoder
  (\<open>yaml_outcome\<close>), \<open>url.Parse\<close>,
  \<open>text/tabwriter\<close>, the link-time variables and the peer at the other end of a call.

  \<^bold>\<open>Not modelled.\<close> The bytes of JSON, YAML and WebSocket messages (documents are decoded values,
  and a text that is none is its error); the listener, the WebSocket and HTTP plumbing; timers other
  than the watchdog's, which are choices of the environment; flag parsing and the choice of the
  command, whose outcome is an argument; signals; and logging other than the event log.
\<close>

subsection \<open>The heartbeat interval, from the configuration to the station\<close>

lemma booted_heartbeat:
  assumes "parse_config url_parse first extra = Inr c" "New_sim r = Inr s"
    "i = dur (ch_HeartbeatInterval (cf_Charger c))"
  shows "\<exists>s' w'. boot (direct c t cp) (s, w) = (None, (s', w')) \<and>
    (if second \<le> i then 0 < heartbeat_ns s' \<and> heartbeat_ns s' \<le> i \<and> i < heartbeat_ns s' + second \<and>
                       heartbeat_ns s' < dur (ch_HeartbeatTimeout (cf_Charger c))
     else heartbeat_ns s' = 60 * second)"
proof -
  have u: "Validate url_parse c = ([], c)" "ParseDuration (raw (ch_HeartbeatInterval (cf_Charger c))) = Some i"
    "0 < i" "i < dur (ch_HeartbeatTimeout (cf_Charger c))"
    using loaded_config_facts [OF assms(1)] assms(3) by (auto simp: Let_def)
  have d: "whole_seconds i = i div second" using u(3) by (simp add: whole_seconds_pos)
  have le: "i div second * second \<le> i" "i < i div second * second + second"
    using div_mult_mod_eq [of i second] pos_mod_sign [OF second_pos, of i] pos_mod_bound [OF second_pos, of i] by linarith+
  have nn: "0 \<le> i div second" "i div second \<le> i div second * second"
    using u(3) by (simp_all add: second_def pos_imp_zdiv_nonneg_iff)
  have r64: "in_int64 (i div second)" "in_int64 (i div second * second)"
    using nn le(1) duration_le [OF u(2)] by (simp_all add: in_int64_def int64_min_def)
  have hb: "heartbeat_ns s = 60 * second"
    using New_sim_eq [OF assms(2)] by (simp add: fallbackHeartbeat_def)
  have r64': "in_int64 (whole_seconds i)" using r64 d by simp
  have "whole_seconds i = whole_seconds (dur (ch_HeartbeatInterval (cf_Charger c)))" by (simp add: assms(3))
  from direct_boot [OF _ _ this r64', of s t cp w] obtain w' where "boot (direct c t cp) (s, w) =
      (None, (if whole_seconds i > 0 then s\<lparr>heartbeat_ns := wrap64 (whole_seconds i * second)\<rparr> else s, w'))"
    using station_identity [OF assms(2)] by blast
  moreover have "second \<le> i \<longleftrightarrow> i div second > 0"
    by (simp add: pos_imp_zdiv_pos_iff second_pos)
  ultimately show ?thesis
    using le r64 u(4) hb d second_pos by (auto simp: wrap64_id)
qed

text \<open>
  Property C29. The heartbeat interval of a configuration that loads reaches the station in whole
  seconds: from one second on, the booted station beats at most that often and more often than
  the CSMS's timeout requires. A shorter interval is accepted by validation but reaches the
  station as 0, so that it keeps beating once a minute whatever the timeout.
\<close>

theorem heartbeat_interval_end_to_end:
  assumes "parse_config url_parse first extra = Inr c" "New_sim r = Inr s"
    "i = dur (ch_HeartbeatInterval (cf_Charger c))"
  shows "\<exists>s' w'. boot (direct c t cp) (s, w) = (None, (s', w')) \<and>
    (if second \<le> i then 0 < heartbeat_ns s' \<and> heartbeat_ns s' \<le> i \<and> i < heartbeat_ns s' + second \<and>
                       heartbeat_ns s' < dur (ch_HeartbeatTimeout (cf_Charger c))
     else heartbeat_ns s' = 60 * second)"
  by (rule booted_heartbeat [OF assms])

theorem heartbeat_interval_end_to_end_witness:
  "\<exists>s' w'. boot (direct (projr (parse_config sample_url (YamlConfig sample_config) NoMore)) (\<lambda>_. clk) ''CP1'')
      (demo_station, New (Some (one_evse ''E''))) = (None, (s', w')) \<and> 0 < heartbeat_ns s'"
proof -
  obtain c where c: "parse_config sample_url (YamlConfig sample_config) NoMore = Inr c"
    using sample_loads by (cases "parse_config sample_url (YamlConfig sample_config) NoMore") auto
  obtain s' w' where "boot (direct c (\<lambda>_. clk) ''CP1'') (demo_station, New (Some (one_evse ''E''))) = (None, (s', w'))"
    "0 < heartbeat_ns s'"
    using heartbeat_interval_end_to_end [OF c New_demo refl, of "\<lambda>_. clk" "''CP1''" "New (Some (one_evse ''E''))"]
    by (auto simp: second_def split: if_splits)
  then show ?thesis by (simp add: c)
qed



end
